theory Spec2Isabelle
  imports
    Complex_Main
    "HOL-Library.Word"
    "HOL-Library.Signed_Division"
    "HOL-Library.Char_ord"
    "HOL-Library.List_Lexorder"
    "HOL-Library.Log_Nat"
begin

section \<open>Batch compression pipeline: a shallow embedding\<close>

text \<open>
  The development follows the Go sources of the compressor: the entities
  (\<open>CompressionResult\<close>, \<open>ProcessingStatus\<close>, \<open>CompressionConfig\<close>), the file inventory
  (\<open>FileSystemRepository.ListPDFFiles\<close>), the batch use cases
  (\<open>ProcessPDFsUseCase.Execute\<close>, its \<open>worker\<close> and \<open>replaceOriginalFile\<close>, and
  \<open>CompressDirectoryUseCase.Execute\<close>).

  Conventions of the embedding.
  \<^item> Go \<open>int64\<close> (file sizes, \<open>time.Duration\<close>) is \<open>64 word\<close>: \<open>+\<close> and \<open>-\<close> wrap, comparisons
    are the signed ones (\<open><s\<close>, \<open>\<le>s\<close>), \<open>sint\<close> reads the value.
  \<^item> Go \<open>int\<close> (counters, configuration values, loop indices) is HOL \<open>int\<close>. Every such
    value in the modelled code is a configuration value that is only compared, or a counter
    that starts at zero and is incremented once per processed file, so it stays far inside
    the machine range.
  \<^item> Go \<open>float64\<close> is a type parameter \<open>'f\<close> together with a record of its operations
    (conversion from an integer, subtraction, division, multiplication). The expressions of
    the source are kept operation by operation. Two instances are given: \<open>binary64_ops\<close>, the
    arithmetic of the machine (every operation rounds its exact result to the nearest
    \<open>float64\<close>, ties to even), and \<open>exact_ops\<close>, arithmetic without rounding.
  \<^item> Go \<open>error\<close> is the datatype \<open>error\<close>; a \<open>nil\<close> error is \<open>None\<close>. The constructors that
    take an \<open>error\<close> stand for \<open>fmt.Errorf\<close> with the verb \<open>%w\<close>.
  \<^item> The clock is an input: a function that reads \<open>time.Since(StartTime)\<close> takes the value
    read as an argument.
  \<^item> Log output is not part of the model; user-visible message texts are given in ASCII.
\<close>

subsection \<open>Basic types\<close>

type_synonym int64 = "64 word"
type_synonym path = string

record 'f float64_ops =
  f_of_int :: "int \<Rightarrow> 'f"
  f_sub :: "'f \<Rightarrow> 'f \<Rightarrow> 'f"
  f_div :: "'f \<Rightarrow> 'f \<Rightarrow> 'f"
  f_mul :: "'f \<Rightarrow> 'f \<Rightarrow> 'f"

text \<open>Conversion \<open>float64(x)\<close> of an \<open>int64\<close>, and of a Go \<open>int\<close>.\<close>

definition float64_of_int64 :: "'f float64_ops \<Rightarrow> int64 \<Rightarrow> 'f" where
  "float64_of_int64 F x = f_of_int F (sint x)"

text \<open>Exact arithmetic as one instance of the operations, used to run the model.\<close>

definition exact_ops :: "rat float64_ops" where
  "exact_ops = \<lparr>f_of_int = rat_of_int, f_sub = (-), f_div = (/), f_mul = (*)\<rparr>"

text \<open>
  The arithmetic of \<open>float64\<close> (IEEE 754 binary64, rounding to nearest, ties to even). A
  finite \<open>float64\<close> is the rational number it denotes. \<open>exponent x\<close> is the \<open>e\<close> with
  \<open>2\<^sup>e \<le> |x| < 2\<^sup>e\<^sup>+\<^sup>1\<close>; a number with this exponent is rounded to a multiple of
  \<open>2\<^sup>e\<^sup>-\<^sup>5\<^sup>2\<close>, which leaves it a significand of 53 bits. Every operation is the exact
  operation followed by the rounding, and the conversion of an integer rounds it. Infinities,
  NaN, signed zeros and subnormal numbers are left out: the values of the program are
  integers of 64 bits (sizes and counters), their differences, quotients of these by a
  positive integer, and products of such a quotient by 100, which are zero or lie between
  \<open>2\<^sup>-\<^sup>6\<^sup>3\<close> and \<open>2\<^sup>7\<^sup>1\<close> in absolute value; every division of the program is guarded
  by a test that the divisor is positive. No expression of the program has the form
  \<open>x * y + z\<close>, which a Go compiler may fuse into one rounding.
\<close>

definition pow2 :: "int \<Rightarrow> rat" where
  "pow2 e = (if 0 \<le> e then 2 ^ nat e else 1 / 2 ^ nat (- e))"

definition exponent :: "rat \<Rightarrow> int" where
  "exponent x =
     (let (p, q) = quotient_of \<bar>x\<bar>;
          e = bitlen p - bitlen q
      in if pow2 e \<le> \<bar>x\<bar> then e else e - 1)"

definition round_half_even :: "rat \<Rightarrow> int" where
  "round_half_even x =
     (let n = \<lfloor>x\<rfloor>; d = x - of_int n
      in if d < 1 / 2 then n
         else if 1 / 2 < d then n + 1
         else if even n then n else n + 1)"

definition round_binary64 :: "rat \<Rightarrow> rat" where
  "round_binary64 x =
     (if x = 0 then 0
      else let ulp = pow2 (exponent x - 52)
           in sgn x * of_int (round_half_even (\<bar>x\<bar> / ulp)) * ulp)"

definition binary64_ops :: "rat float64_ops" where
  "binary64_ops =
     \<lparr>f_of_int = (\<lambda>i. round_binary64 (of_int i)),
      f_sub = (\<lambda>a b. round_binary64 (a - b)),
      f_div = (\<lambda>a b. round_binary64 (a / b)),
      f_mul = (\<lambda>a b. round_binary64 (a * b))\<rparr>"

datatype error =
    OsError string
  | CompressorError string
  | ErrInvalidCompressionLevel
  | ErrInvalidImageQuality
  | ErrDirectoryNotFound
  | ErrNoFilesFound
  | SkipDir
  | SkipAll
  | SourceDirMissing path
  | TargetDirCreateFailed error
  | OutputDirCreateFailed error
  | ListFilesFailed error
  | ConfigCreateFailed error
  | ConfigValidationFailed error
  | MkdirFailed path error
  | FileInfoFailed error
  | FileInfoFailedFor path error
  | CompressFailedFor path error
  | ErrNotExist path
  | TempFileMissing path
  | BackupFailed error
  | SwapFailed error
  | ReplaceFailed error

datatype panic = NilPointerDereference

subsection \<open>Entities: \<open>CompressionResult\<close>\<close>

record 'f CompressionResult =
  CurrentFile :: path
  OriginalSize :: int64
  CompressedSize :: int64
  CompressionRatio :: 'f
  SavedSpace :: int64
  Success :: bool
  Error :: "error option"

text \<open>
  \<open>CalculateCompressionRatio\<close>: under \<open>OriginalSize > 0\<close> the ratio is
  \<open>((float64(OriginalSize) - float64(CompressedSize)) / float64(OriginalSize)) * 100\<close> and
  \<open>SavedSpace = OriginalSize - CompressedSize\<close>; otherwise nothing is written.
\<close>

definition CalculateCompressionRatio ::
  "'f float64_ops \<Rightarrow> 'f CompressionResult \<Rightarrow> 'f CompressionResult" where
  "CalculateCompressionRatio F cr =
     (if 0 <s OriginalSize cr then
        cr\<lparr>CompressionRatio :=
              f_mul F
                (f_div F
                   (f_sub F (float64_of_int64 F (OriginalSize cr))
                            (float64_of_int64 F (CompressedSize cr)))
                   (float64_of_int64 F (OriginalSize cr)))
                (f_of_int F 100),
           SavedSpace := OriginalSize cr - CompressedSize cr\<rparr>
      else cr)"

text \<open>A composite literal \<open>&CompressionResult{...}\<close>: the fields not named are zero.\<close>

definition zero_result :: "'f float64_ops \<Rightarrow> 'f CompressionResult" where
  "zero_result F =
     \<lparr>CurrentFile = [], OriginalSize = 0, CompressedSize = 0,
      CompressionRatio = f_of_int F 0, SavedSpace = 0, Success = False, Error = None\<rparr>"

subsection \<open>Entities: \<open>ProcessingStatus\<close>\<close>

datatype ProcessingPhase =
    PhaseInitializing
  | PhaseScanning
  | PhaseCompressing
  | PhaseReplacing
  | PhaseCompleted
  | PhaseFailed

record 'f ProcessingStatus =
  Phase :: ProcessingPhase
  StatusCurrentFile :: path
  CurrentFileSize :: int64
  TotalFiles :: int
  ProcessedFiles :: int
  SuccessfulFiles :: int
  FailedFiles :: int
  SkippedFiles :: int
  Progress :: 'f
  TotalOriginalSize :: int64
  TotalCompressedSize :: int64
  TotalSavedSpace :: int64
  AverageCompression :: 'f
  LastResult :: "'f CompressionResult option"
  ElapsedTime :: int64
  EstimatedTime :: int64
  IsComplete :: bool
  StatusError :: "error option"
  Message :: string

text \<open>
  The fields \<open>CurrentFile\<close> and \<open>Error\<close> of the status are named \<open>StatusCurrentFile\<close> and
  \<open>StatusError\<close> here, since \<open>CompressionResult\<close> has fields of the same names. The field
  \<open>StartTime\<close> is only ever read through \<open>time.Since\<close>, which is an input of the model.
\<close>

definition NewProcessingStatus :: "'f float64_ops \<Rightarrow> int \<Rightarrow> 'f ProcessingStatus" where
  "NewProcessingStatus F totalFiles =
     \<lparr>Phase = PhaseInitializing, StatusCurrentFile = [], CurrentFileSize = 0,
      TotalFiles = totalFiles, ProcessedFiles = 0, SuccessfulFiles = 0, FailedFiles = 0,
      SkippedFiles = 0, Progress = f_of_int F 0,
      TotalOriginalSize = 0, TotalCompressedSize = 0, TotalSavedSpace = 0,
      AverageCompression = f_of_int F 0, LastResult = None,
      ElapsedTime = 0, EstimatedTime = 0, IsComplete = False, StatusError = None,
      Message = []\<rparr>"

text \<open>
  \<open>UpdateProgress\<close>. The division of durations is Go's truncating \<open>int64\<close> division; it is
  reached only with \<open>ProcessedFiles > 0\<close>.
\<close>

definition duration_div :: "int64 \<Rightarrow> int64 \<Rightarrow> int64" where
  "duration_div a b = word_of_int (sint a sdiv sint b)"

definition UpdateProgress ::
  "'f float64_ops \<Rightarrow> int64 \<Rightarrow> 'f ProcessingStatus \<Rightarrow> 'f ProcessingStatus" where
  "UpdateProgress F since ps =
     (let ps1 = (if 0 < TotalFiles ps
                 then ps\<lparr>Progress :=
                        f_mul F (f_div F (f_of_int F (ProcessedFiles ps))
                                         (f_of_int F (TotalFiles ps)))
                                (f_of_int F 100)\<rparr>
                 else ps);
          ps2 = ps1\<lparr>ElapsedTime := since\<rparr>
      in if 0 < ProcessedFiles ps2 \<and> ProcessedFiles ps2 < TotalFiles ps2
         then ps2\<lparr>EstimatedTime :=
                duration_div (ElapsedTime ps2) (word_of_int (ProcessedFiles ps2))
                  * word_of_int (TotalFiles ps2 - ProcessedFiles ps2)\<rparr>
         else ps2)"

definition AddResult ::
  "'f float64_ops \<Rightarrow> int64 \<Rightarrow> 'f CompressionResult \<Rightarrow> 'f ProcessingStatus
     \<Rightarrow> 'f ProcessingStatus" where
  "AddResult F since result ps =
     (let ps1 = ps\<lparr>ProcessedFiles := ProcessedFiles ps + 1, LastResult := Some result\<rparr>;
          ps2 =
            (if Success result \<and> Error result = None then
               (let ps3 = ps1\<lparr>SuccessfulFiles := SuccessfulFiles ps1 + 1,
                              TotalOriginalSize := TotalOriginalSize ps1 + OriginalSize result,
                              TotalCompressedSize :=
                                TotalCompressedSize ps1 + CompressedSize result,
                              TotalSavedSpace := TotalSavedSpace ps1 + SavedSpace result\<rparr>
                in if 0 <s TotalOriginalSize ps3
                   then ps3\<lparr>AverageCompression :=
                          f_mul F
                            (f_div F
                               (f_sub F (float64_of_int64 F (TotalOriginalSize ps3))
                                        (float64_of_int64 F (TotalCompressedSize ps3)))
                               (float64_of_int64 F (TotalOriginalSize ps3)))
                            (f_of_int F 100)\<rparr>
                   else ps3)
             else ps1\<lparr>FailedFiles := FailedFiles ps1 + 1\<rparr>)
      in UpdateProgress F since ps2)"

definition SetPhase ::
  "ProcessingPhase \<Rightarrow> string \<Rightarrow> 'f ProcessingStatus \<Rightarrow> 'f ProcessingStatus" where
  "SetPhase phase message ps = ps\<lparr>Phase := phase, Message := message\<rparr>"

definition SetCurrentFile ::
  "path \<Rightarrow> int64 \<Rightarrow> 'f ProcessingStatus \<Rightarrow> 'f ProcessingStatus" where
  "SetCurrentFile filePath sz ps =
     ps\<lparr>StatusCurrentFile := filePath, CurrentFileSize := sz\<rparr>"

definition Complete ::
  "'f float64_ops \<Rightarrow> int64 \<Rightarrow> 'f ProcessingStatus \<Rightarrow> 'f ProcessingStatus" where
  "Complete F since ps =
     ps\<lparr>IsComplete := True, Phase := PhaseCompleted, Progress := f_of_int F 100,
        ElapsedTime := since, EstimatedTime := 0\<rparr>"

definition Fail :: "int64 \<Rightarrow> error \<Rightarrow> 'f ProcessingStatus \<Rightarrow> 'f ProcessingStatus" where
  "Fail since err ps =
     ps\<lparr>IsComplete := True, Phase := PhaseFailed, StatusError := Some err,
        ElapsedTime := since\<rparr>"

subsection \<open>Configuration\<close>

record ScannerConfig =
  SourceDirectory :: path
  TargetDirectory :: path
  ReplaceOriginal :: bool

text \<open>
  \<open>AppCompressionConfig\<close>; its fields \<open>Level\<close> and \<open>UniPDFLicenseKey\<close> carry the prefix
  \<open>App\<close>, since \<open>CompressionConfig\<close> has fields of the same names.
\<close>

record AppCompressionConfig =
  AppLevel :: int
  Algorithm :: string
  AutoStart :: bool
  AppUniPDFLicenseKey :: string
  EnableJPEG :: bool
  EnablePNG :: bool
  JPEGQuality :: int
  PNGQuality :: int

record ProcessingConfig =
  ParallelWorkers :: int
  TimeoutSeconds :: int
  RetryAttempts :: int

record Config =
  Scanner :: ScannerConfig
  Compression :: AppCompressionConfig
  Processing :: ProcessingConfig

record CompressionConfig =
  Level :: int
  ImageQuality :: int
  ImageCompression :: bool
  RemoveDuplicates :: bool
  CompressStreams :: bool
  RemoveMetadata :: bool
  RemoveAnnotations :: bool
  RemoveAttachments :: bool
  OptimizeForWeb :: bool
  UniPDFLicenseKey :: string

definition NewCompressionConfigWithLicense :: "int \<Rightarrow> string \<Rightarrow> CompressionConfig" where
  "NewCompressionConfigWithLicense level0 licenseKey =
     (let level1 = (if level0 < 10 then 10 else level0);
          level = (if 90 < level1 then 90 else level1);
          config = \<lparr>Level = level, ImageQuality = 0, ImageCompression = False,
                    RemoveDuplicates = True, CompressStreams = True,
                    RemoveMetadata = False, RemoveAnnotations = False,
                    RemoveAttachments = False, OptimizeForWeb = True,
                    UniPDFLicenseKey = licenseKey\<rparr>
      in if level \<le> 20 then
           config\<lparr>ImageQuality := 90, ImageCompression := True, RemoveMetadata := False,
                  RemoveAnnotations := False, RemoveAttachments := False\<rparr>
         else if level \<le> 40 then
           config\<lparr>ImageQuality := 75, ImageCompression := True, RemoveMetadata := True,
                  RemoveAnnotations := False, RemoveAttachments := False\<rparr>
         else if level \<le> 60 then
           config\<lparr>ImageQuality := 60, ImageCompression := True, RemoveMetadata := True,
                  RemoveAnnotations := True, RemoveAttachments := False\<rparr>
         else if level \<le> 80 then
           config\<lparr>ImageQuality := 40, ImageCompression := True, RemoveMetadata := True,
                  RemoveAnnotations := True, RemoveAttachments := True\<rparr>
         else
           config\<lparr>ImageQuality := 25, ImageCompression := True, RemoveMetadata := True,
                  RemoveAnnotations := True, RemoveAttachments := True\<rparr>)"

definition NewCompressionConfig :: "int \<Rightarrow> CompressionConfig" where
  "NewCompressionConfig level = NewCompressionConfigWithLicense level []"

definition Validate :: "CompressionConfig \<Rightarrow> error option" where
  "Validate c =
     (if Level c < 10 \<or> 90 < Level c then Some ErrInvalidCompressionLevel
      else if ImageQuality c < 10 \<or> 100 < ImageQuality c then Some ErrInvalidImageQuality
      else None)"

text \<open>The \<open>ConfigRepository\<close> of the sources.\<close>

definition GetCompressionConfig :: "int \<Rightarrow> error + CompressionConfig" where
  "GetCompressionConfig level = Inr (NewCompressionConfig level)"

definition ValidateConfig :: "CompressionConfig \<Rightarrow> error option" where
  "ValidateConfig config = Validate config"

subsection \<open>The file system and the replacement of an original\<close>

text \<open>
  A file system maps the path of a regular file to its content. \<open>os.Rename\<close> and
  \<open>os.Remove\<close> fail when their source is missing, and may fail for any other reason: the
  record \<open>os_faults\<close> says for which arguments they do. A failed call changes nothing; a
  successful \<open>os.Rename\<close> replaces the destination. \<open>os.Stat\<close> returns no error for a file
  that is there, an error that \<open>os.IsNotExist\<close> recognises for a file that is not, and an
  error of another kind (a component of the path that is not a directory, a directory that
  may not be searched) where the faults say so, whether the file is there or not.
\<close>

type_synonym fsys = "path \<Rightarrow> string option"

record os_faults =
  rename_fails :: "path \<Rightarrow> path \<Rightarrow> bool"
  remove_fails :: "path \<Rightarrow> bool"
  stat_fails :: "path \<Rightarrow> bool"

definition no_faults :: os_faults where
  "no_faults =
     \<lparr>rename_fails = (\<lambda>_ _. False), remove_fails = (\<lambda>_. False), stat_fails = (\<lambda>_. False)\<rparr>"

definition os_Stat :: "os_faults \<Rightarrow> path \<Rightarrow> fsys \<Rightarrow> error option" where
  "os_Stat flt p fs =
     (if stat_fails flt p then Some (OsError (''stat '' @ p))
      else if fs p = None then Some (ErrNotExist p)
      else None)"

fun os_IsNotExist :: "error option \<Rightarrow> bool" where
  "os_IsNotExist (Some (ErrNotExist p)) = True"
| "os_IsNotExist _ = False"

definition os_Rename :: "os_faults \<Rightarrow> path \<Rightarrow> path \<Rightarrow> fsys \<Rightarrow> error option \<times> fsys" where
  "os_Rename flt src dst fs =
     (if rename_fails flt src dst \<or> fs src = None
      then (Some (OsError (''rename '' @ src @ '' '' @ dst)), fs)
      else if src = dst then (None, fs)
      else (None, fs(dst := fs src, src := None)))"

definition os_Remove :: "os_faults \<Rightarrow> path \<Rightarrow> fsys \<Rightarrow> error option \<times> fsys" where
  "os_Remove flt p fs =
     (if remove_fails flt p \<or> fs p = None
      then (Some (OsError (''remove '' @ p)), fs)
      else (None, fs(p := None)))"

definition backup_path :: "path \<Rightarrow> path" where
  "backup_path originalFile = originalFile @ ''.backup''"

text \<open>
  \<open>replaceOriginalFile\<close>: the check of the temporary file
  (\<open>if _, err := os.Stat(tempFile); os.IsNotExist(err)\<close>, which lets every other error of
  \<open>os.Stat\<close> pass), then the three steps. The result
  of the rollback rename is discarded (\<open>_ = os.Rename(backupFile, originalFile)\<close>), and a
  failed removal of the backup is only logged.
\<close>

definition replaceOriginalFile ::
  "os_faults \<Rightarrow> path \<Rightarrow> path \<Rightarrow> fsys \<Rightarrow> error option \<times> fsys" where
  "replaceOriginalFile flt originalFile tempFile fs =
     (if os_IsNotExist (os_Stat flt tempFile fs) then (Some (TempFileMissing tempFile), fs)
      else
        let backupFile = backup_path originalFile in
        case os_Rename flt originalFile backupFile fs of
          (Some err, fs1) \<Rightarrow> (Some (BackupFailed err), fs1)
        | (None, fs1) \<Rightarrow>
            (case os_Rename flt tempFile originalFile fs1 of
               (Some err, fs2) \<Rightarrow>
                 (let (_, fs3) = os_Rename flt backupFile originalFile fs2
                  in (Some (SwapFailed err), fs3))
             | (None, fs2) \<Rightarrow>
                 (let (_, fs3) = os_Remove flt backupFile fs2
                  in (None, fs3))))"

text \<open>
  The same protocol as a step relation: a configuration is the point of the function that
  is reached and the file system observed there; every step is one system call, which
  fails or not as the faults say.
\<close>

datatype replace_pc =
    AtCheck
  | AtBackup
  | AtSwap
  | AtRollback error
  | AtCleanup
  | Returned "error option"

inductive replace_step ::
  "os_faults \<Rightarrow> path \<Rightarrow> path \<Rightarrow> replace_pc \<times> fsys \<Rightarrow> replace_pc \<times> fsys \<Rightarrow> bool"
  for flt originalFile tempFile where
    check_missing:
      "os_IsNotExist (os_Stat flt tempFile fs) \<Longrightarrow>
       replace_step flt originalFile tempFile
         (AtCheck, fs) (Returned (Some (TempFileMissing tempFile)), fs)"
  | check_present:
      "\<not> os_IsNotExist (os_Stat flt tempFile fs) \<Longrightarrow>
       replace_step flt originalFile tempFile (AtCheck, fs) (AtBackup, fs)"
  | backup_failed:
      "os_Rename flt originalFile (backup_path originalFile) fs = (Some err, fs') \<Longrightarrow>
       replace_step flt originalFile tempFile
         (AtBackup, fs) (Returned (Some (BackupFailed err)), fs')"
  | backup_done:
      "os_Rename flt originalFile (backup_path originalFile) fs = (None, fs') \<Longrightarrow>
       replace_step flt originalFile tempFile (AtBackup, fs) (AtSwap, fs')"
  | swap_failed:
      "os_Rename flt tempFile originalFile fs = (Some err, fs') \<Longrightarrow>
       replace_step flt originalFile tempFile (AtSwap, fs) (AtRollback err, fs')"
  | swap_done:
      "os_Rename flt tempFile originalFile fs = (None, fs') \<Longrightarrow>
       replace_step flt originalFile tempFile (AtSwap, fs) (AtCleanup, fs')"
  | rollback:
      "os_Rename flt (backup_path originalFile) originalFile fs = (r, fs') \<Longrightarrow>
       replace_step flt originalFile tempFile
         (AtRollback err, fs) (Returned (Some (SwapFailed err)), fs')"
  | cleanup:
      "os_Remove flt (backup_path originalFile) fs = (r, fs') \<Longrightarrow>
       replace_step flt originalFile tempFile (AtCleanup, fs) (Returned None, fs')"

text \<open>The configurations reached from the call \<open>replaceOriginalFile(originalFile, tempFile)\<close>.\<close>

inductive replace_reaches ::
  "os_faults \<Rightarrow> path \<Rightarrow> path \<Rightarrow> fsys \<Rightarrow> replace_pc \<times> fsys \<Rightarrow> bool"
  for flt originalFile tempFile fs0 where
    reach_start: "replace_reaches flt originalFile tempFile fs0 (AtCheck, fs0)"
  | reach_step:
      "replace_reaches flt originalFile tempFile fs0 c \<Longrightarrow>
       replace_step flt originalFile tempFile c c' \<Longrightarrow>
       replace_reaches flt originalFile tempFile fs0 c'"

code_pred replace_step .

subsection \<open>The ports of the batch use case, and its world\<close>

record PDFDocument =
  Path :: path
  Size :: int64
  ModifiedTime :: int64
  Pages :: int

text \<open>
  What the use case calls and does not implement: the \<open>FileRepository\<close> and the
  \<open>PDFCompressor\<close> it is built with, and the library functions \<open>filepath.Rel\<close>,
  \<open>filepath.Join\<close>, \<open>filepath.Dir\<close>, \<open>filepath.Base\<close>, \<open>os.MkdirAll\<close>, \<open>time.Since\<close>.
  \<open>Compress\<close> returns a pair of a result pointer and an error, as in Go; it is given the
  number of calls made before it in the run, and the file system, which it may change.
  \<open>time_Since n\<close> is the \<open>n\<close>-th reading of the clock by the run.
\<close>

record 'f ports =
  fileRepo_FileExists :: "path \<Rightarrow> bool"
  fileRepo_CreateDirectory :: "path \<Rightarrow> error option"
  fileRepo_ListPDFFiles :: "path \<Rightarrow> error + path list"
  fileRepo_GetFileInfo :: "path \<Rightarrow> error + PDFDocument"
  compressor_Compress ::
    "nat \<Rightarrow> path \<Rightarrow> path \<Rightarrow> CompressionConfig \<Rightarrow> fsys
       \<Rightarrow> ('f CompressionResult option \<times> error option) \<times> fsys"
  filepath_Rel :: "path \<Rightarrow> path \<Rightarrow> error + path"
  filepath_Join :: "path \<Rightarrow> path \<Rightarrow> path"
  filepath_Dir :: "path \<Rightarrow> path"
  filepath_Base :: "path \<Rightarrow> path"
  os_MkdirAll :: "path \<Rightarrow> error option"
  os_fault :: os_faults
  time_Since :: "nat \<Rightarrow> int64"

datatype event = EvCompress path path | EvSleep int64

record world =
  w_fs :: fsys
  w_events :: "event list"

fun is_compress :: "event \<Rightarrow> bool" where
  "is_compress (EvCompress _ _) = True"
| "is_compress (EvSleep _) = False"

definition compress_calls :: "world \<Rightarrow> nat" where
  "compress_calls w = length (filter is_compress (w_events w))"

definition call_Compress ::
  "'f ports \<Rightarrow> path \<Rightarrow> path \<Rightarrow> CompressionConfig \<Rightarrow> world
     \<Rightarrow> ('f CompressionResult option \<times> error option) \<times> world" where
  "call_Compress P inputPath outputPath config w =
     (let (r, fs') = compressor_Compress P (compress_calls w) inputPath outputPath config (w_fs w)
      in (r, w\<lparr>w_fs := fs', w_events := w_events w @ [EvCompress inputPath outputPath]\<rparr>))"

definition time_Sleep :: "int64 \<Rightarrow> world \<Rightarrow> world" where
  "time_Sleep d w = w\<lparr>w_events := w_events w @ [EvSleep d]\<rparr>"

definition time_Second :: int64 where
  "time_Second = 1000000000"

subsection \<open>The worker of \<open>ProcessPDFsUseCase\<close>\<close>

text \<open>
  The retry loop of the worker,
  \<open>for attempt := 0; attempt < RetryAttempts; attempt++\<close>: the state is the pair
  \<open>(result, err)\<close> of the variables assigned by \<open>Compress\<close>.
\<close>

function retry_loop ::
  "'f ports \<Rightarrow> int \<Rightarrow> path \<Rightarrow> path \<Rightarrow> CompressionConfig \<Rightarrow> int
     \<Rightarrow> 'f CompressionResult option \<times> error option \<Rightarrow> world
     \<Rightarrow> ('f CompressionResult option \<times> error option) \<times> world" where
  "retry_loop P retryAttempts inputFile outputFile cfg attempt re w =
     (if attempt < retryAttempts then
        (let (re', w1) = call_Compress P inputFile outputFile cfg w
         in if snd re' = None then (re', w1)
            else
              (let w2 = (if attempt < retryAttempts - 1
                         then time_Sleep (time_Second * 2) w1 else w1)
               in retry_loop P retryAttempts inputFile outputFile cfg (attempt + 1) re' w2))
      else (re, w))"
  by pat_completeness auto
termination
  by (relation "measure (\<lambda>(P, n, i, out, cfg, attempt, re, w). nat (n - attempt))") auto

declare retry_loop.simps [simp del]

text \<open>
  The body of the loop \<open>for inputFile := range jobs\<close>, in two parts. First the path of the
  output file: \<open>Inl\<close> is the failed result published when the directory of the output
  cannot be created (the \<open>continue\<close> of the source).
\<close>

definition resolve_output ::
  "'f float64_ops \<Rightarrow> 'f ports \<Rightarrow> Config \<Rightarrow> path \<Rightarrow> 'f CompressionResult + path" where
  "resolve_output F P config inputFile =
     (let fileName = filepath_Base P inputFile
      in if ReplaceOriginal (Scanner config) then Inr (inputFile @ ''.tmp'')
         else
           case filepath_Rel P (SourceDirectory (Scanner config)) inputFile of
             Inl _ \<Rightarrow> Inr (filepath_Join P (TargetDirectory (Scanner config)) fileName)
           | Inr relPath \<Rightarrow>
               (let outputFile = filepath_Join P (TargetDirectory (Scanner config)) relPath;
                    outputDir = filepath_Dir P outputFile
                in case os_MkdirAll P outputDir of
                     Some err \<Rightarrow>
                       Inl ((zero_result F)\<lparr>CurrentFile := inputFile, Success := False,
                              Error := Some (MkdirFailed outputDir err)\<rparr>)
                   | None \<Rightarrow> Inr outputFile))"

text \<open>
  Then the rest of the body: it publishes one result, or the goroutine panics on the nil
  \<open>result\<close>.
\<close>

definition worker_job ::
  "'f float64_ops \<Rightarrow> 'f ports \<Rightarrow> Config \<Rightarrow> CompressionConfig \<Rightarrow> path \<Rightarrow> world
     \<Rightarrow> panic + ('f CompressionResult \<times> world)" where
  "worker_job F P config compressionConfig inputFile w =
     (case resolve_output F P config inputFile of
        Inl failed \<Rightarrow> Inr (failed, w)
      | Inr outputFile \<Rightarrow>
             (case fileRepo_GetFileInfo P inputFile of
                Inl err \<Rightarrow>
                  Inr ((zero_result F)\<lparr>CurrentFile := inputFile, Success := False,
                         Error := Some (FileInfoFailed err)\<rparr>, w)
              | Inr fileInfo \<Rightarrow>
                  (let ((result, err), w1) =
                         retry_loop P (RetryAttempts (Processing config)) inputFile outputFile
                           compressionConfig 0 (None, None) w
                   in case err of
                        Some e \<Rightarrow>
                          Inr ((zero_result F)\<lparr>CurrentFile := inputFile,
                                 OriginalSize := Size fileInfo, Success := False,
                                 Error := Some e\<rparr>, w1)
                      | None \<Rightarrow>
                          (case result of
                             None \<Rightarrow> Inl NilPointerDereference
                           | Some r \<Rightarrow>
                               (let r1 = CalculateCompressionRatio F
                                           (r\<lparr>CurrentFile := inputFile,
                                              OriginalSize := Size fileInfo\<rparr>)
                                in if ReplaceOriginal (Scanner config) then
                                     (case replaceOriginalFile (os_fault P) inputFile outputFile
                                             (w_fs w1) of
                                        (Some e, fs1) \<Rightarrow>
                                          (let (_, fs2) = os_Remove (os_fault P) outputFile fs1
                                           in Inr (r1\<lparr>Success := False,
                                                      Error := Some (ReplaceFailed e)\<rparr>,
                                                   w1\<lparr>w_fs := fs2\<rparr>))
                                      | (None, fs1) \<Rightarrow>
                                          Inr (r1\<lparr>CurrentFile := inputFile\<rparr>,
                                               w1\<lparr>w_fs := fs1\<rparr>))
                                   else Inr (r1, w1))))))"

subsection \<open>The worker pool and \<open>ProcessPDFsUseCase.Execute\<close>\<close>

text \<open>
  The pool: \<open>workers\<close> goroutines read the buffered channel \<open>jobs\<close>, which holds the files
  in the order of the inventory, and each publishes one result per job on \<open>results\<close>. A
  job is taken only by a worker that has published its previous result, so the next result
  to arrive is that of one of the first \<open>workers\<close> jobs not yet answered; which one is
  decided by the scheduler, here the list \<open>picks\<close>. The effects of a job on the world are
  taken at the moment its result is published. A panic of a worker ends the process.
\<close>

function run_pool ::
  "'f float64_ops \<Rightarrow> 'f ports \<Rightarrow> Config \<Rightarrow> CompressionConfig \<Rightarrow> nat \<Rightarrow> nat list
     \<Rightarrow> path list \<Rightarrow> world \<Rightarrow> panic + ('f CompressionResult list \<times> world)" where
  "run_pool F P config cfg workers picks [] w = Inr ([], w)"
| "run_pool F P config cfg workers picks (j # js) w =
     (let queue = j # js;
          i = (case picks of [] \<Rightarrow> 0 | p # _ \<Rightarrow> p mod (min (max 1 workers) (length queue)))
      in case worker_job F P config cfg (queue ! i) w of
           Inl pn \<Rightarrow> Inl pn
         | Inr (r, w1) \<Rightarrow>
             (case run_pool F P config cfg workers (tl picks)
                     (take i queue @ drop (Suc i) queue) w1 of
                Inl pn \<Rightarrow> Inl pn
              | Inr (rs, w2) \<Rightarrow> Inr (r # rs, w2)))"
  by pat_completeness auto
termination
proof (relation "measure (\<lambda>(F, P, config, cfg, workers, picks, queue, w). length queue)")
  show "wf (measure (\<lambda>(F, P, config, cfg, workers, picks, queue, w). length queue))"
    by simp
next
  fix F :: "'f float64_ops" and P :: "'f ports" and config cfg workers picks j js w
    queue i x2 x y
  assume q: "queue = j # js"
    and i: "i = (case picks of [] \<Rightarrow> 0 | p # _ \<Rightarrow> p mod (min (max 1 workers) (length queue)))"
  have "i < length queue"
  proof (cases picks)
    case Nil
    with q i show ?thesis by simp
  next
    case (Cons p ps)
    define m where "m = min (max 1 workers) (length queue)"
    have "0 < m" and "m \<le> length queue"
      using q by (simp_all add: m_def)
    moreover have "i = p mod m"
      using i Cons by (simp add: m_def)
    ultimately show ?thesis
      using mod_less_divisor [of m p] by linarith
  qed
  then show "((F, P, config, cfg, workers, tl picks, take i queue @ drop (Suc i) queue, y),
              (F, P, config, cfg, workers, picks, j # js, w))
             \<in> measure (\<lambda>(F, P, config, cfg, workers, picks, queue, w). length queue)"
    using \<open>queue = j # js\<close> by simp
qed

text \<open>
  The loop \<open>for result := range results\<close> of \<open>Execute\<close>: every result is added to the
  status, the current file is set, and the status is reported. The function returns the
  last status and the statuses reported, in order; \<open>k\<close> counts the readings of the clock.
\<close>

fun aggregate ::
  "'f float64_ops \<Rightarrow> (nat \<Rightarrow> int64) \<Rightarrow> nat \<Rightarrow> 'f CompressionResult list
     \<Rightarrow> 'f ProcessingStatus \<Rightarrow> 'f ProcessingStatus \<times> 'f ProcessingStatus list" where
  "aggregate F clock k [] status = (status, [])"
| "aggregate F clock k (result # rs) status =
     (let status1 = SetCurrentFile (CurrentFile result) (OriginalSize result)
                      (AddResult F (clock k) result status);
          (final, reported) = aggregate F clock (Suc k) rs status1
      in (final, status1 # reported))"

record 'f run_outcome =
  returned :: "error option"
  final_status :: "'f ProcessingStatus"
  reported :: "'f ProcessingStatus list"
  workers_started :: nat
  final_world :: world

definition run_failed ::
  "'f ports \<Rightarrow> error \<Rightarrow> 'f ProcessingStatus \<Rightarrow> 'f ProcessingStatus list \<Rightarrow> world
     \<Rightarrow> 'f run_outcome" where
  "run_failed P err status reps w =
     (let status1 = Fail (time_Since P 0) err status
      in \<lparr>returned = Some err, final_status = status1, reported = reps @ [status1],
          workers_started = 0, final_world = w\<rparr>)"

definition ProcessPDFs_Execute ::
  "'f float64_ops \<Rightarrow> 'f ports \<Rightarrow> nat list \<Rightarrow> Config \<Rightarrow> world \<Rightarrow> panic + 'f run_outcome" where
  "ProcessPDFs_Execute F P picks config w =
     (let status0 = SetPhase PhaseInitializing ''Initializing...'' (NewProcessingStatus F 0);
          reps0 = [status0];
          sourceDir = SourceDirectory (Scanner config)
      in if \<not> fileRepo_FileExists P sourceDir
         then Inr (run_failed P (SourceDirMissing sourceDir) status0 reps0 w)
         else
           case (if \<not> ReplaceOriginal (Scanner config)
                 then fileRepo_CreateDirectory P (TargetDirectory (Scanner config))
                 else None) of
             Some err \<Rightarrow> Inr (run_failed P (TargetDirCreateFailed err) status0 reps0 w)
           | None \<Rightarrow>
               (let status1 = SetPhase PhaseScanning ''Scanning PDF files...'' status0;
                    reps1 = reps0 @ [status1]
                in case fileRepo_ListPDFFiles P sourceDir of
                     Inl err \<Rightarrow> Inr (run_failed P (ListFilesFailed err) status1 reps1 w)
                   | Inr files \<Rightarrow>
                       if length files = 0 then
                         (let status2 = Complete F (time_Since P 0) status1
                          in Inr \<lparr>returned = None, final_status = status2,
                                  reported = reps1 @ [status2], workers_started = 0,
                                  final_world = w\<rparr>)
                       else
                         (let status2 = status1\<lparr>TotalFiles := int (length files)\<rparr>;
                              compressionConfig =
                                NewCompressionConfigWithLicense
                                  (AppLevel (Compression config))
                                  (AppUniPDFLicenseKey (Compression config))
                          in case ValidateConfig compressionConfig of
                               Some err \<Rightarrow>
                                 Inr (run_failed P (ConfigValidationFailed err) status2 reps1 w)
                             | None \<Rightarrow>
                                 (let status3 = SetPhase PhaseCompressing
                                                  ''Compressing PDF files...'' status2;
                                      reps3 = reps1 @ [status3];
                                      workers =
                                        (if ParallelWorkers (Processing config) \<le> 0 then 1
                                         else ParallelWorkers (Processing config))
                                  in case run_pool F P config compressionConfig (nat workers)
                                            picks files w of
                                       Inl pn \<Rightarrow> Inl pn
                                     | Inr (results, w1) \<Rightarrow>
                                         (let (status4, reps4) =
                                                aggregate F (time_Since P) 0 results status3;
                                              status5 = Complete F
                                                          (time_Since P (length results)) status4
                                          in Inr \<lparr>returned = None, final_status = status5,
                                                  reported = reps3 @ reps4 @ [status5],
                                                  workers_started = nat workers,
                                                  final_world = w1\<rparr>)))))"

subsection \<open>\<open>CompressDirectoryUseCase.Execute\<close>\<close>

record 'f DirectoryCompressionResult =
  DirTotalFiles :: int
  SuccessCount :: int
  FailedCount :: int
  Results :: "'f CompressionResult list"
  Errors :: "error list"

fun compress_each ::
  "'f float64_ops \<Rightarrow> 'f ports \<Rightarrow> path \<Rightarrow> CompressionConfig \<Rightarrow> path list
     \<Rightarrow> 'f DirectoryCompressionResult \<Rightarrow> world
     \<Rightarrow> panic + ('f DirectoryCompressionResult \<times> world)" where
  "compress_each F P outputDir config [] result w = Inr (result, w)"
| "compress_each F P outputDir config (inputFile # files) result w =
     (let fileName = filepath_Base P inputFile;
          outputFile = filepath_Join P outputDir (''compressed_'' @ fileName)
      in case fileRepo_GetFileInfo P inputFile of
           Inl err \<Rightarrow>
             compress_each F P outputDir config files
               (result\<lparr>Errors := Errors result @ [FileInfoFailedFor fileName err],
                        FailedCount := FailedCount result + 1\<rparr>) w
         | Inr fileInfo \<Rightarrow>
             (case call_Compress P inputFile outputFile config w of
                ((_, Some err), w1) \<Rightarrow>
                  compress_each F P outputDir config files
                    (result\<lparr>Errors := Errors result @ [CompressFailedFor fileName err],
                             FailedCount := FailedCount result + 1\<rparr>) w1
              | ((None, None), w1) \<Rightarrow> Inl NilPointerDereference
              | ((Some compressionResult, None), w1) \<Rightarrow>
                  compress_each F P outputDir config files
                    (result\<lparr>Results := Results result @
                               [CalculateCompressionRatio F
                                  (compressionResult\<lparr>OriginalSize := Size fileInfo\<rparr>)],
                             SuccessCount := SuccessCount result + 1\<rparr>) w1))"

definition CompressDirectory_Execute ::
  "'f float64_ops \<Rightarrow> 'f ports \<Rightarrow> path \<Rightarrow> path \<Rightarrow> int \<Rightarrow> world
     \<Rightarrow> panic + ((error + 'f DirectoryCompressionResult) \<times> world)" where
  "CompressDirectory_Execute F P inputDir outputDir compressionLevel w =
     (if \<not> fileRepo_FileExists P inputDir then Inr (Inl ErrDirectoryNotFound, w)
      else
        case fileRepo_CreateDirectory P outputDir of
          Some err \<Rightarrow> Inr (Inl (OutputDirCreateFailed err), w)
        | None \<Rightarrow>
            (case fileRepo_ListPDFFiles P inputDir of
               Inl err \<Rightarrow> Inr (Inl (ListFilesFailed err), w)
             | Inr files \<Rightarrow>
                 if length files = 0 then Inr (Inl ErrNoFilesFound, w)
                 else
                   (case GetCompressionConfig compressionLevel of
                      Inl err \<Rightarrow> Inr (Inl (ConfigCreateFailed err), w)
                    | Inr config \<Rightarrow>
                        (case ValidateConfig config of
                           Some err \<Rightarrow> Inr (Inl (ConfigValidationFailed err), w)
                         | None \<Rightarrow>
                             (case compress_each F P outputDir config files
                                     \<lparr>DirTotalFiles = int (length files), SuccessCount = 0,
                                      FailedCount = 0, Results = [], Errors = []\<rparr> w of
                                Inl pn \<Rightarrow> Inl pn
                              | Inr (result, w1) \<Rightarrow> Inr (Inr result, w1))))))"

subsection \<open>The file inventory: \<open>FileSystemRepository.ListPDFFiles\<close>\<close>

text \<open>
  What \<open>filepath.WalkDir\<close> finds below its root: an entry that is not a directory, or a
  directory with the error and the entries that \<open>os.ReadDir\<close> returns for it (the entries
  read before the error, when there is one). The root itself is \<open>Inl err\<close> when \<open>os.Lstat\<close>
  fails on it. A string is compared as Go compares it, byte by byte.
\<close>

datatype dir_entry =
    FileEntry string
  | DirEntry string "error option" "dir_entry list"

fun Name :: "dir_entry \<Rightarrow> string" where
  "Name (FileEntry n) = n"
| "Name (DirEntry n _ _) = n"

fun IsDir :: "dir_entry \<Rightarrow> bool" where
  "IsDir (FileEntry _) = False"
| "IsDir (DirEntry _ _ _) = True"

text \<open>
  \<open>filepath.WalkDir\<close> and its \<open>walkDir\<close>, for a callback that threads a state: the values
  \<open>SkipDir\<close> and \<open>SkipAll\<close> returned by the callback steer the walk, any other error ends
  it. \<open>filepath.Join\<close> is a parameter.
\<close>

type_synonym 'a walk_fn =
  "path \<Rightarrow> dir_entry option \<Rightarrow> error option \<Rightarrow> 'a \<Rightarrow> error option \<times> 'a"

fun walkDir ::
      "(path \<Rightarrow> path \<Rightarrow> path) \<Rightarrow> 'a walk_fn \<Rightarrow> path \<Rightarrow> dir_entry \<Rightarrow> 'a \<Rightarrow> error option \<times> 'a"
  and walkDirEntries ::
      "(path \<Rightarrow> path \<Rightarrow> path) \<Rightarrow> 'a walk_fn \<Rightarrow> path \<Rightarrow> dir_entry list \<Rightarrow> 'a
         \<Rightarrow> error option \<times> 'a" where
  "walkDir join fn p (FileEntry n) acc = fn p (Some (FileEntry n)) None acc"
| "walkDir join fn p (DirEntry n readErr dirs) acc =
     (case fn p (Some (DirEntry n readErr dirs)) None acc of
        (Some err, acc1) \<Rightarrow> (if err = SkipDir then None else Some err, acc1)
      | (None, acc1) \<Rightarrow>
          (case readErr of
             None \<Rightarrow> walkDirEntries join fn p dirs acc1
           | Some rerr \<Rightarrow>
               (case fn p (Some (DirEntry n readErr dirs)) (Some rerr) acc1 of
                  (Some err, acc2) \<Rightarrow> (if err = SkipDir then None else Some err, acc2)
                | (None, acc2) \<Rightarrow> walkDirEntries join fn p dirs acc2)))"
| "walkDirEntries join fn p [] acc = (None, acc)"
| "walkDirEntries join fn p (d1 # ds) acc =
     (case walkDir join fn (join p (Name d1)) d1 acc of
        (Some err, acc1) \<Rightarrow> (if err = SkipDir then None else Some err, acc1)
      | (None, acc1) \<Rightarrow> walkDirEntries join fn p ds acc1)"

definition WalkDir ::
  "(path \<Rightarrow> path \<Rightarrow> path) \<Rightarrow> 'a walk_fn \<Rightarrow> path \<Rightarrow> error + dir_entry \<Rightarrow> 'a
     \<Rightarrow> error option \<times> 'a" where
  "WalkDir join fn rootPath info acc =
     (let (err, acc1) =
            (case info of
               Inl lerr \<Rightarrow> fn rootPath None (Some lerr) acc
             | Inr d \<Rightarrow> walkDir join fn rootPath d acc)
      in (if err = Some SkipDir \<or> err = Some SkipAll then None else err, acc1))"

text \<open>
  \<open>filepath.Ext\<close>: the suffix from the last dot of the last element of the path; the scan
  goes backwards and stops at a separator, which is the slash (\<open>os.IsPathSeparator\<close> on
  Unix).
\<close>

fun ext_scan :: "string \<Rightarrow> string \<Rightarrow> string" where
  "ext_scan [] suffix = []"
| "ext_scan (c # before) suffix =
     (if c = CHR ''/'' then []
      else if c = CHR ''.'' then c # suffix
      else ext_scan before (c # suffix))"

definition Ext :: "string \<Rightarrow> string" where
  "Ext p = ext_scan (rev p) []"

text \<open>
  \<open>strings.EqualFold\<close>, on the ASCII letters: the second argument in the source is
  \<open>".pdf"\<close>, whose characters fold with no character outside ASCII.
\<close>

definition ascii_lower :: "char \<Rightarrow> char" where
  "ascii_lower c =
     (if CHR ''A'' \<le> c \<and> c \<le> CHR ''Z'' then char_of (of_char c + (32 :: nat)) else c)"

definition EqualFold :: "string \<Rightarrow> string \<Rightarrow> bool" where
  "EqualFold s t = (map ascii_lower s = map ascii_lower t)"

text \<open>The callback of \<open>ListPDFFiles\<close>; \<open>WalkDir\<close> passes no entry only together with an error.\<close>

definition visit :: "path list walk_fn" where
  "visit p d err pdfFiles =
     (if err \<noteq> None then (None, pdfFiles)
      else
        case d of
          None \<Rightarrow> (None, pdfFiles)
        | Some e \<Rightarrow>
            if IsDir e then (None, pdfFiles)
            else if EqualFold (Ext (Name e)) ''.pdf'' then (None, pdfFiles @ [p])
            else (None, pdfFiles))"

definition ListPDFFiles ::
  "(path \<Rightarrow> path \<Rightarrow> path) \<Rightarrow> error + dir_entry \<Rightarrow> path \<Rightarrow> error + path list" where
  "ListPDFFiles join info directory =
     (case WalkDir join visit directory info [] of
        (Some err, _) \<Rightarrow> Inl err
      | (None, pdfFiles) \<Rightarrow> Inr (sort pdfFiles))"

text \<open>
  For the statement of what the inventory finds: the entries of a tree that are no
  directories, each with its path.
\<close>

fun file_entries :: "(path \<Rightarrow> path \<Rightarrow> path) \<Rightarrow> path \<Rightarrow> dir_entry \<Rightarrow> (path \<times> string) list" where
  "file_entries join p (FileEntry n) = [(p, n)]"
| "file_entries join p (DirEntry n readErr dirs) =
     concat (map (\<lambda>d. file_entries join (join p (Name d)) d) dirs)"

text \<open>
  A name matches when it ends in a dot followed by the letters p, d, f, in either case.
\<close>

definition has_pdf_suffix :: "string \<Rightarrow> bool" where
  "has_pdf_suffix n =
     (4 \<le> length n \<and> map ascii_lower (drop (length n - 4) n) = ''.pdf'')"

subsection \<open>Notions used in the statements\<close>

text \<open>
  The ratio \<open>(original - compressed) / original * 100\<close> of two byte totals, with the
  operations of the source, and the test \<open>result.Success && result.Error == nil\<close>.
\<close>

definition ratio_of_totals :: "'f float64_ops \<Rightarrow> int64 \<Rightarrow> int64 \<Rightarrow> 'f" where
  "ratio_of_totals F original compressed =
     f_mul F
       (f_div F (f_sub F (float64_of_int64 F original) (float64_of_int64 F compressed))
                (float64_of_int64 F original))
       (f_of_int F 100)"

definition succeeded :: "'f CompressionResult \<Rightarrow> bool" where
  "succeeded r = (Success r \<and> Error r = None)"

text \<open>
  The attempts of the retry loop, one by one: \<open>after_attempts j w\<close> is the world in which
  attempt \<open>j\<close> (counted from zero) starts when every attempt before it was followed by the
  pause, and \<open>attempt_outcome j w\<close> is what the call of \<open>Compress\<close> in attempt \<open>j\<close> returns
  and the world it leaves. \<open>attempt_events n\<close> is the trace of \<open>n\<close> attempts with a pause
  between two of them.
\<close>

fun after_attempts ::
  "'f ports \<Rightarrow> path \<Rightarrow> path \<Rightarrow> CompressionConfig \<Rightarrow> nat \<Rightarrow> world \<Rightarrow> world" where
  "after_attempts P inputFile outputFile cfg 0 w = w"
| "after_attempts P inputFile outputFile cfg (Suc j) w =
     after_attempts P inputFile outputFile cfg j
       (time_Sleep (time_Second * 2) (snd (call_Compress P inputFile outputFile cfg w)))"

definition attempt_outcome ::
  "'f ports \<Rightarrow> path \<Rightarrow> path \<Rightarrow> CompressionConfig \<Rightarrow> nat \<Rightarrow> world
     \<Rightarrow> ('f CompressionResult option \<times> error option) \<times> world" where
  "attempt_outcome P inputFile outputFile cfg j w =
     call_Compress P inputFile outputFile cfg (after_attempts P inputFile outputFile cfg j w)"

definition attempt_error ::
  "'f ports \<Rightarrow> path \<Rightarrow> path \<Rightarrow> CompressionConfig \<Rightarrow> nat \<Rightarrow> world \<Rightarrow> error option" where
  "attempt_error P inputFile outputFile cfg j w =
     snd (fst (attempt_outcome P inputFile outputFile cfg j w))"

fun attempt_events :: "path \<Rightarrow> path \<Rightarrow> nat \<Rightarrow> event list" where
  "attempt_events inputFile outputFile 0 = []"
| "attempt_events inputFile outputFile (Suc 0) = [EvCompress inputFile outputFile]"
| "attempt_events inputFile outputFile (Suc (Suc n)) =
     EvCompress inputFile outputFile # EvSleep (time_Second * 2)
       # attempt_events inputFile outputFile (Suc n)"

text \<open>
  The average of a status is the ratio of its two totals, whenever the total of the original
  sizes is positive (the guard under which \<open>AddResult\<close> recomputes it).
\<close>

definition average_from_totals :: "'f float64_ops \<Rightarrow> 'f ProcessingStatus \<Rightarrow> bool" where
  "average_from_totals F st =
     (0 <s TotalOriginalSize st \<longrightarrow>
        AverageCompression st
          = ratio_of_totals F (TotalOriginalSize st) (TotalCompressedSize st))"

text \<open>
  What holds of the file system at each point of the replacement of an original with
  content \<open>c\<close> by a temporary file with content \<open>t\<close>.
\<close>

definition replace_inv ::
  "path \<Rightarrow> path \<Rightarrow> fsys \<Rightarrow> string \<Rightarrow> string \<Rightarrow> replace_pc \<times> fsys \<Rightarrow> bool" where
  "replace_inv originalFile tempFile fs0 c t cfg =
     (let fs = snd cfg; backupFile = backup_path originalFile
      in case fst cfg of
           AtCheck \<Rightarrow> fs = fs0
         | AtBackup \<Rightarrow> fs = fs0
         | AtSwap \<Rightarrow>
             fs originalFile = None \<and> fs backupFile = Some c \<and> fs tempFile = Some t
         | AtRollback e \<Rightarrow> fs originalFile = None \<and> fs backupFile = Some c
         | AtCleanup \<Rightarrow> fs originalFile = Some t \<and> fs backupFile = Some c
         | Returned None \<Rightarrow> fs originalFile = Some t
         | Returned (Some err) \<Rightarrow>
             (case err of
                SwapFailed e \<Rightarrow>
                  fs originalFile = Some c \<or>
                  (fs originalFile = None \<and> fs backupFile = Some c)
              | _ \<Rightarrow> fs = fs0))"

text \<open>
  The entries that the walk of the inventory passes: none when the root cannot be read.
  An entry is one of the files sought when the extension of its name is \<open>.pdf\<close> in any case.
\<close>

definition inventory_entries ::
  "(path \<Rightarrow> path \<Rightarrow> path) \<Rightarrow> error + dir_entry \<Rightarrow> path \<Rightarrow> (path \<times> string) list" where
  "inventory_entries join info directory =
     (case info of Inl _ \<Rightarrow> [] | Inr d \<Rightarrow> file_entries join directory d)"

definition pdf_entry :: "path \<times> string \<Rightarrow> bool" where
  "pdf_entry e = EqualFold (Ext (snd e)) ''.pdf''"

text \<open>
  The counters of a status agree: every processed file is counted as a success or as a
  failure, and no more files are processed than the run has. A compressor is well behaved
  when it returns a result whenever it returns no error.
\<close>

definition counts_consistent :: "'f ProcessingStatus \<Rightarrow> bool" where
  "counts_consistent st =
     (ProcessedFiles st = SuccessfulFiles st + FailedFiles st \<and>
      ProcessedFiles st \<le> TotalFiles st)"

definition returns_result :: "'f ports \<Rightarrow> bool" where
  "returns_result P =
     (\<forall>k inputPath outputPath cfg fs.
        snd (fst (compressor_Compress P k inputPath outputPath cfg fs)) = None \<longrightarrow>
        fst (fst (compressor_Compress P k inputPath outputPath cfg fs)) \<noteq> None)"

subsection \<open>Concrete inputs\<close>

text \<open>
  Five results: 1000 to 500 bytes, 2000 to 1800, 500 to 500, 300 to 400, and a failure.
\<close>

definition scenario :: "rat CompressionResult list" where
  "scenario =
     [(zero_result exact_ops)\<lparr>CurrentFile := ''a.pdf'', OriginalSize := 1000,
         CompressedSize := 500, CompressionRatio := 50, SavedSpace := 500, Success := True\<rparr>,
      (zero_result exact_ops)\<lparr>CurrentFile := ''b.pdf'', OriginalSize := 2000,
         CompressedSize := 1800, CompressionRatio := 10, SavedSpace := 200, Success := True\<rparr>,
      (zero_result exact_ops)\<lparr>CurrentFile := ''c.pdf'', OriginalSize := 500,
         CompressedSize := 500, CompressionRatio := 0, SavedSpace := 0, Success := True\<rparr>,
      (zero_result exact_ops)\<lparr>CurrentFile := ''d.pdf'', OriginalSize := 300,
         CompressedSize := 400, CompressionRatio := - (100 / 3), SavedSpace := - 100,
         Success := True\<rparr>,
      (zero_result exact_ops)\<lparr>CurrentFile := ''e.pdf'', OriginalSize := 1000,
         Error := Some (CompressorError ''empty output'')\<rparr>]"

text \<open>
  A file system with an original and its compressed temporary file, the file system after
  the first step of the replacement, and faults of the system calls: on the rename to the
  backup, on the rename of the temporary file, on every rename to the original (the swap
  and the rollback), on the removal of the backup.
\<close>

definition fs_ab :: fsys where
  "fs_ab = [''a.pdf'' \<mapsto> ''OLD'', ''a.pdf.tmp'' \<mapsto> ''NEW'']"

definition fs_ab_moved :: fsys where
  "fs_ab_moved = snd (os_Rename no_faults ''a.pdf'' (backup_path ''a.pdf'') fs_ab)"

definition faults_backup :: os_faults where
  "faults_backup =
     \<lparr>rename_fails = (\<lambda>src dst. dst = ''a.pdf.backup''), remove_fails = (\<lambda>_. False),
      stat_fails = (\<lambda>_. False)\<rparr>"

definition faults_swap :: os_faults where
  "faults_swap =
     \<lparr>rename_fails = (\<lambda>src dst. src = ''a.pdf.tmp''), remove_fails = (\<lambda>_. False),
      stat_fails = (\<lambda>_. False)\<rparr>"

definition faults_swap_rollback :: os_faults where
  "faults_swap_rollback =
     \<lparr>rename_fails = (\<lambda>src dst. dst = ''a.pdf''), remove_fails = (\<lambda>_. False),
      stat_fails = (\<lambda>_. False)\<rparr>"

definition faults_cleanup :: os_faults where
  "faults_cleanup =
     \<lparr>rename_fails = (\<lambda>_ _. False), remove_fails = (\<lambda>_. True),
      stat_fails = (\<lambda>_. False)\<rparr>"

definition faults_stat :: os_faults where
  "faults_stat =
     \<lparr>rename_fails = (\<lambda>_ _. False), remove_fails = (\<lambda>_. False),
      stat_fails = (\<lambda>p. p = ''b.pdf.tmp'')\<rparr>"

text \<open>
  Ports for running the model: a file repository that finds the given files, each of 1000
  bytes, and a compressor given as a parameter. Three compressors: one that fails at every
  call, with an error that tells the calls apart; one that writes the output and reports
  500 bytes; one that fails at its first call only.
\<close>

definition test_ports ::
  "(nat \<Rightarrow> path \<Rightarrow> path \<Rightarrow> CompressionConfig \<Rightarrow> fsys
      \<Rightarrow> (rat CompressionResult option \<times> error option) \<times> fsys)
     \<Rightarrow> path list \<Rightarrow> rat ports" where
  "test_ports compress files =
     \<lparr>fileRepo_FileExists = (\<lambda>_. True),
      fileRepo_CreateDirectory = (\<lambda>_. None),
      fileRepo_ListPDFFiles = (\<lambda>_. Inr files),
      fileRepo_GetFileInfo = (\<lambda>p. Inr \<lparr>Path = p, Size = 1000, ModifiedTime = 0, Pages = 0\<rparr>),
      compressor_Compress = compress,
      filepath_Rel = (\<lambda>b t. Inr (drop (Suc (length b)) t)),
      filepath_Join = (\<lambda>a b. a @ ''/'' @ b),
      filepath_Dir = (\<lambda>p. p),
      filepath_Base = (\<lambda>p. p),
      os_MkdirAll = (\<lambda>_. None),
      os_fault = no_faults,
      time_Since = (\<lambda>_. 0)\<rparr>"

definition failing_compress ::
  "nat \<Rightarrow> path \<Rightarrow> path \<Rightarrow> CompressionConfig \<Rightarrow> fsys
     \<Rightarrow> (rat CompressionResult option \<times> error option) \<times> fsys" where
  "failing_compress k inputPath outputPath cfg fs =
     ((None, Some (CompressorError (replicate (Suc k) CHR ''!''))), fs)"

definition halving_compress ::
  "nat \<Rightarrow> path \<Rightarrow> path \<Rightarrow> CompressionConfig \<Rightarrow> fsys
     \<Rightarrow> (rat CompressionResult option \<times> error option) \<times> fsys" where
  "halving_compress k inputPath outputPath cfg fs =
     ((Some ((zero_result exact_ops)\<lparr>OriginalSize := 1000, CompressedSize := 500,
               CompressionRatio := 50, SavedSpace := 500, Success := True\<rparr>), None),
      fs(outputPath \<mapsto> ''NEW''))"

definition flaky_compress ::
  "nat \<Rightarrow> path \<Rightarrow> path \<Rightarrow> CompressionConfig \<Rightarrow> fsys
     \<Rightarrow> (rat CompressionResult option \<times> error option) \<times> fsys" where
  "flaky_compress k inputPath outputPath cfg fs =
     (if k = 0 then failing_compress k inputPath outputPath cfg fs
      else halving_compress k inputPath outputPath cfg fs)"

definition test_config :: "bool \<Rightarrow> int \<Rightarrow> int \<Rightarrow> Config" where
  "test_config replace workers retries =
     \<lparr>Scanner = \<lparr>SourceDirectory = ''in'', TargetDirectory = ''out'',
                  ReplaceOriginal = replace\<rparr>,
      Compression = \<lparr>AppLevel = 50, Algorithm = ''pdfcpu'', AutoStart = False,
                      AppUniPDFLicenseKey = [], EnableJPEG = False, EnablePNG = False,
                      JPEGQuality = 30, PNGQuality = 25\<rparr>,
      Processing = \<lparr>ParallelWorkers = workers, TimeoutSeconds = 30,
                     RetryAttempts = retries\<rparr>\<rparr>"

definition world0 :: "fsys \<Rightarrow> world" where
  "world0 fs = \<lparr>w_fs = fs, w_events = []\<rparr>"

text \<open>
  A directory as \<open>os.ReadDir\<close> lists it, by name: a file in mixed case, a subdirectory
  with a PDF file in upper case, a PDF file, a subdirectory that cannot be read, and a file
  with another extension. The walk passes \<open>docs/a/z.PDF\<close> before \<open>docs/a.pdf\<close>.
\<close>

definition join_slash :: "path \<Rightarrow> path \<Rightarrow> path" where
  "join_slash a b = a @ ''/'' @ b"

definition docs_tree :: dir_entry where
  "docs_tree =
     DirEntry ''docs'' None
       [FileEntry ''Report.Pdf'',
        DirEntry ''a'' None [FileEntry ''notes.txt'', FileEntry ''z.PDF''],
        FileEntry ''a.pdf'',
        DirEntry ''locked'' (Some (OsError ''permission denied'')) [],
        FileEntry ''x.pdf.bak'']"

text \<open>
  Results for \<open>CalculateCompressionRatio\<close>: the case \<open>File got bigger\<close> of the tests of the
  repository; a result whose derived fields a compressor has filled (1000 bytes compressed
  to 500) and whose \<open>OriginalSize\<close> has then been set to 0; a result with a negative
  compressed size; and a file of \<open>2\<^sup>5\<^sup>3\<close> bytes that has grown by one byte.
\<close>

definition grown_result :: "rat CompressionResult" where
  "grown_result = (zero_result binary64_ops)\<lparr>OriginalSize := 1000, CompressedSize := 1100\<rparr>"

definition stale_result :: "rat CompressionResult" where
  "stale_result =
     (zero_result binary64_ops)\<lparr>OriginalSize := 0, CompressedSize := 500,
        CompressionRatio := 50, SavedSpace := 500, Success := True\<rparr>"

definition wrapped_result :: "rat CompressionResult" where
  "wrapped_result =
     (zero_result binary64_ops)\<lparr>OriginalSize := 9223372036854775807, CompressedSize := - 1\<rparr>"

definition huge_result :: "rat CompressionResult" where
  "huge_result =
     (zero_result binary64_ops)\<lparr>OriginalSize := 9007199254740992,
        CompressedSize := 9007199254740993\<rparr>"

section \<open>Properties\<close>

subsection \<open>Arithmetic of \<open>int64\<close>\<close>

lemma sint_sub_sizes:
  fixes a b :: int64
  assumes "0 <s a" and "0 \<le>s b"
  shows "sint (a - b) = sint a - sint b"
proof -
  have "sint a < 2 ^ 63" and "sint b < 2 ^ 63"
    using sint_lt [of a] sint_lt [of b] by simp_all
  moreover have "0 < sint a" and "0 \<le> sint b"
    using assms by (simp_all add: word_sless_alt word_sle_eq)
  ultimately have "- (2 ^ 63) \<le> sint a - sint b" and "sint a - sint b < 2 ^ 63"
    by simp_all
  then show ?thesis
    by (simp add: sint_word_ariths signed_take_bit_int_eq_self)
qed

subsection \<open>Arithmetic of \<open>float64\<close>\<close>

lemma pow2_power_int: "pow2 e = power_int 2 e"
  by (simp add: pow2_def power_int_def field_simps)

lemma pow2_pos [simp]: "0 < pow2 e"
  by (simp add: pow2_def)

lemma pow2_nonzero [simp]: "pow2 e \<noteq> 0"
  by (simp add: pow2_def)

lemma pow2_add: "pow2 (a + b) = pow2 a * pow2 b"
  by (simp add: pow2_power_int power_int_add)

lemma divide_pow2: "x / pow2 a = x * pow2 (- a)"
proof -
  have "pow2 (- a) * pow2 a = 1"
    using pow2_add [of "- a" a] by (simp add: pow2_def)
  then have "x * pow2 (- a) * pow2 a = x"
    by (simp only: mult.assoc mult_1_right)
  then show ?thesis
    by (simp add: divide_eq_eq)
qed

lemma pow2_mono: "a \<le> b \<Longrightarrow> pow2 a \<le> pow2 b"
  by (simp add: pow2_power_int power_int_increasing)

lemma pow2_nat: "0 \<le> e \<Longrightarrow> pow2 e = 2 ^ nat e"
  by (simp add: pow2_def)

lemma exponent_bounds:
  assumes "x \<noteq> 0"
  shows "pow2 (exponent x) \<le> \<bar>x\<bar>" and "\<bar>x\<bar> < pow2 (exponent x + 1)"
proof -
  obtain p q where pq: "quotient_of \<bar>x\<bar> = (p, q)"
    by (cases "quotient_of \<bar>x\<bar>")
  have q: "0 < q"
    using quotient_of_denom_pos [OF pq] .
  have x: "\<bar>x\<bar> = of_int p / of_int q"
    using quotient_of_div [OF pq] .
  have "0 < \<bar>x\<bar>"
    using assms by simp
  then have p: "0 < p"
    using x q by (simp add: zero_less_divide_iff)
  let ?e = "bitlen p - bitlen q"
  have bp: "(2::rat) ^ nat (bitlen p - 1) \<le> of_int p" "of_int p < (2::rat) ^ nat (bitlen p)"
    using bitlen_bounds [OF p]
    by (metis of_int_le_iff of_int_numeral of_int_power, metis of_int_less_iff of_int_numeral of_int_power)
  have bq: "(2::rat) ^ nat (bitlen q - 1) \<le> of_int q" "of_int q < (2::rat) ^ nat (bitlen q)"
    using bitlen_bounds [OF q]
    by (metis of_int_le_iff of_int_numeral of_int_power, metis of_int_less_iff of_int_numeral of_int_power)
  have lp: "0 < bitlen p"
  proof (rule ccontr)
    assume "\<not> 0 < bitlen p"
    then have "nat (bitlen p) = 0" by simp
    then show False using bitlen_bounds [OF p] p by simp
  qed
  have lq: "0 < bitlen q"
  proof (rule ccontr)
    assume "\<not> 0 < bitlen q"
    then have "nat (bitlen q) = 0" by simp
    then show False using bitlen_bounds [OF q] q by simp
  qed
  have bp': "pow2 (bitlen p - 1) \<le> of_int p" "of_int p < pow2 (bitlen p)"
    using bp lp by (simp_all add: pow2_nat)
  have bq': "pow2 (bitlen q - 1) \<le> of_int q" "of_int q < pow2 (bitlen q)"
    using bq lq by (simp_all add: pow2_nat)
  have lower: "pow2 (?e - 1) \<le> \<bar>x\<bar>"
  proof -
    have "pow2 (?e - 1) * of_int q \<le> pow2 (?e - 1) * pow2 (bitlen q)"
      using bq'(2) by (simp add: mult_left_mono)
    also have "\<dots> = pow2 (bitlen p - 1)"
      by (simp add: pow2_add [symmetric])
    also have "\<dots> \<le> of_int p"
      using bp'(1) .
    finally show ?thesis
      using q by (simp add: x pos_le_divide_eq)
  qed
  have upper: "\<bar>x\<bar> < pow2 (?e + 1)"
  proof -
    have "of_int p < pow2 (bitlen p)"
      using bp'(2) .
    also have "\<dots> = pow2 (?e + 1) * pow2 (bitlen q - 1)"
      by (simp add: pow2_add [symmetric])
    also have "\<dots> \<le> pow2 (?e + 1) * of_int q"
      using bq'(1) by (simp add: mult_left_mono)
    finally show ?thesis
      using q by (simp add: x pos_divide_less_eq)
  qed
  show "pow2 (exponent x) \<le> \<bar>x\<bar>"
    using lower by (simp add: exponent_def pq Let_def)
  show "\<bar>x\<bar> < pow2 (exponent x + 1)"
    using upper by (simp add: exponent_def pq Let_def)
qed

lemma round_half_even_of_int [simp]: "round_half_even (of_int k) = k"
  by (simp add: round_half_even_def)

lemma round_half_even_pos: "1 \<le> x \<Longrightarrow> 0 < round_half_even x"
proof -
  assume "1 \<le> x"
  then have "1 \<le> \<lfloor>x\<rfloor>" by linarith
  then show ?thesis
    by (auto simp add: round_half_even_def Let_def)
qed

lemma round_binary64_sgn: "sgn (round_binary64 x) = sgn x"
proof (cases "x = 0")
  case True
  then show ?thesis by (simp add: round_binary64_def)
next
  case False
  let ?ulp = "pow2 (exponent x - 52)"
  have "pow2 52 * ?ulp \<le> \<bar>x\<bar>"
    using exponent_bounds(1) [OF False] by (simp add: pow2_add [symmetric])
  then have "pow2 52 \<le> \<bar>x\<bar> / ?ulp"
    by (simp add: pos_le_divide_eq)
  moreover have "(1::rat) \<le> pow2 52"
    by (simp add: pow2_def)
  ultimately have "1 \<le> \<bar>x\<bar> / ?ulp"
    by (rule order_trans [rotated])
  then have "0 < round_half_even (\<bar>x\<bar> / ?ulp)"
    by (rule round_half_even_pos)
  then show ?thesis
    using False by (simp add: round_binary64_def Let_def sgn_mult)
qed

lemma round_binary64_neg_iff: "round_binary64 x < 0 \<longleftrightarrow> x < 0"
  using round_binary64_sgn [of x] by (metis sgn_less)

lemma round_binary64_pos_iff: "0 < round_binary64 x \<longleftrightarrow> 0 < x"
  using round_binary64_sgn [of x] by (metis sgn_greater)

lemma round_binary64_zero_iff: "round_binary64 x = 0 \<longleftrightarrow> x = 0"
  using round_binary64_sgn [of x] by (metis sgn_eq_0_iff)

lemma round_binary64_of_int:
  assumes "\<bar>n\<bar> \<le> 2 ^ 53"
  shows "round_binary64 (of_int n) = of_int n"
proof (cases "n = 0")
  case True
  then show ?thesis by (simp add: round_binary64_def)
next
  case False
  let ?x = "of_int n :: rat"
  let ?e = "exponent ?x"
  have nz: "?x \<noteq> 0" using False by simp
  have "pow2 ?e \<le> \<bar>?x\<bar>"
    using exponent_bounds(1) [OF nz] .
  also have "\<dots> \<le> pow2 53"
  proof -
    have "of_int \<bar>n\<bar> \<le> (of_int (2 ^ 53) :: rat)"
      using assms by (subst of_int_le_iff)
    then show ?thesis by (simp add: pow2_def)
  qed
  finally have le53: "pow2 ?e \<le> pow2 53" .
  have e: "?e \<le> 53"
  proof (rule ccontr)
    assume "\<not> ?e \<le> 53"
    then have "pow2 54 \<le> pow2 ?e"
      by (intro pow2_mono) simp
    moreover have "pow2 53 < pow2 54"
      by (simp add: pow2_def)
    ultimately show False using le53 by simp
  qed
  let ?ulp = "pow2 (?e - 52)"
  have sx: "sgn ?x * \<bar>?x\<bar> = ?x"
    by (simp add: sgn_mult_abs)
  show ?thesis
  proof (cases "?e \<le> 52")
    case True
    define k where "k = nat (52 - ?e)"
    have "\<bar>?x\<bar> / ?ulp = \<bar>?x\<bar> * pow2 (52 - ?e)"
      by (simp add: divide_pow2)
    also have "\<dots> = of_int (\<bar>n\<bar> * 2 ^ k)"
      using True by (simp add: pow2_def k_def)
    finally have m: "\<bar>?x\<bar> / ?ulp = of_int (\<bar>n\<bar> * 2 ^ k)" .
    have "round_binary64 ?x = sgn ?x * of_int (\<bar>n\<bar> * 2 ^ k) * ?ulp"
      using nz by (simp only: round_binary64_def Let_def m round_half_even_of_int if_False)
    also have "\<dots> = sgn ?x * (\<bar>?x\<bar> / ?ulp) * ?ulp"
      by (simp only: m)
    also have "\<dots> = ?x"
      using sx by simp
    finally show ?thesis .
  next
    case False
    then have e53: "?e = 53" using e by simp
    have "pow2 53 \<le> \<bar>?x\<bar>"
      using exponent_bounds(1) [OF nz] e53 by simp
    then have "\<bar>?x\<bar> = pow2 53"
      using \<open>\<bar>?x\<bar> \<le> pow2 53\<close> by simp
    then have ax: "\<bar>?x\<bar> = of_int (2 ^ 53)"
      by (simp add: pow2_def)
    have ulp: "?ulp = 2"
      by (simp add: e53 pow2_def)
    have m: "\<bar>?x\<bar> / ?ulp = of_int (2 ^ 52)"
      by (simp only: ax ulp) simp
    have "round_binary64 ?x = sgn ?x * of_int (2 ^ 52) * ?ulp"
      using nz by (simp only: round_binary64_def Let_def m round_half_even_of_int if_False)
    also have "\<dots> = sgn ?x * (\<bar>?x\<bar> / ?ulp) * ?ulp"
      by (simp only: m)
    also have "\<dots> = ?x"
      using sx by simp
    finally show ?thesis .
  qed
qed


lemma binary64_of_size:
  fixes a :: int64
  assumes "\<bar>sint a\<bar> \<le> 2 ^ 53"
  shows "float64_of_int64 binary64_ops a = of_int (sint a)"
  using round_binary64_of_int [OF assms] by (simp add: float64_of_int64_def binary64_ops_def)

lemma binary64_sub_sizes:
  fixes a b :: int64
  assumes "0 <s a" and "a \<le>s 2 ^ 53" and "0 \<le>s b" and "b \<le>s 2 ^ 53"
  shows "f_sub binary64_ops (float64_of_int64 binary64_ops a) (float64_of_int64 binary64_ops b)
           = float64_of_int64 binary64_ops (a - b)"
    and "float64_of_int64 binary64_ops (a - b) = of_int (sint a) - of_int (sint b)"
    and "float64_of_int64 binary64_ops a = of_int (sint a)"
proof -
  have a: "0 < sint a" "sint a \<le> 2 ^ 53" and b: "0 \<le> sint b" "sint b \<le> 2 ^ 53"
    using assms by (simp_all add: word_sless_alt word_sle_eq)
  have d: "sint (a - b) = sint a - sint b"
    using sint_sub_sizes [OF assms(1,3)] .
  have fa: "float64_of_int64 binary64_ops a = of_int (sint a)"
    using a by (intro binary64_of_size) simp
  have fb: "float64_of_int64 binary64_ops b = of_int (sint b)"
    using b by (intro binary64_of_size) simp
  have fd: "float64_of_int64 binary64_ops (a - b) = of_int (sint a - sint b)"
    using a b binary64_of_size [of "a - b"] by (simp add: d)
  have "round_binary64 (of_int (sint a - sint b)) = of_int (sint a - sint b)"
    using a b by (intro round_binary64_of_int) simp
  then have "round_binary64 (of_int (sint a) - of_int (sint b)) = of_int (sint a - sint b)"
    by (simp only: of_int_diff)
  moreover have "f_sub binary64_ops x y = round_binary64 (x - y)" for x y
    by (simp add: binary64_ops_def)
  ultimately show "f_sub binary64_ops (float64_of_int64 binary64_ops a)
               (float64_of_int64 binary64_ops b) = float64_of_int64 binary64_ops (a - b)"
    by (simp only: fa fb fd)
  show "float64_of_int64 binary64_ops (a - b) = of_int (sint a) - of_int (sint b)"
    using fd by (simp only: of_int_diff)
  show "float64_of_int64 binary64_ops a = of_int (sint a)"
    using fa .
qed

lemma binary64_ratio_sign:
  assumes "0 < d"
  shows "f_mul binary64_ops (f_div binary64_ops n d) (f_of_int binary64_ops 100) < 0
           \<longleftrightarrow> n < 0"
    and "f_mul binary64_ops (f_div binary64_ops n d) (f_of_int binary64_ops 100) = 0
           \<longleftrightarrow> n = 0"
proof -
  have h: "0 < round_binary64 100"
    by (simp add: round_binary64_pos_iff)
  show "f_mul binary64_ops (f_div binary64_ops n d) (f_of_int binary64_ops 100) < 0
           \<longleftrightarrow> n < 0"
    using assms h
    by (simp add: binary64_ops_def round_binary64_neg_iff mult_less_0_iff divide_less_0_iff
          round_binary64_pos_iff)
  show "f_mul binary64_ops (f_div binary64_ops n d) (f_of_int binary64_ops 100) = 0
           \<longleftrightarrow> n = 0"
    using assms h
    by (simp add: binary64_ops_def round_binary64_zero_iff)
qed

subsection \<open>The derived fields of a result\<close>

text \<open>
  Claim C8, as amended. For a result with \<open>OriginalSize > 0\<close>, \<open>CalculateCompressionRatio\<close>
  leaves the two sizes as they are and sets \<open>SavedSpace = OriginalSize - CompressedSize\<close>, so
  that \<open>CompressedSize = OriginalSize - SavedSpace\<close> (in \<open>int64\<close> arithmetic, whatever the
  values), and it sets the ratio to \<open>(float64(OriginalSize) - float64(CompressedSize)) /
  float64(OriginalSize) * 100\<close>; with a compressed size that is not negative the subtraction
  of the sizes does not wrap, and \<open>SavedSpace\<close> is negative exactly when the compressed size is
  the larger. When \<open>OriginalSize\<close> is zero or negative the result is left as it is: the ratio
  and \<open>SavedSpace\<close> keep their values, which are zero for a result built by a composite
  literal that does not name them. In the arithmetic of \<open>float64\<close>, for sizes of files (not
  negative) up to \<open>2\<^sup>5\<^sup>3\<close> bytes, the ratio is \<open>float64(SavedSpace) / float64(OriginalSize) *
  100\<close>, that is the quotient of the two integers rounded, times 100, rounded; nothing is
  clamped: the ratio is negative exactly when the compressed size is the larger, and zero
  exactly when the sizes are equal.
\<close>

theorem CalculateCompressionRatio_derived:
  "(let cr' = CalculateCompressionRatio F cr;
        fo = float64_of_int64 F
    in (0 <s OriginalSize cr \<longrightarrow>
          OriginalSize cr' = OriginalSize cr \<and> CompressedSize cr' = CompressedSize cr \<and>
          SavedSpace cr' = OriginalSize cr - CompressedSize cr \<and>
          CompressedSize cr' = OriginalSize cr' - SavedSpace cr' \<and>
          CompressionRatio cr' =
            f_mul F (f_div F (f_sub F (fo (OriginalSize cr)) (fo (CompressedSize cr)))
                             (fo (OriginalSize cr))) (f_of_int F 100) \<and>
          (0 \<le>s CompressedSize cr \<longrightarrow>
             sint (SavedSpace cr') = sint (OriginalSize cr) - sint (CompressedSize cr) \<and>
             (OriginalSize cr <s CompressedSize cr \<longleftrightarrow> SavedSpace cr' <s 0))) \<and>
       (\<not> 0 <s OriginalSize cr \<longrightarrow>
          cr' = cr \<and> CompressionRatio cr' = CompressionRatio cr \<and>
          SavedSpace cr' = SavedSpace cr)) \<and>
   (let fresh = (zero_result F)\<lparr>CurrentFile := fname, OriginalSize := osize,
                   CompressedSize := csize, Success := ok, Error := err\<rparr>;
        fresh' = CalculateCompressionRatio F fresh
    in \<not> 0 <s osize \<longrightarrow> CompressionRatio fresh' = f_of_int F 0 \<and> SavedSpace fresh' = 0) \<and>
   (let B = binary64_ops;
        fb = float64_of_int64 B;
        crb' = CalculateCompressionRatio B crb
    in 0 <s OriginalSize crb \<and> OriginalSize crb \<le>s 2 ^ 53 \<and>
       0 \<le>s CompressedSize crb \<and> CompressedSize crb \<le>s 2 ^ 53 \<longrightarrow>
         CompressionRatio crb' =
           f_mul B (f_div B (fb (SavedSpace crb')) (fb (OriginalSize crb'))) (f_of_int B 100) \<and>
         CompressionRatio crb' =
           round_binary64
             (round_binary64 (of_int (sint (SavedSpace crb')) / of_int (sint (OriginalSize crb')))
              * 100) \<and>
         (CompressionRatio crb' < 0 \<longleftrightarrow> OriginalSize crb <s CompressedSize crb) \<and>
         (CompressionRatio crb' = 0 \<longleftrightarrow> CompressedSize crb = OriginalSize crb))"
proof -
  have ints: "sint (a - b) = sint a - sint b \<and> (a <s b \<longleftrightarrow> a - b <s 0)"
    if "0 <s a" and "0 \<le>s b" for a b :: int64
    using sint_sub_sizes [OF that] by (simp add: word_sless_alt)
  have first: "(let cr' = CalculateCompressionRatio F cr;
        fo = float64_of_int64 F
    in (0 <s OriginalSize cr \<longrightarrow>
          OriginalSize cr' = OriginalSize cr \<and> CompressedSize cr' = CompressedSize cr \<and>
          SavedSpace cr' = OriginalSize cr - CompressedSize cr \<and>
          CompressedSize cr' = OriginalSize cr' - SavedSpace cr' \<and>
          CompressionRatio cr' =
            f_mul F (f_div F (f_sub F (fo (OriginalSize cr)) (fo (CompressedSize cr)))
                             (fo (OriginalSize cr))) (f_of_int F 100) \<and>
          (0 \<le>s CompressedSize cr \<longrightarrow>
             sint (SavedSpace cr') = sint (OriginalSize cr) - sint (CompressedSize cr) \<and>
             (OriginalSize cr <s CompressedSize cr \<longleftrightarrow> SavedSpace cr' <s 0))) \<and>
       (\<not> 0 <s OriginalSize cr \<longrightarrow>
          cr' = cr \<and> CompressionRatio cr' = CompressionRatio cr \<and>
          SavedSpace cr' = SavedSpace cr))"
    using ints [of "OriginalSize cr" "CompressedSize cr"]
    by (simp add: CalculateCompressionRatio_def Let_def)
  have second: "(let fresh = (zero_result F)\<lparr>CurrentFile := fname, OriginalSize := osize,
                   CompressedSize := csize, Success := ok, Error := err\<rparr>;
        fresh' = CalculateCompressionRatio F fresh
    in \<not> 0 <s osize \<longrightarrow> CompressionRatio fresh' = f_of_int F 0 \<and> SavedSpace fresh' = 0)"
    by (simp add: CalculateCompressionRatio_def Let_def zero_result_def)
  have third: "CompressionRatio (CalculateCompressionRatio binary64_ops crb) =
           f_mul binary64_ops
             (f_div binary64_ops
                (float64_of_int64 binary64_ops
                   (SavedSpace (CalculateCompressionRatio binary64_ops crb)))
                (float64_of_int64 binary64_ops
                   (OriginalSize (CalculateCompressionRatio binary64_ops crb))))
             (f_of_int binary64_ops 100) \<and>
         CompressionRatio (CalculateCompressionRatio binary64_ops crb) =
           round_binary64
             (round_binary64
                (of_int (sint (SavedSpace (CalculateCompressionRatio binary64_ops crb)))
                 / of_int (sint (OriginalSize (CalculateCompressionRatio binary64_ops crb))))
              * 100) \<and>
         (CompressionRatio (CalculateCompressionRatio binary64_ops crb) < 0
            \<longleftrightarrow> OriginalSize crb <s CompressedSize crb) \<and>
         (CompressionRatio (CalculateCompressionRatio binary64_ops crb) = 0
            \<longleftrightarrow> CompressedSize crb = OriginalSize crb)"
    if h: "0 <s OriginalSize crb" "OriginalSize crb \<le>s 2 ^ 53"
      "0 \<le>s CompressedSize crb" "CompressedSize crb \<le>s 2 ^ 53"
  proof -
    let ?O = "OriginalSize crb" and ?C = "CompressedSize crb"
    let ?fb = "float64_of_int64 binary64_ops"
    let ?cr' = "CalculateCompressionRatio binary64_ops crb"
    note sub = binary64_sub_sizes [OF h]
    have saved: "SavedSpace ?cr' = ?O - ?C" and orig: "OriginalSize ?cr' = ?O"
      using h(1) by (simp_all add: CalculateCompressionRatio_def)
    have ratio: "CompressionRatio ?cr' =
        f_mul binary64_ops (f_div binary64_ops (?fb (?O - ?C)) (?fb ?O))
          (f_of_int binary64_ops 100)"
      using h(1) sub(1) by (simp add: CalculateCompressionRatio_def)
    have hundred: "f_of_int binary64_ops 100 = 100"
      using round_binary64_of_int [of 100] by (simp add: binary64_ops_def)
    have so: "0 < sint ?O"
      using h(1) by (simp add: word_sless_alt)
    have pos: "0 < ?fb ?O"
      using so by (simp only: sub(3) of_int_0_less_iff)
    have df: "?fb (?O - ?C) = of_int (sint ?O - sint ?C)"
      by (simp only: sub(2) of_int_diff)
    have neg: "?fb (?O - ?C) < 0 \<longleftrightarrow> ?O <s ?C"
      by (simp only: df of_int_less_0_iff word_sless_alt) simp
    have "?fb (?O - ?C) = 0 \<longleftrightarrow> sint ?C = sint ?O"
      by (simp only: df of_int_eq_0_iff) auto
    then have zero: "?fb (?O - ?C) = 0 \<longleftrightarrow> ?C = ?O"
      by (auto intro: signed_word_eqI)
    have mul: "f_mul binary64_ops x y = round_binary64 (x * y)"
      and dv: "f_div binary64_ops x y = round_binary64 (x / y)" for x y
      by (simp_all add: binary64_ops_def)
    have r2: "CompressionRatio ?cr' =
        round_binary64 (round_binary64 (of_int (sint (?O - ?C)) / of_int (sint ?O)) * 100)"
      by (simp only: ratio hundred mul dv df sub(3) sint_sub_sizes [OF h(1,3)])
    show ?thesis
      using ratio r2 binary64_ratio_sign [OF pos, of "?fb (?O - ?C)"] neg zero
      by (simp only: saved orig simp_thms)
  qed
  show ?thesis
    using first second third by (simp only: Let_def simp_thms) blast
qed


theorem CalculateCompressionRatio_derived_witness:
  "0 <s OriginalSize grown_result \<and> OriginalSize grown_result \<le>s 2 ^ 53 \<and>
   0 \<le>s CompressedSize grown_result \<and> CompressedSize grown_result \<le>s 2 ^ 53 \<and>
   OriginalSize grown_result <s CompressedSize grown_result \<and>
   SavedSpace (CalculateCompressionRatio binary64_ops grown_result) = - 100 \<and>
   CompressedSize (CalculateCompressionRatio binary64_ops grown_result)
     = OriginalSize (CalculateCompressionRatio binary64_ops grown_result)
       - SavedSpace (CalculateCompressionRatio binary64_ops grown_result) \<and>
   CompressionRatio (CalculateCompressionRatio binary64_ops grown_result) = - 10 \<and>
   CompressionRatio (CalculateCompressionRatio binary64_ops grown_result) < 0 \<and>
   \<not> 0 <s OriginalSize stale_result \<and>
   CalculateCompressionRatio binary64_ops stale_result = stale_result \<and>
   \<not> 0 <s (0 :: int64) \<and>
   CompressionRatio
     (CalculateCompressionRatio binary64_ops
        ((zero_result binary64_ops)\<lparr>CurrentFile := ''a.pdf'', OriginalSize := 0,
           CompressedSize := 500, Success := True, Error := None\<rparr>)) = 0 \<and>
   SavedSpace
     (CalculateCompressionRatio binary64_ops
        ((zero_result binary64_ops)\<lparr>CurrentFile := ''a.pdf'', OriginalSize := 0,
           CompressedSize := 500, Success := True, Error := None\<rparr>)) = 0"
proof -
  have sizes: "OriginalSize grown_result = 1000" "CompressedSize grown_result = 1100"
    "OriginalSize stale_result = 0"
    by (simp_all add: grown_result_def stale_result_def zero_result_def)
  have h: "0 <s OriginalSize grown_result" "OriginalSize grown_result \<le>s 2 ^ 53"
    "0 \<le>s CompressedSize grown_result" "CompressedSize grown_result \<le>s 2 ^ 53"
    "OriginalSize grown_result <s CompressedSize grown_result"
    "\<not> 0 <s OriginalSize stale_result" "\<not> 0 <s (0 :: int64)"
    by (simp_all add: sizes word_sless_alt word_sle_eq)
  have value_of: "round_binary64 (round_binary64 (- 100 / 1000) * 100) = - 10"
    by code_simp
  have zero: "f_of_int binary64_ops 0 = 0"
    by (simp add: binary64_ops_def round_binary64_def)
  note inst = CalculateCompressionRatio_derived
      [where F = binary64_ops and cr = grown_result and fname = "''a.pdf''" and osize = 0
         and csize = 500 and ok = True and err = None and crb = grown_result,
       unfolded Let_def]
  note stale = CalculateCompressionRatio_derived
      [where F = binary64_ops and cr = stale_result and fname = "''a.pdf''" and osize = 0
         and csize = 500 and ok = True and err = None and crb = grown_result,
       unfolded Let_def, THEN conjunct1, THEN conjunct2, THEN mp, OF h(6)]
  note first = inst [THEN conjunct1, THEN conjunct1, THEN mp, OF h(1)]
  note fresh = inst [THEN conjunct2, THEN conjunct1, THEN mp, OF h(7)]
  have pre: "0 <s OriginalSize grown_result \<and> OriginalSize grown_result \<le>s 2 ^ 53 \<and>
       0 \<le>s CompressedSize grown_result \<and> CompressedSize grown_result \<le>s 2 ^ 53"
    using h by simp
  note third = inst [THEN conjunct2, THEN conjunct2, THEN mp, OF pre]
  have saved: "SavedSpace (CalculateCompressionRatio binary64_ops grown_result) = - 100"
    using first by (simp add: sizes)
  have orig: "OriginalSize (CalculateCompressionRatio binary64_ops grown_result) = 1000"
    using first by (simp add: sizes)
  have ratio: "CompressionRatio (CalculateCompressionRatio binary64_ops grown_result) = - 10"
    using third value_of by (simp add: saved orig)
  have neg: "CompressionRatio (CalculateCompressionRatio binary64_ops grown_result) < 0"
    using third h(5) by blast
  have sizes': "CompressedSize (CalculateCompressionRatio binary64_ops grown_result)
     = OriginalSize (CalculateCompressionRatio binary64_ops grown_result)
       - SavedSpace (CalculateCompressionRatio binary64_ops grown_result)"
    using first by blast
  have unchanged: "CalculateCompressionRatio binary64_ops stale_result = stale_result"
    using stale by blast
  have f1: "CompressionRatio
     (CalculateCompressionRatio binary64_ops
        ((zero_result binary64_ops)\<lparr>CurrentFile := ''a.pdf'', OriginalSize := 0,
           CompressedSize := 500, Success := True, Error := None\<rparr>)) = 0"
    using fresh zero by simp
  have f2: "SavedSpace
     (CalculateCompressionRatio binary64_ops
        ((zero_result binary64_ops)\<lparr>CurrentFile := ''a.pdf'', OriginalSize := 0,
           CompressedSize := 500, Success := True, Error := None\<rparr>)) = 0"
    using fresh by blast
  show ?thesis
    by (intro conjI) fact+
qed

text \<open>
  The claim as stated fails. With an \<open>OriginalSize\<close> of zero the two derived fields keep the
  values they had, which need not be zero. With a positive \<open>OriginalSize\<close> the ratio is not
  always the one computed from \<open>SavedSpace\<close>: for a negative compressed size the subtraction
  of \<open>int64\<close> wraps and the ratio is 100 where \<open>SavedSpace\<close> gives -100; for sizes above
  \<open>2\<^sup>5\<^sup>3\<close> the conversions round, and a file that has grown by one byte has a negative
  \<open>SavedSpace\<close> and the ratio zero.
\<close>

theorem CalculateCompressionRatio_counterexample:
  "\<not> 0 <s OriginalSize stale_result \<and>
   CompressionRatio (CalculateCompressionRatio binary64_ops stale_result) = 50 \<and>
   SavedSpace (CalculateCompressionRatio binary64_ops stale_result) = 500 \<and>
   0 <s OriginalSize wrapped_result \<and>
   CompressionRatio (CalculateCompressionRatio binary64_ops wrapped_result) = 100 \<and>
   sint (SavedSpace (CalculateCompressionRatio binary64_ops wrapped_result))
     = - 9223372036854775808 \<and>
   f_mul binary64_ops
     (f_div binary64_ops
        (float64_of_int64 binary64_ops
           (SavedSpace (CalculateCompressionRatio binary64_ops wrapped_result)))
        (float64_of_int64 binary64_ops
           (OriginalSize (CalculateCompressionRatio binary64_ops wrapped_result))))
     (f_of_int binary64_ops 100) = - 100 \<and>
   0 <s OriginalSize huge_result \<and> 0 \<le>s CompressedSize huge_result \<and>
   OriginalSize huge_result <s CompressedSize huge_result \<and>
   SavedSpace (CalculateCompressionRatio binary64_ops huge_result) = - 1 \<and>
   CompressionRatio (CalculateCompressionRatio binary64_ops huge_result) = 0 \<and>
   f_mul binary64_ops
     (f_div binary64_ops
        (float64_of_int64 binary64_ops
           (SavedSpace (CalculateCompressionRatio binary64_ops huge_result)))
        (float64_of_int64 binary64_ops
           (OriginalSize (CalculateCompressionRatio binary64_ops huge_result))))
     (f_of_int binary64_ops 100) < 0"
proof -
  have stale: "\<not> 0 <s OriginalSize stale_result"
    "CompressionRatio (CalculateCompressionRatio binary64_ops stale_result) = 50"
    "SavedSpace (CalculateCompressionRatio binary64_ops stale_result) = 500"
    by (simp_all add: CalculateCompressionRatio_def stale_result_def zero_result_def
          word_sless_alt)
  have w0: "0 <s OriginalSize wrapped_result"
    and w1: "sint (OriginalSize wrapped_result) = 9223372036854775807"
    and w2: "sint (CompressedSize wrapped_result) = - 1"
    and w3: "sint (OriginalSize wrapped_result - CompressedSize wrapped_result)
              = - 9223372036854775808"
    by (simp_all add: wrapped_result_def zero_result_def word_sless_alt)
  have wv: "round_binary64
              (round_binary64
                 (round_binary64 (round_binary64 9223372036854775807 - round_binary64 (- 1))
                  / round_binary64 9223372036854775807) * round_binary64 100) = 100"
    by code_simp
  have wc: "round_binary64
              (round_binary64
                 (round_binary64 (- 9223372036854775808) / round_binary64 9223372036854775807)
               * round_binary64 100) = - 100"
    by code_simp
  have wrapped:
    "CompressionRatio (CalculateCompressionRatio binary64_ops wrapped_result) = 100"
    "sint (SavedSpace (CalculateCompressionRatio binary64_ops wrapped_result))
       = - 9223372036854775808"
    "f_mul binary64_ops
       (f_div binary64_ops
          (float64_of_int64 binary64_ops
             (SavedSpace (CalculateCompressionRatio binary64_ops wrapped_result)))
          (float64_of_int64 binary64_ops
             (OriginalSize (CalculateCompressionRatio binary64_ops wrapped_result))))
       (f_of_int binary64_ops 100) = - 100"
    using w0 wv wc
    by (simp_all add: CalculateCompressionRatio_def float64_of_int64_def binary64_ops_def
          w1 w2 w3 del: of_int_sint)
  have h0: "0 <s OriginalSize huge_result" "0 \<le>s CompressedSize huge_result"
    "OriginalSize huge_result <s CompressedSize huge_result"
    and h1: "sint (OriginalSize huge_result) = 9007199254740992"
    and h2: "sint (CompressedSize huge_result) = 9007199254740993"
    and h3: "OriginalSize huge_result - CompressedSize huge_result = - 1"
    by (simp_all add: huge_result_def zero_result_def word_sless_alt word_sle_eq)
  have hv: "round_binary64
              (round_binary64
                 (round_binary64 (round_binary64 9007199254740992 - round_binary64 9007199254740993)
                  / round_binary64 9007199254740992) * round_binary64 100) = 0"
    by code_simp
  have hc: "round_binary64
              (round_binary64 (round_binary64 (- 1) / round_binary64 9007199254740992)
               * round_binary64 100) < 0"
    by (simp add: round_binary64_neg_iff mult_less_0_iff divide_less_0_iff
          round_binary64_pos_iff)
  have huge:
    "SavedSpace (CalculateCompressionRatio binary64_ops huge_result) = - 1"
    "CompressionRatio (CalculateCompressionRatio binary64_ops huge_result) = 0"
    "f_mul binary64_ops
       (f_div binary64_ops
          (float64_of_int64 binary64_ops
             (SavedSpace (CalculateCompressionRatio binary64_ops huge_result)))
          (float64_of_int64 binary64_ops
             (OriginalSize (CalculateCompressionRatio binary64_ops huge_result))))
       (f_of_int binary64_ops 100) < 0"
    using h0(1) hv hc
    by (simp_all add: CalculateCompressionRatio_def float64_of_int64_def binary64_ops_def
          h1 h2 h3 del: of_int_sint)
  show ?thesis
    using stale w0 wrapped h0 huge by (simp only: simp_thms)
qed


subsection \<open>The progress aggregator\<close>

lemma AddResult_success:
  assumes "succeeded r"
  shows "TotalOriginalSize (AddResult F since r ps) = TotalOriginalSize ps + OriginalSize r"
    and "TotalCompressedSize (AddResult F since r ps) = TotalCompressedSize ps + CompressedSize r"
    and "TotalSavedSpace (AddResult F since r ps) = TotalSavedSpace ps + SavedSpace r"
    and "SuccessfulFiles (AddResult F since r ps) = SuccessfulFiles ps + 1"
    and "FailedFiles (AddResult F since r ps) = FailedFiles ps"
    and "AverageCompression (AddResult F since r ps) =
           (if 0 <s TotalOriginalSize ps + OriginalSize r
            then ratio_of_totals F (TotalOriginalSize ps + OriginalSize r)
                   (TotalCompressedSize ps + CompressedSize r)
            else AverageCompression ps)"
  using assms
  by (simp_all add: AddResult_def UpdateProgress_def Let_def ratio_of_totals_def succeeded_def)

lemma AddResult_failure:
  assumes "\<not> succeeded r"
  shows "TotalOriginalSize (AddResult F since r ps) = TotalOriginalSize ps"
    and "TotalCompressedSize (AddResult F since r ps) = TotalCompressedSize ps"
    and "TotalSavedSpace (AddResult F since r ps) = TotalSavedSpace ps"
    and "SuccessfulFiles (AddResult F since r ps) = SuccessfulFiles ps"
    and "FailedFiles (AddResult F since r ps) = FailedFiles ps + 1"
    and "AverageCompression (AddResult F since r ps) = AverageCompression ps"
  using assms
  by (auto simp add: AddResult_def UpdateProgress_def Let_def succeeded_def)

lemma AddResult_common:
  shows "ProcessedFiles (AddResult F since r ps) = ProcessedFiles ps + 1"
    and "TotalFiles (AddResult F since r ps) = TotalFiles ps"
    and "Phase (AddResult F since r ps) = Phase ps"
    and "LastResult (AddResult F since r ps) = Some r"
  by (simp_all add: AddResult_def UpdateProgress_def Let_def)

lemma AddResult_ignores_ratio:
  "AverageCompression (AddResult F since (r\<lparr>CompressionRatio := q\<rparr>) ps)
     = AverageCompression (AddResult F since r ps)"
  by (simp add: AddResult_def UpdateProgress_def Let_def)

text \<open>
  Claim C10. \<open>AddResult\<close> counts a result as successful exactly when its \<open>Success\<close> flag is
  set and its \<open>Error\<close> is nil. A result with the flag set and an error counts as failed, and
  adds nothing to the byte totals or to the average.
\<close>

theorem AddResult_success_needs_nil_error:
  "(let ps' = AddResult F since r ps
    in (SuccessfulFiles ps' = SuccessfulFiles ps + 1 \<longleftrightarrow> Success r \<and> Error r = None) \<and>
       (FailedFiles ps' = FailedFiles ps + 1 \<longleftrightarrow> \<not> (Success r \<and> Error r = None)) \<and>
       (Success r \<and> Error r \<noteq> None \<longrightarrow>
          FailedFiles ps' = FailedFiles ps + 1 \<and>
          SuccessfulFiles ps' = SuccessfulFiles ps \<and>
          TotalOriginalSize ps' = TotalOriginalSize ps \<and>
          TotalCompressedSize ps' = TotalCompressedSize ps \<and>
          TotalSavedSpace ps' = TotalSavedSpace ps \<and>
          AverageCompression ps' = AverageCompression ps))"
proof (cases "succeeded r")
  case True
  then show ?thesis
    using AddResult_success [OF True, of F since ps]
    by (simp add: Let_def succeeded_def)
next
  case False
  then show ?thesis
    using AddResult_failure [OF False, of F since ps]
    by (simp add: Let_def succeeded_def)
qed

theorem AddResult_success_needs_nil_error_witness:
  "(let r = (zero_result exact_ops)\<lparr>CurrentFile := ''a.pdf'', OriginalSize := 1000,
               CompressedSize := 500, SavedSpace := 500, Success := True,
               Error := Some (CompressorError ''late failure'')\<rparr>;
        ps = NewProcessingStatus exact_ops 1;
        ps' = AddResult exact_ops 5 r ps
    in Success r \<and> Error r \<noteq> None \<and>
       FailedFiles ps' = 1 \<and> SuccessfulFiles ps' = 0 \<and> TotalOriginalSize ps' = 0 \<and>
       TotalCompressedSize ps' = 0 \<and> TotalSavedSpace ps' = 0 \<and> AverageCompression ps' = 0)"
  using AddResult_success_needs_nil_error
          [of exact_ops 5
              "(zero_result exact_ops)\<lparr>CurrentFile := ''a.pdf'', OriginalSize := 1000,
                 CompressedSize := 500, SavedSpace := 500, Success := True,
                 Error := Some (CompressorError ''late failure'')\<rparr>"
              "NewProcessingStatus exact_ops 1"]
  by (simp add: Let_def zero_result_def NewProcessingStatus_def exact_ops_def)

lemma aggregate_totals:
  "TotalOriginalSize (fst (aggregate F clock k rs ps))
     = TotalOriginalSize ps + sum_list (map OriginalSize (filter succeeded rs)) \<and>
   TotalCompressedSize (fst (aggregate F clock k rs ps))
     = TotalCompressedSize ps + sum_list (map CompressedSize (filter succeeded rs))"
proof (induction rs arbitrary: k ps)
  case Nil
  then show ?case by simp
next
  case (Cons r rs)
  show ?case
  proof (cases "succeeded r")
    case True
    then show ?thesis
      using Cons [of "Suc k" "SetCurrentFile (CurrentFile r) (OriginalSize r) (AddResult F (clock k) r ps)"]
      by (simp add: Let_def split_beta SetCurrentFile_def AddResult_success add.assoc)
  next
    case False
    then show ?thesis
      using Cons [of "Suc k" "SetCurrentFile (CurrentFile r) (OriginalSize r) (AddResult F (clock k) r ps)"]
      by (simp add: Let_def split_beta SetCurrentFile_def AddResult_failure)
  qed
qed


lemma aggregate_invariant:
  assumes "I ps"
    and "\<And>since r st. I st \<Longrightarrow>
           I (SetCurrentFile (CurrentFile r) (OriginalSize r) (AddResult F since r st))"
  shows "I (fst (aggregate F clock k rs ps)) \<and>
         (\<forall>st \<in> set (snd (aggregate F clock k rs ps)). I st)"
  using assms(1)
proof (induction rs arbitrary: k ps)
  case Nil
  then show ?case by simp
next
  case (Cons r rs)
  have "I (SetCurrentFile (CurrentFile r) (OriginalSize r) (AddResult F (clock k) r ps))"
    using Cons.prems assms(2) by blast
  from Cons.IH [OF this, of "Suc k"] this show ?case
    by (simp add: Let_def split_beta)
qed

lemma average_from_totals_step:
  assumes "average_from_totals F st"
  shows "average_from_totals F
           (SetCurrentFile (CurrentFile r) (OriginalSize r) (AddResult F since r st))"
proof (cases "succeeded r")
  case True
  then show ?thesis
    by (simp add: average_from_totals_def SetCurrentFile_def AddResult_success)
next
  case False
  then show ?thesis
    using assms
    by (simp add: average_from_totals_def SetCurrentFile_def AddResult_failure)
qed

lemma average_from_totals_new: "average_from_totals F (NewProcessingStatus F n)"
  by (simp add: average_from_totals_def NewProcessingStatus_def word_sless_alt)

text \<open>
  Claim C7. For a successful result \<open>AddResult\<close> adds the two sizes of the result to the
  totals and, the total of the original sizes being positive, sets the average to the ratio
  of the two new totals; with a total that is not positive the average is left as it is. A
  failed result changes no total and not the average. The ratio stored in the result plays
  no part. Over a whole sequence of results, from a new status: the totals are the sums over
  the successful results, and the average is the ratio of the totals at every report.
\<close>

theorem AddResult_totals_and_average:
  "(let ps' = AddResult F since r ps
    in (succeeded r \<longrightarrow>
          TotalOriginalSize ps' = TotalOriginalSize ps + OriginalSize r \<and>
          TotalCompressedSize ps' = TotalCompressedSize ps + CompressedSize r \<and>
          (0 <s TotalOriginalSize ps' \<longrightarrow>
             AverageCompression ps'
               = ratio_of_totals F (TotalOriginalSize ps') (TotalCompressedSize ps')) \<and>
          (\<not> 0 <s TotalOriginalSize ps' \<longrightarrow> AverageCompression ps' = AverageCompression ps)) \<and>
       (\<not> succeeded r \<longrightarrow>
          TotalOriginalSize ps' = TotalOriginalSize ps \<and>
          TotalCompressedSize ps' = TotalCompressedSize ps \<and>
          TotalSavedSpace ps' = TotalSavedSpace ps \<and>
          AverageCompression ps' = AverageCompression ps) \<and>
       AverageCompression (AddResult F since (r\<lparr>CompressionRatio := q\<rparr>) ps)
         = AverageCompression ps') \<and>
   (let run = aggregate F clock k rs (NewProcessingStatus F n)
    in TotalOriginalSize (fst run) = sum_list (map OriginalSize (filter succeeded rs)) \<and>
       TotalCompressedSize (fst run) = sum_list (map CompressedSize (filter succeeded rs)) \<and>
       average_from_totals F (fst run) \<and>
       (\<forall>st \<in> set (snd run). average_from_totals F st))"
proof -
  have one: "succeeded r \<longrightarrow>
          TotalOriginalSize (AddResult F since r ps) = TotalOriginalSize ps + OriginalSize r \<and>
          TotalCompressedSize (AddResult F since r ps)
            = TotalCompressedSize ps + CompressedSize r \<and>
          (0 <s TotalOriginalSize (AddResult F since r ps) \<longrightarrow>
             AverageCompression (AddResult F since r ps)
               = ratio_of_totals F (TotalOriginalSize (AddResult F since r ps))
                   (TotalCompressedSize (AddResult F since r ps))) \<and>
          (\<not> 0 <s TotalOriginalSize (AddResult F since r ps) \<longrightarrow>
             AverageCompression (AddResult F since r ps) = AverageCompression ps)"
    by (simp add: AddResult_success)
  have two: "\<not> succeeded r \<longrightarrow>
          TotalOriginalSize (AddResult F since r ps) = TotalOriginalSize ps \<and>
          TotalCompressedSize (AddResult F since r ps) = TotalCompressedSize ps \<and>
          TotalSavedSpace (AddResult F since r ps) = TotalSavedSpace ps \<and>
          AverageCompression (AddResult F since r ps) = AverageCompression ps"
    by (simp add: AddResult_failure)
  have sums: "TotalOriginalSize (fst (aggregate F clock k rs (NewProcessingStatus F n)))
                = sum_list (map OriginalSize (filter succeeded rs))"
     "TotalCompressedSize (fst (aggregate F clock k rs (NewProcessingStatus F n)))
                = sum_list (map CompressedSize (filter succeeded rs))"
    using aggregate_totals [of F clock k rs "NewProcessingStatus F n"]
    by (simp_all add: NewProcessingStatus_def)
  have inv: "average_from_totals F (fst (aggregate F clock k rs (NewProcessingStatus F n))) \<and>
       (\<forall>st \<in> set (snd (aggregate F clock k rs (NewProcessingStatus F n))).
          average_from_totals F st)"
    by (rule aggregate_invariant [where I = "average_from_totals F"])
       (simp_all add: average_from_totals_new average_from_totals_step)
  show ?thesis
    unfolding Let_def
    using one two sums inv AddResult_ignores_ratio [where F = F and since = since and r = r and q = q and ps = ps] by blast
qed

lemma scenario_succeeded: "filter succeeded scenario = take 4 scenario"
  by (simp add: scenario_def succeeded_def zero_result_def)

theorem AddResult_totals_and_average_witness:
  "(let final = fst (aggregate exact_ops (\<lambda>_. 0) 0 scenario (NewProcessingStatus exact_ops 5))
    in TotalOriginalSize final = 3800 \<and> TotalCompressedSize final = 3200 \<and>
       0 <s TotalOriginalSize final \<and>
       AverageCompression final = ratio_of_totals exact_ops 3800 3200 \<and>
       AverageCompression final = 300 / 19 \<and>
       sum_list (map CompressionRatio (take 4 scenario)) / 4 = 20 / 3)"
  using AddResult_totals_and_average
          [where F = exact_ops and since = 0 and r = "hd scenario" and q = 0
             and ps = "NewProcessingStatus exact_ops 5" and clock = "\<lambda>_. 0" and k = 0
             and rs = scenario and n = 5]
  apply (simp add: Let_def scenario_succeeded average_from_totals_def)
  apply (simp add: scenario_def zero_result_def  ratio_of_totals_def exact_ops_def float64_of_int64_def word_sless_alt)
  done

subsection \<open>The replacement protocol\<close>

lemma backup_path_neq [simp]: "backup_path p \<noteq> p" "p \<noteq> backup_path p"
  by (simp_all add: backup_path_def)

lemma os_Rename_failed:
  "os_Rename flt src dst fs = (Some e, fs') \<Longrightarrow> fs' = fs"
  by (auto simp: os_Rename_def split: if_splits)

lemma os_Rename_done:
  "os_Rename flt src dst fs = (None, fs') \<Longrightarrow>
     fs src \<noteq> None \<and> fs' = (if src = dst then fs else fs(dst := fs src, src := None))"
  by (auto simp: os_Rename_def split: if_splits)

lemma os_Remove_cases:
  "os_Remove flt p fs = (r, fs') \<Longrightarrow> fs' = fs \<or> fs' = fs(p := None)"
  by (auto simp: os_Remove_def split: if_splits)

lemma os_IsNotExist_Stat:
  "os_IsNotExist (os_Stat flt p fs) \<longleftrightarrow> \<not> stat_fails flt p \<and> fs p = None"
  by (simp add: os_Stat_def)

lemma replace_inv_step:
  assumes "fs0 originalFile = Some c" and "fs0 tempFile = Some t"
    and "tempFile \<noteq> originalFile" and "tempFile \<noteq> backup_path originalFile"
    and "replace_inv originalFile tempFile fs0 c t cfg"
    and "replace_step flt originalFile tempFile cfg cfg'"
  shows "replace_inv originalFile tempFile fs0 c t cfg'"
  using assms(6) assms(1-5)
proof (cases rule: replace_step.cases)
  case (check_missing fs)
  then show ?thesis using assms by (simp add: replace_inv_def)
next
  case (check_present fs)
  then show ?thesis using assms by (simp add: replace_inv_def)
next
  case (backup_failed fs err fs')
  then show ?thesis using assms os_Rename_failed [of flt originalFile "backup_path originalFile" fs err fs']
    by (simp add: replace_inv_def)
next
  case (backup_done fs fs')
  then show ?thesis using assms os_Rename_done [of flt originalFile "backup_path originalFile" fs fs']
    by (simp add: replace_inv_def)
next
  case (swap_failed fs err fs')
  then show ?thesis using assms os_Rename_failed [of flt tempFile originalFile fs err fs']
    by (simp add: replace_inv_def)
next
  case (swap_done fs fs')
  then show ?thesis using assms os_Rename_done [of flt tempFile originalFile fs fs']
    by (simp add: replace_inv_def)
next
  case (rollback fs r fs' err)
  show ?thesis
  proof (cases r)
    case None
    then show ?thesis
      using rollback assms os_Rename_done [of flt "backup_path originalFile" originalFile fs fs']
      by (simp add: replace_inv_def)
  next
    case (Some e)
    then show ?thesis
      using rollback assms os_Rename_failed [of flt "backup_path originalFile" originalFile fs e fs']
      by (simp add: replace_inv_def)
  qed
next
  case (cleanup fs r fs')
  then show ?thesis using assms os_Remove_cases [of flt "backup_path originalFile" fs r fs']
    by (auto simp add: replace_inv_def)
qed

lemma replace_inv_reaches:
  assumes "fs0 originalFile = Some c" and "fs0 tempFile = Some t"
    and "tempFile \<noteq> originalFile" and "tempFile \<noteq> backup_path originalFile"
    and "replace_reaches flt originalFile tempFile fs0 cfg"
  shows "replace_inv originalFile tempFile fs0 c t cfg"
  using assms(5)
proof (induction rule: replace_reaches.induct)
  case reach_start
  then show ?case by (simp add: replace_inv_def)
next
  case (reach_step cfg cfg')
  then show ?case using replace_inv_step [OF assms(1-4)] by blast
qed


lemma replaceOriginalFile_reaches:
  "replace_reaches flt originalFile tempFile fs0
     (Returned (fst (replaceOriginalFile flt originalFile tempFile fs0)),
      snd (replaceOriginalFile flt originalFile tempFile fs0))"
proof (cases "os_IsNotExist (os_Stat flt tempFile fs0)")
  case True
  have "replace_step flt originalFile tempFile (AtCheck, fs0)
          (Returned (Some (TempFileMissing tempFile)), fs0)"
    using True by (rule check_missing)
  then show ?thesis
    using True reach_step [OF reach_start]
    by (simp add: replaceOriginalFile_def)
next
  case False
  note tmp = False
  have at_backup: "replace_reaches flt originalFile tempFile fs0 (AtBackup, fs0)"
    using reach_step [OF reach_start
        check_present [where flt = flt and fs = fs0 and tempFile = tempFile
          and originalFile = originalFile]]
      False by simp
  obtain r1 fs1 where s1: "os_Rename flt originalFile (backup_path originalFile) fs0 = (r1, fs1)"
    by (cases "os_Rename flt originalFile (backup_path originalFile) fs0")
  show ?thesis
  proof (cases r1)
    case (Some e1)
    then show ?thesis
      using tmp s1 reach_step [OF at_backup backup_failed [of flt originalFile fs0 e1 fs1 tempFile]]
      by (simp add: replaceOriginalFile_def Let_def)
  next
    case None
    then have at_swap: "replace_reaches flt originalFile tempFile fs0 (AtSwap, fs1)"
      using s1 reach_step [OF at_backup backup_done [of flt originalFile fs0 fs1 tempFile]]
      by simp
    obtain r2 fs2 where s2: "os_Rename flt tempFile originalFile fs1 = (r2, fs2)"
      by (cases "os_Rename flt tempFile originalFile fs1")
    show ?thesis
    proof (cases r2)
      case (Some e2)
      then have at_rb: "replace_reaches flt originalFile tempFile fs0 (AtRollback e2, fs2)"
        using s2 reach_step [OF at_swap swap_failed [of flt tempFile originalFile fs1 e2 fs2]]
        by simp
      obtain r3 fs3 where s3: "os_Rename flt (backup_path originalFile) originalFile fs2 = (r3, fs3)"
        by (cases "os_Rename flt (backup_path originalFile) originalFile fs2")
      have "replace_reaches flt originalFile tempFile fs0 (Returned (Some (SwapFailed e2)), fs3)"
        using reach_step [OF at_rb rollback [OF s3]] .
      then show ?thesis
        using tmp s1 None s2 Some s3
        by (simp add: replaceOriginalFile_def Let_def)
    next
      case None2: None
      then have at_cl: "replace_reaches flt originalFile tempFile fs0 (AtCleanup, fs2)"
        using s2 reach_step [OF at_swap swap_done [of flt tempFile originalFile fs1 fs2]]
        by simp
      obtain r3 fs3 where s3: "os_Remove flt (backup_path originalFile) fs2 = (r3, fs3)"
        by (cases "os_Remove flt (backup_path originalFile) fs2")
      have "replace_reaches flt originalFile tempFile fs0 (Returned None, fs3)"
        using reach_step [OF at_cl cleanup [OF s3]] .
      then show ?thesis
        using tmp s1 None s2 None2 s3
        by (simp add: replaceOriginalFile_def Let_def)
    qed
  qed
qed

text \<open>
  Claim C3. A call of \<open>replaceOriginalFile\<close> whose check of the temporary file finds it
  missing (\<open>os.IsNotExist\<close> of the error of \<open>os.Stat\<close>) returns an
  error before any step and changes nothing. Otherwise, and so whenever the temporary file is
  there: when the rename
  of the original to the backup fails, the call returns an error and the file system is
  unchanged; when the rename of the temporary file to the original fails, the backup is
  renamed back to the original and the call returns the error of the failed rename, whether
  the rename back succeeds or not (when it succeeds, the original path holds its content of
  before the call); when both renames succeed, the call returns no error, whatever the
  removal of the backup does.
\<close>

theorem replaceOriginalFile_protocol:
  "(fs tempFile \<noteq> None \<longrightarrow> \<not> os_IsNotExist (os_Stat flt tempFile fs)) \<and>
   (os_IsNotExist (os_Stat flt tempFile fs) \<longrightarrow>
      replaceOriginalFile flt originalFile tempFile fs = (Some (TempFileMissing tempFile), fs)) \<and>
   (\<not> os_IsNotExist (os_Stat flt tempFile fs) \<longrightarrow>
     (\<forall>e fs1. os_Rename flt originalFile (backup_path originalFile) fs = (Some e, fs1) \<longrightarrow>
        replaceOriginalFile flt originalFile tempFile fs = (Some (BackupFailed e), fs)) \<and>
     (\<forall>fs1 e fs2.
        os_Rename flt originalFile (backup_path originalFile) fs = (None, fs1) \<and>
        os_Rename flt tempFile originalFile fs1 = (Some e, fs2) \<longrightarrow>
          replaceOriginalFile flt originalFile tempFile fs
            = (Some (SwapFailed e),
               snd (os_Rename flt (backup_path originalFile) originalFile fs1)) \<and>
          (fst (os_Rename flt (backup_path originalFile) originalFile fs1) = None \<longrightarrow>
             snd (replaceOriginalFile flt originalFile tempFile fs) originalFile
               = fs originalFile)) \<and>
     (\<forall>fs1 fs2.
        os_Rename flt originalFile (backup_path originalFile) fs = (None, fs1) \<and>
        os_Rename flt tempFile originalFile fs1 = (None, fs2) \<longrightarrow>
          replaceOriginalFile flt originalFile tempFile fs
            = (None, snd (os_Remove flt (backup_path originalFile) fs2))))"
proof (cases "os_IsNotExist (os_Stat flt tempFile fs)")
  case True
  moreover have "fs tempFile = None"
    using True by (simp add: os_IsNotExist_Stat)
  ultimately show ?thesis
    by (simp add: replaceOriginalFile_def)
next
  case False
  note tmp = False
  let ?backup = "backup_path originalFile"
  have step1: "replaceOriginalFile flt originalFile tempFile fs = (Some (BackupFailed e), fs)"
    if "os_Rename flt originalFile ?backup fs = (Some e, fs1)" for e fs1
    using that tmp os_Rename_failed [OF that]
    by (simp add: replaceOriginalFile_def Let_def)
  have step2: "replaceOriginalFile flt originalFile tempFile fs
                 = (Some (SwapFailed e), snd (os_Rename flt ?backup originalFile fs1)) \<and>
               (fst (os_Rename flt ?backup originalFile fs1) = None \<longrightarrow>
                  snd (replaceOriginalFile flt originalFile tempFile fs) originalFile
                    = fs originalFile)"
    if a: "os_Rename flt originalFile ?backup fs = (None, fs1)"
      and b: "os_Rename flt tempFile originalFile fs1 = (Some e, fs2)" for fs1 e fs2
  proof -
    have same: "fs2 = fs1"
      using os_Rename_failed [OF b] .
    have ret: "replaceOriginalFile flt originalFile tempFile fs
                 = (Some (SwapFailed e), snd (os_Rename flt ?backup originalFile fs1))"
      using a b same tmp by (simp add: replaceOriginalFile_def Let_def split_beta)
    have "snd (os_Rename flt ?backup originalFile fs1) originalFile = fs originalFile"
      if ok: "fst (os_Rename flt ?backup originalFile fs1) = None"
    proof -
      have "os_Rename flt ?backup originalFile fs1
              = (None, snd (os_Rename flt ?backup originalFile fs1))"
        using ok by (metis prod.collapse)
      from os_Rename_done [OF this] os_Rename_done [OF a]
      show ?thesis by simp
    qed
    with ret show ?thesis by simp
  qed
  have step3: "replaceOriginalFile flt originalFile tempFile fs
                 = (None, snd (os_Remove flt ?backup fs2))"
    if "os_Rename flt originalFile ?backup fs = (None, fs1)"
      and "os_Rename flt tempFile originalFile fs1 = (None, fs2)" for fs1 fs2
    using that tmp by (simp add: replaceOriginalFile_def Let_def split_beta)
  have "fs tempFile \<noteq> None \<longrightarrow> \<not> os_IsNotExist (os_Stat flt tempFile fs)"
    by (simp add: os_IsNotExist_Stat)
  then show ?thesis
    using tmp step1 step2 step3 by blast
qed


theorem replaceOriginalFile_protocol_witness:
  "fs_ab ''b.pdf.tmp'' = None \<and>
   os_IsNotExist (os_Stat no_faults ''b.pdf.tmp'' fs_ab) \<and>
   replaceOriginalFile no_faults ''b.pdf'' ''b.pdf.tmp'' fs_ab
     = (Some (TempFileMissing ''b.pdf.tmp''), fs_ab) \<and>
   os_Stat faults_stat ''b.pdf.tmp'' fs_ab = Some (OsError ''stat b.pdf.tmp'') \<and>
   \<not> os_IsNotExist (os_Stat faults_stat ''b.pdf.tmp'' fs_ab) \<and>
   fst (replaceOriginalFile faults_stat ''a.pdf'' ''b.pdf.tmp'' fs_ab)
     = Some (SwapFailed (OsError ''rename b.pdf.tmp a.pdf'')) \<and>
   snd (replaceOriginalFile faults_stat ''a.pdf'' ''b.pdf.tmp'' fs_ab) ''a.pdf'' = Some ''OLD'' \<and>
   fs_ab ''a.pdf.tmp'' \<noteq> None \<and>
   \<not> os_IsNotExist (os_Stat faults_backup ''a.pdf.tmp'' fs_ab) \<and>
   os_Rename faults_backup ''a.pdf'' (backup_path ''a.pdf'') fs_ab
     = (Some (OsError ''rename a.pdf a.pdf.backup''), fs_ab) \<and>
   replaceOriginalFile faults_backup ''a.pdf'' ''a.pdf.tmp'' fs_ab
     = (Some (BackupFailed (OsError ''rename a.pdf a.pdf.backup'')), fs_ab) \<and>
   fst (os_Rename faults_swap ''a.pdf'' (backup_path ''a.pdf'') fs_ab) = None \<and>
   fst (os_Rename faults_swap ''a.pdf.tmp'' ''a.pdf''
          (snd (os_Rename faults_swap ''a.pdf'' (backup_path ''a.pdf'') fs_ab)))
     = Some (OsError ''rename a.pdf.tmp a.pdf'') \<and>
   fst (replaceOriginalFile faults_swap ''a.pdf'' ''a.pdf.tmp'' fs_ab)
     = Some (SwapFailed (OsError ''rename a.pdf.tmp a.pdf'')) \<and>
   snd (replaceOriginalFile faults_swap ''a.pdf'' ''a.pdf.tmp'' fs_ab) ''a.pdf'' = Some ''OLD'' \<and>
   fst (replaceOriginalFile faults_swap_rollback ''a.pdf'' ''a.pdf.tmp'' fs_ab)
     = Some (SwapFailed (OsError ''rename a.pdf.tmp a.pdf'')) \<and>
   fst (os_Remove faults_cleanup (backup_path ''a.pdf'')
          (snd (os_Rename faults_cleanup ''a.pdf.tmp'' ''a.pdf''
             (snd (os_Rename faults_cleanup ''a.pdf'' (backup_path ''a.pdf'') fs_ab)))))
     = Some (OsError ''remove a.pdf.backup'') \<and>
   fst (replaceOriginalFile faults_cleanup ''a.pdf'' ''a.pdf.tmp'' fs_ab) = None \<and>
   snd (replaceOriginalFile faults_cleanup ''a.pdf'' ''a.pdf.tmp'' fs_ab) ''a.pdf'' = Some ''NEW''"
  using replaceOriginalFile_protocol [of fs_ab "''b.pdf.tmp''" no_faults "''b.pdf''"]
        replaceOriginalFile_protocol [of fs_ab "''b.pdf.tmp''" faults_stat "''a.pdf''"]
        replaceOriginalFile_protocol [of fs_ab "''a.pdf.tmp''" faults_backup "''a.pdf''"]
        replaceOriginalFile_protocol [of fs_ab "''a.pdf.tmp''" faults_swap "''a.pdf''"]
        replaceOriginalFile_protocol [of fs_ab "''a.pdf.tmp''" faults_swap_rollback "''a.pdf''"]
        replaceOriginalFile_protocol [of fs_ab "''a.pdf.tmp''" faults_cleanup "''a.pdf''"]
  by (simp add: fs_ab_def no_faults_def faults_stat_def faults_backup_def faults_swap_def
        faults_swap_rollback_def faults_cleanup_def backup_path_def os_Rename_def os_Remove_def
        os_Stat_def)

text \<open>
  Claim C4, as amended. Let the original and the temporary file exist, with contents \<open>c\<close> and
  \<open>t\<close>, the temporary file being neither the original nor its backup. At every point of the
  protocol the original path holds \<open>c\<close> or \<open>t\<close>, or it is missing while the backup holds
  \<open>c\<close>; it is missing only between the first rename and the end of the second rename or of
  the rollback, and after a return with the error of the second rename. A return without
  error leaves \<open>t\<close> at the original path, a failed first rename leaves the file system as
  it was, and a failed second rename leaves \<open>c\<close> at the original path when the rename back
  is not refused.
\<close>

theorem replace_keeps_original_content:
  assumes "fs0 originalFile = Some c" and "fs0 tempFile = Some t"
    and "tempFile \<noteq> originalFile" and "tempFile \<noteq> backup_path originalFile"
  shows
    "(\<forall>pc fs. replace_reaches flt originalFile tempFile fs0 (pc, fs) \<longrightarrow>
        (fs originalFile = Some c \<or> fs originalFile = Some t \<or>
         (fs originalFile = None \<and> fs (backup_path originalFile) = Some c)) \<and>
        (fs originalFile = None \<longrightarrow>
           pc = AtSwap \<or> (\<exists>e. pc = AtRollback e) \<or>
           (\<exists>e. pc = Returned (Some (SwapFailed e)))) \<and>
        (pc = Returned None \<longrightarrow> fs originalFile = Some t)) \<and>
     (let r = replaceOriginalFile flt originalFile tempFile fs0
      in replace_reaches flt originalFile tempFile fs0 (Returned (fst r), snd r) \<and>
         (fst r = None \<longrightarrow> snd r originalFile = Some t) \<and>
         (\<forall>e. fst r = Some (BackupFailed e) \<longrightarrow> snd r = fs0) \<and>
         (\<forall>e. fst r = Some (SwapFailed e) \<and>
               \<not> rename_fails flt (backup_path originalFile) originalFile \<longrightarrow>
                 snd r originalFile = Some c))"
proof -
  have inv: "replace_inv originalFile tempFile fs0 c t (pc, fs)"
    if "replace_reaches flt originalFile tempFile fs0 (pc, fs)" for pc fs
    using replace_inv_reaches [OF assms that] .
  have points:
    "(fs originalFile = Some c \<or> fs originalFile = Some t \<or>
       (fs originalFile = None \<and> fs (backup_path originalFile) = Some c)) \<and>
     (fs originalFile = None \<longrightarrow>
        pc = AtSwap \<or> (\<exists>e. pc = AtRollback e) \<or>
        (\<exists>e. pc = Returned (Some (SwapFailed e)))) \<and>
     (pc = Returned None \<longrightarrow> fs originalFile = Some t)"
    if "replace_reaches flt originalFile tempFile fs0 (pc, fs)" for pc fs
    using inv [OF that] assms(1,2)
    by (auto simp add: replace_inv_def Let_def split: replace_pc.splits option.splits error.splits)
  let ?r = "replaceOriginalFile flt originalFile tempFile fs0"
  have reach: "replace_reaches flt originalFile tempFile fs0 (Returned (fst ?r), snd ?r)"
    by (rule replaceOriginalFile_reaches)
  have ok: "fst ?r = None \<longrightarrow> snd ?r originalFile = Some t"
    using points [OF reach] by simp
  have bf: "\<forall>e. fst ?r = Some (BackupFailed e) \<longrightarrow> snd ?r = fs0"
    using inv [OF reach] by (auto simp add: replace_inv_def Let_def)
  have sf: "\<forall>e. fst ?r = Some (SwapFailed e) \<and>
               \<not> rename_fails flt (backup_path originalFile) originalFile \<longrightarrow>
                 snd ?r originalFile = Some c"
    using assms
    by (auto simp add: replaceOriginalFile_def os_Rename_def os_Remove_def Let_def
          split: if_splits)
  show ?thesis
    unfolding Let_def using points reach ok bf sf by blast
qed

theorem replace_keeps_original_content_witness:
  "fs_ab ''a.pdf'' = Some ''OLD'' \<and> fs_ab ''a.pdf.tmp'' = Some ''NEW'' \<and>
   ''a.pdf.tmp'' \<noteq> ''a.pdf'' \<and> ''a.pdf.tmp'' \<noteq> backup_path ''a.pdf'' \<and>
   replace_reaches faults_swap ''a.pdf'' ''a.pdf.tmp'' fs_ab
     (Returned (fst (replaceOriginalFile faults_swap ''a.pdf'' ''a.pdf.tmp'' fs_ab)),
      snd (replaceOriginalFile faults_swap ''a.pdf'' ''a.pdf.tmp'' fs_ab)) \<and>
   fst (replaceOriginalFile faults_swap ''a.pdf'' ''a.pdf.tmp'' fs_ab)
     = Some (SwapFailed (OsError ''rename a.pdf.tmp a.pdf'')) \<and>
   \<not> rename_fails faults_swap (backup_path ''a.pdf'') ''a.pdf'' \<and>
   snd (replaceOriginalFile faults_swap ''a.pdf'' ''a.pdf.tmp'' fs_ab) ''a.pdf'' = Some ''OLD'' \<and>
   fst (replaceOriginalFile no_faults ''a.pdf'' ''a.pdf.tmp'' fs_ab) = None \<and>
   snd (replaceOriginalFile no_faults ''a.pdf'' ''a.pdf.tmp'' fs_ab) ''a.pdf'' = Some ''NEW''"
proof -
  have h: "fs_ab ''a.pdf'' = Some ''OLD''" "fs_ab ''a.pdf.tmp'' = Some ''NEW''"
    "''a.pdf.tmp'' \<noteq> ''a.pdf''" "''a.pdf.tmp'' \<noteq> backup_path ''a.pdf''"
    by (simp_all add: fs_ab_def backup_path_def)
  have e: "fst (replaceOriginalFile faults_swap ''a.pdf'' ''a.pdf.tmp'' fs_ab)
             = Some (SwapFailed (OsError ''rename a.pdf.tmp a.pdf''))"
    by (simp add: replaceOriginalFile_def os_Stat_def os_Rename_def faults_swap_def fs_ab_def
          backup_path_def)
  have n: "fst (replaceOriginalFile no_faults ''a.pdf'' ''a.pdf.tmp'' fs_ab) = None"
    by (simp add: replaceOriginalFile_def os_Stat_def os_Rename_def os_Remove_def no_faults_def
          fs_ab_def backup_path_def)
  have f: "\<not> rename_fails faults_swap (backup_path ''a.pdf'') ''a.pdf''"
    by (simp add: faults_swap_def backup_path_def)
  show ?thesis
    using replace_keeps_original_content [OF h, of faults_swap]
          replace_keeps_original_content [OF h, of no_faults] h e n f
    by (simp add: Let_def)
qed

text \<open>
  The claim as stated fails: after the first rename of a run without any fault the original
  path is missing, and a run in which the second rename and the rollback fail returns with
  the original path missing.
\<close>

theorem replace_original_missing_counterexample:
  "fs_ab ''a.pdf'' = Some ''OLD'' \<and> fs_ab ''a.pdf.tmp'' = Some ''NEW'' \<and>
   replace_reaches no_faults ''a.pdf'' ''a.pdf.tmp'' fs_ab (AtSwap, fs_ab_moved) \<and>
   fs_ab_moved ''a.pdf'' = None \<and>
   fst (replaceOriginalFile faults_swap_rollback ''a.pdf'' ''a.pdf.tmp'' fs_ab)
     = Some (SwapFailed (OsError ''rename a.pdf.tmp a.pdf'')) \<and>
   snd (replaceOriginalFile faults_swap_rollback ''a.pdf'' ''a.pdf.tmp'' fs_ab) ''a.pdf'' = None"
proof -
  have "replace_reaches no_faults ''a.pdf'' ''a.pdf.tmp'' fs_ab (AtBackup, fs_ab)"
    using reach_step [OF reach_start
        check_present [where flt = no_faults and fs = fs_ab and tempFile = "''a.pdf.tmp''"
          and originalFile = "''a.pdf''"]]
    by (simp add: fs_ab_def os_Stat_def no_faults_def)
  moreover have "os_Rename no_faults ''a.pdf'' (backup_path ''a.pdf'') fs_ab = (None, fs_ab_moved)"
    by (simp add: fs_ab_moved_def os_Rename_def no_faults_def fs_ab_def)
  ultimately have "replace_reaches no_faults ''a.pdf'' ''a.pdf.tmp'' fs_ab (AtSwap, fs_ab_moved)"
    using reach_step backup_done by blast
  moreover have "fs_ab_moved ''a.pdf'' = None"
    by (simp add: fs_ab_moved_def os_Rename_def no_faults_def fs_ab_def backup_path_def)
  ultimately show ?thesis
    by (simp add: replaceOriginalFile_def os_Stat_def os_Rename_def faults_swap_rollback_def
          fs_ab_def backup_path_def)
qed

subsection \<open>The retry loop of the worker\<close>

lemma retry_loop_done:
  "\<not> attempt < n \<Longrightarrow> retry_loop P n inputFile outputFile cfg attempt re w = (re, w)"
  by (subst retry_loop.simps) simp

lemma retry_loop_step:
  "attempt < n \<Longrightarrow>
   retry_loop P n inputFile outputFile cfg attempt re w =
     (let (re', w1) = call_Compress P inputFile outputFile cfg w
      in if snd re' = None then (re', w1)
         else retry_loop P n inputFile outputFile cfg (attempt + 1) re'
                (if attempt < n - 1 then time_Sleep (time_Second * 2) w1 else w1))"
  by (subst retry_loop.simps) (simp add: Let_def split_beta)

lemma attempt_error_Suc:
  "attempt_error P inputFile outputFile cfg (Suc i) w =
     attempt_error P inputFile outputFile cfg i
       (time_Sleep (time_Second * 2) (snd (call_Compress P inputFile outputFile cfg w)))"
  by (simp add: attempt_error_def attempt_outcome_def)

lemma attempt_outcome_Suc:
  "attempt_outcome P inputFile outputFile cfg (Suc i) w =
     attempt_outcome P inputFile outputFile cfg i
       (time_Sleep (time_Second * 2) (snd (call_Compress P inputFile outputFile cfg w)))"
  by (simp add: attempt_outcome_def)

lemma retry_loop_attempts:
  assumes "attempt + int (Suc m) \<le> n"
    and "\<forall>i < m. attempt_error P inputFile outputFile cfg i w \<noteq> None"
    and "attempt + int (Suc m) = n \<or> attempt_error P inputFile outputFile cfg m w = None"
  shows "retry_loop P n inputFile outputFile cfg attempt re w
           = attempt_outcome P inputFile outputFile cfg m w"
  using assms
proof (induction m arbitrary: attempt re w)
  case 0
  obtain re' w1 where c: "call_Compress P inputFile outputFile cfg w = (re', w1)"
    by (cases "call_Compress P inputFile outputFile cfg w")
  have lt: "attempt < n" using "0.prems"(1) by simp
  show ?case
  proof (cases "snd re' = None")
    case True
    then show ?thesis
      using c lt by (simp add: retry_loop_step attempt_outcome_def)
  next
    case False
    then obtain e where fail: "snd re' = Some e"
      by blast
    have "attempt + 1 = n \<or> snd re' = None"
      using "0.prems"(3) c by (simp add: attempt_error_def attempt_outcome_def)
    with fail have "attempt + 1 = n"
      by simp
    then show ?thesis
      using c lt fail by (simp add: retry_loop_step retry_loop_done attempt_outcome_def)
  qed
next
  case (Suc m)
  obtain re' w1 where c: "call_Compress P inputFile outputFile cfg w = (re', w1)"
    by (cases "call_Compress P inputFile outputFile cfg w")
  have lt: "attempt < n" "attempt < n - 1" using Suc.prems(1) by simp_all
  have "snd re' \<noteq> None"
    using Suc.prems(2) c by (auto simp add: attempt_error_def attempt_outcome_def)
  then obtain e where fail: "snd re' = Some e"
    by blast
  let ?w2 = "time_Sleep (time_Second * 2) w1"
  have "retry_loop P n inputFile outputFile cfg (attempt + 1) re' ?w2
          = attempt_outcome P inputFile outputFile cfg m ?w2"
  proof (rule Suc.IH)
    show "attempt + 1 + int (Suc m) \<le> n" using Suc.prems(1) by simp
    show "\<forall>i<m. attempt_error P inputFile outputFile cfg i ?w2 \<noteq> None"
      using Suc.prems(2) c by (auto simp add: attempt_error_Suc dest: spec [of _ "Suc _"])
    show "attempt + 1 + int (Suc m) = n \<or> attempt_error P inputFile outputFile cfg m ?w2 = None"
      using Suc.prems(3) c by (auto simp add: attempt_error_Suc)
  qed
  then show ?case
    using c lt fail by (simp add: retry_loop_step attempt_outcome_Suc)
qed

lemma call_Compress_events:
  "w_events (snd (call_Compress P inputFile outputFile cfg w))
     = w_events w @ [EvCompress inputFile outputFile]"
  by (simp add: call_Compress_def split_beta)

lemma attempt_outcome_events:
  "w_events (snd (attempt_outcome P inputFile outputFile cfg j w))
     = w_events w @ attempt_events inputFile outputFile (Suc j)"
proof (induction j arbitrary: w)
  case 0
  show ?case by (simp add: attempt_outcome_def call_Compress_events)
next
  case (Suc j)
  show ?case
    by (simp add: attempt_outcome_Suc Suc.IH time_Sleep_def call_Compress_events)
qed

lemma attempt_events_nonempty:
  "attempt_events inputFile outputFile (Suc n) \<noteq> []"
  by (cases n) simp_all

lemma attempt_events_counts:
  "length (filter is_compress (attempt_events inputFile outputFile n)) = n \<and>
   length (filter (\<lambda>e. \<not> is_compress e) (attempt_events inputFile outputFile n)) = n - 1 \<and>
   (0 < n \<longrightarrow> last (attempt_events inputFile outputFile n) = EvCompress inputFile outputFile)"
  by (induction inputFile outputFile n rule: attempt_events.induct)
     (simp_all add: attempt_events_nonempty)


lemma attempt_events_sleeps:
  "filter (\<lambda>e. \<not> is_compress e) (attempt_events inputFile outputFile n)
     = replicate (n - 1) (EvSleep (time_Second * 2))"
  by (induction inputFile outputFile n rule: attempt_events.induct) simp_all

lemma attempt_events_last:
  "last (xs @ attempt_events inputFile outputFile (Suc n)) = EvCompress inputFile outputFile"
  by (induction n) (simp_all add: attempt_events_nonempty)

lemma compress_calls_attempt_outcome:
  "compress_calls (snd (attempt_outcome P inputFile outputFile cfg j w))
     = compress_calls w + Suc j"
  using attempt_events_counts [of inputFile outputFile "Suc j"]
  by (simp add: compress_calls_def attempt_outcome_events del: attempt_events.simps)

text \<open>
  Claim C5. Let the number of retry attempts \<open>n\<close> be at least 1. When every attempt returns
  an error, the retry loop calls the compressor exactly \<open>n\<close> times, pauses for two seconds
  after each failed attempt but the last, and ends with the outcome of the last attempt; the
  worker then publishes a failed result that carries the error of that last attempt and the
  size of the input. When attempt \<open>j\<close> is the first to return no error, the loop ends with
  its outcome after \<open>j + 1\<close> calls.
\<close>

theorem retry_exhaustion:
  assumes "1 \<le> n"
  shows
    "((\<forall>i < nat n. attempt_error P inputFile outputFile cfg i w \<noteq> None) \<longrightarrow>
        (let run = retry_loop P n inputFile outputFile cfg 0 (None, None) w
         in run = attempt_outcome P inputFile outputFile cfg (nat n - 1) w \<and>
            snd (fst run) = attempt_error P inputFile outputFile cfg (nat n - 1) w \<and>
            snd (fst run) \<noteq> None \<and>
            compress_calls (snd run) = compress_calls w + nat n \<and>
            w_events (snd run) = w_events w @ attempt_events inputFile outputFile (nat n) \<and>
            filter (\<lambda>e. \<not> is_compress e) (attempt_events inputFile outputFile (nat n))
              = replicate (nat n - 1) (EvSleep (time_Second * 2)) \<and>
            last (w_events (snd run)) = EvCompress inputFile outputFile \<and>
            (\<forall>info. resolve_output F P config inputFile = Inr outputFile \<and>
                    fileRepo_GetFileInfo P inputFile = Inr info \<and>
                    RetryAttempts (Processing config) = n \<longrightarrow>
               worker_job F P config cfg inputFile w
                 = Inr ((zero_result F)\<lparr>CurrentFile := inputFile,
                          OriginalSize := Size info, Success := False,
                          Error := attempt_error P inputFile outputFile cfg (nat n - 1) w\<rparr>,
                        snd run)))) \<and>
     (\<forall>j < nat n.
        attempt_error P inputFile outputFile cfg j w = None \<and>
        (\<forall>i < j. attempt_error P inputFile outputFile cfg i w \<noteq> None) \<longrightarrow>
          (let run = retry_loop P n inputFile outputFile cfg 0 (None, None) w
           in run = attempt_outcome P inputFile outputFile cfg j w \<and>
              compress_calls (snd run) = compress_calls w + Suc j \<and>
              w_events (snd run) = w_events w @ attempt_events inputFile outputFile (Suc j)))"
proof -
  obtain m where m: "nat n = Suc m"
    using assms by (cases "nat n") simp_all
  then have n: "n = int (Suc m)"
    using assms by linarith
  let ?run = "retry_loop P n inputFile outputFile cfg 0 (None, None) w"
  let ?last = "attempt_outcome P inputFile outputFile cfg m w"
  have exhausted:
    "?run = attempt_outcome P inputFile outputFile cfg (nat n - 1) w \<and>
     snd (fst ?run) = attempt_error P inputFile outputFile cfg (nat n - 1) w \<and>
     snd (fst ?run) \<noteq> None \<and>
     compress_calls (snd ?run) = compress_calls w + nat n \<and>
     w_events (snd ?run) = w_events w @ attempt_events inputFile outputFile (nat n) \<and>
     filter (\<lambda>e. \<not> is_compress e) (attempt_events inputFile outputFile (nat n))
       = replicate (nat n - 1) (EvSleep (time_Second * 2)) \<and>
     last (w_events (snd ?run)) = EvCompress inputFile outputFile \<and>
     (\<forall>info. resolve_output F P config inputFile = Inr outputFile \<and>
             fileRepo_GetFileInfo P inputFile = Inr info \<and>
             RetryAttempts (Processing config) = n \<longrightarrow>
        worker_job F P config cfg inputFile w
          = Inr ((zero_result F)\<lparr>CurrentFile := inputFile,
                   OriginalSize := Size info, Success := False,
                   Error := attempt_error P inputFile outputFile cfg (nat n - 1) w\<rparr>,
                 snd ?run))"
    if allfail: "\<forall>i < nat n. attempt_error P inputFile outputFile cfg i w \<noteq> None"
  proof -
    have run: "?run = ?last"
      using allfail m n by (intro retry_loop_attempts) simp_all
    have err: "snd (fst ?run) = attempt_error P inputFile outputFile cfg m w"
      by (simp add: run attempt_error_def)
    obtain e where e: "attempt_error P inputFile outputFile cfg m w = Some e"
      using allfail m by auto
    have calls: "compress_calls (snd ?run) = compress_calls w + Suc m"
      by (simp only: run compress_calls_attempt_outcome)
    have events: "w_events (snd ?run)
                    = w_events w @ attempt_events inputFile outputFile (Suc m)"
      by (simp only: run attempt_outcome_events)
    have sleeps: "filter (\<lambda>e. \<not> is_compress e) (attempt_events inputFile outputFile (Suc m))
                    = replicate m (EvSleep (time_Second * 2))"
      using attempt_events_sleeps [of inputFile outputFile "Suc m"] by simp
    have lst: "last (w_events (snd ?run)) = EvCompress inputFile outputFile"
      by (simp only: events attempt_events_last)
    have job: "worker_job F P config cfg inputFile w
          = Inr ((zero_result F)\<lparr>CurrentFile := inputFile,
                   OriginalSize := Size info, Success := False,
                   Error := attempt_error P inputFile outputFile cfg m w\<rparr>,
                 snd ?run)"
      if "resolve_output F P config inputFile = Inr outputFile"
        and "fileRepo_GetFileInfo P inputFile = Inr info"
        and "RetryAttempts (Processing config) = n" for info
      using that err e by (simp add: worker_job_def split_beta)
    have m': "nat n - 1 = m"
      using m by simp
    show ?thesis
      unfolding m' unfolding m
      using run err e calls events sleeps lst job by simp
  qed
  have early:
    "?run = attempt_outcome P inputFile outputFile cfg j w \<and>
     compress_calls (snd ?run) = compress_calls w + Suc j \<and>
     w_events (snd ?run) = w_events w @ attempt_events inputFile outputFile (Suc j)"
    if "j < nat n" and "attempt_error P inputFile outputFile cfg j w = None"
      and "\<forall>i < j. attempt_error P inputFile outputFile cfg i w \<noteq> None" for j
  proof -
    have run: "?run = attempt_outcome P inputFile outputFile cfg j w"
      using that by (intro retry_loop_attempts) simp_all
    show ?thesis
      by (simp only: run compress_calls_attempt_outcome attempt_outcome_events)
  qed
  show ?thesis
    unfolding Let_def using exhausted early by blast
qed


lemma failing_compress_always:
  "attempt_error (test_ports failing_compress files) inputFile outputFile cfg i w \<noteq> None"
  by (simp add: attempt_error_def attempt_outcome_def call_Compress_def test_ports_def
        failing_compress_def)

theorem retry_exhaustion_witness:
  "(let P = test_ports failing_compress [''a.pdf''];
        Q = test_ports flaky_compress [''a.pdf''];
        config = test_config True 2 3;
        cfg = NewCompressionConfig 50;
        w = world0 fs_ab
    in (1 :: int) \<le> 3 \<and>
       (\<forall>i < nat 3. attempt_error P ''a.pdf'' ''a.pdf.tmp'' cfg i w \<noteq> None) \<and>
       resolve_output exact_ops P config ''a.pdf'' = Inr ''a.pdf.tmp'' \<and>
       (case worker_job exact_ops P config cfg ''a.pdf'' w of
          Inl _ \<Rightarrow> False
        | Inr (r, w') \<Rightarrow>
            Error r = Some (CompressorError ''!!!'') \<and> \<not> Success r \<and>
            OriginalSize r = 1000 \<and> CurrentFile r = ''a.pdf'' \<and>
            compress_calls w' = 3 \<and>
            w_events w' =
              [EvCompress ''a.pdf'' ''a.pdf.tmp'', EvSleep 2000000000,
               EvCompress ''a.pdf'' ''a.pdf.tmp'', EvSleep 2000000000,
               EvCompress ''a.pdf'' ''a.pdf.tmp'']) \<and>
       attempt_error Q ''a.pdf'' ''a.pdf.tmp'' cfg 0 w \<noteq> None \<and>
       attempt_error Q ''a.pdf'' ''a.pdf.tmp'' cfg 1 w = None \<and>
       w_events (snd (retry_loop Q 3 ''a.pdf'' ''a.pdf.tmp'' cfg 0 (None, None) w)) =
         [EvCompress ''a.pdf'' ''a.pdf.tmp'', EvSleep 2000000000,
          EvCompress ''a.pdf'' ''a.pdf.tmp''])"
proof -
  let ?P = "test_ports failing_compress [''a.pdf'']"
  let ?Q = "test_ports flaky_compress [''a.pdf'']"
  let ?cfg = "NewCompressionConfig 50"
  have a: "\<forall>i < nat 3. attempt_error ?P ''a.pdf'' ''a.pdf.tmp'' ?cfg i (world0 fs_ab) \<noteq> None"
    by (simp add: failing_compress_always)
  have r: "resolve_output exact_ops ?P (test_config True 2 3) ''a.pdf'' = Inr ''a.pdf.tmp''"
    by (simp add: resolve_output_def test_config_def)
  have g: "fileRepo_GetFileInfo ?P ''a.pdf''
             = Inr \<lparr>Path = ''a.pdf'', Size = 1000, ModifiedTime = 0, Pages = 0\<rparr>"
    by (simp add: test_ports_def)
  have q0: "attempt_error ?Q ''a.pdf'' ''a.pdf.tmp'' ?cfg 0 (world0 fs_ab) \<noteq> None"
    by (simp add: attempt_error_def attempt_outcome_def call_Compress_def test_ports_def
          flaky_compress_def failing_compress_def compress_calls_def world0_def)
  have q1: "attempt_error ?Q ''a.pdf'' ''a.pdf.tmp'' ?cfg 1 (world0 fs_ab) = None"
    by (simp add: attempt_error_def attempt_outcome_def call_Compress_def test_ports_def
          flaky_compress_def failing_compress_def halving_compress_def compress_calls_def
          world0_def time_Sleep_def)
  have q: "\<forall>i < (1 :: nat). attempt_error ?Q ''a.pdf'' ''a.pdf.tmp'' ?cfg i (world0 fs_ab) \<noteq> None"
    using q0 by simp
  have three: "nat 3 = Suc (Suc (Suc 0))"
    by simp
  have n: "(1 :: int) \<le> 3"
    by simp
  note exh = retry_exhaustion [OF n, of ?P "''a.pdf''" "''a.pdf.tmp''" ?cfg "world0 fs_ab"
      exact_ops "test_config True 2 3", unfolded Let_def, THEN conjunct1, THEN mp, OF a]
  note early = retry_exhaustion [OF n, of ?Q "''a.pdf''" "''a.pdf.tmp''" ?cfg "world0 fs_ab"
      exact_ops "test_config True 2 3", unfolded Let_def, THEN conjunct2, THEN spec, of 1,
      THEN mp]
  have last_out: "attempt_outcome ?P ''a.pdf'' ''a.pdf.tmp'' ?cfg (Suc (Suc 0)) (world0 fs_ab)
          = ((None, Some (CompressorError ''!!!'')),
             \<lparr>w_fs = fs_ab,
              w_events = [EvCompress ''a.pdf'' ''a.pdf.tmp'', EvSleep 2000000000,
                          EvCompress ''a.pdf'' ''a.pdf.tmp'', EvSleep 2000000000,
                          EvCompress ''a.pdf'' ''a.pdf.tmp'']\<rparr>)"
    by (simp add: attempt_outcome_def call_Compress_def test_ports_def failing_compress_def
          time_Sleep_def time_Second_def world0_def compress_calls_def)
  have run: "retry_loop ?P 3 ''a.pdf'' ''a.pdf.tmp'' ?cfg 0 (None, None) (world0 fs_ab)
          = attempt_outcome ?P ''a.pdf'' ''a.pdf.tmp'' ?cfg (Suc (Suc 0)) (world0 fs_ab)"
    using exh [THEN conjunct1] by (simp only: three diff_Suc_1)
  have "RetryAttempts (Processing (test_config True 2 3)) = 3"
    by (simp add: test_config_def)
  with exh r g
  have job: "worker_job exact_ops ?P (test_config True 2 3) ?cfg ''a.pdf'' (world0 fs_ab)
          = Inr ((zero_result exact_ops)\<lparr>CurrentFile := ''a.pdf'',
                   OriginalSize := Size \<lparr>Path = ''a.pdf'', Size = 1000, ModifiedTime = 0, Pages = 0\<rparr>,
                   Success := False,
                   Error := attempt_error ?P ''a.pdf'' ''a.pdf.tmp'' ?cfg (nat 3 - 1) (world0 fs_ab)\<rparr>,
                 snd (retry_loop ?P 3 ''a.pdf'' ''a.pdf.tmp'' ?cfg 0 (None, None) (world0 fs_ab)))"
    by blast
  have job': "worker_job exact_ops ?P (test_config True 2 3) ?cfg ''a.pdf'' (world0 fs_ab)
          = Inr ((zero_result exact_ops)\<lparr>CurrentFile := ''a.pdf'', OriginalSize := 1000,
                   Success := False, Error := Some (CompressorError ''!!!'')\<rparr>,
             \<lparr>w_fs = fs_ab,
              w_events = [EvCompress ''a.pdf'' ''a.pdf.tmp'', EvSleep 2000000000,
                          EvCompress ''a.pdf'' ''a.pdf.tmp'', EvSleep 2000000000,
                          EvCompress ''a.pdf'' ''a.pdf.tmp'']\<rparr>)"
    unfolding job run using last_out
    by (simp add: three attempt_error_def numeral_2_eq_2)
  have "1 < nat 3 \<and> attempt_error ?Q ''a.pdf'' ''a.pdf.tmp'' ?cfg 1 (world0 fs_ab) = None \<and>
        (\<forall>i < (1 :: nat). attempt_error ?Q ''a.pdf'' ''a.pdf.tmp'' ?cfg i (world0 fs_ab) \<noteq> None)"
    using q1 q by simp
  then have "w_events (snd (retry_loop ?Q 3 ''a.pdf'' ''a.pdf.tmp'' ?cfg 0 (None, None) (world0 fs_ab)))
          = w_events (world0 fs_ab) @ attempt_events ''a.pdf'' ''a.pdf.tmp'' (Suc 1)"
    using early by blast
  then have flaky: "w_events (snd (retry_loop ?Q 3 ''a.pdf'' ''a.pdf.tmp'' ?cfg 0 (None, None) (world0 fs_ab)))
          = [EvCompress ''a.pdf'' ''a.pdf.tmp'', EvSleep 2000000000,
             EvCompress ''a.pdf'' ''a.pdf.tmp'']"
    by (simp add: world0_def time_Second_def)
  show ?thesis
    unfolding Let_def using a r q0 q1 job' flaky
    by (simp add: compress_calls_def zero_result_def)
qed


lemma ValidateConfig_New [simp]:
  "ValidateConfig (NewCompressionConfigWithLicense level key) = None"
  by (simp add: ValidateConfig_def Validate_def NewCompressionConfigWithLicense_def Let_def)

lemma worker_job_without_attempts:
  assumes "RetryAttempts (Processing config) \<le> 0"
    and "resolve_output F P config inputFile = Inr outputFile"
    and "fileRepo_GetFileInfo P inputFile = Inr info"
  shows "retry_loop P (RetryAttempts (Processing config)) inputFile outputFile cfg 0
           (None, None) w = ((None, None), w)"
    and "worker_job F P config cfg inputFile w = Inl NilPointerDereference"
proof -
  show loop: "retry_loop P (RetryAttempts (Processing config)) inputFile outputFile cfg 0
           (None, None) w = ((None, None), w)"
    using assms(1) by (simp add: retry_loop_done)
  show "worker_job F P config cfg inputFile w = Inl NilPointerDereference"
    using assms(2,3) by (simp add: worker_job_def loop)
qed

text \<open>
  Claim C2 does not hold of the code. With \<open>RetryAttempts\<close> zero or negative the loop body is
  never entered: no attempt is made, \<open>result\<close> stays nil and \<open>err\<close> stays nil, and the worker
  dereferences the nil \<open>result\<close>. The run below has one file, a compressor that would
  succeed, and \<open>RetryAttempts = 0\<close> (then \<open>- 1\<close>).
\<close>

theorem zero_retry_attempts_panic:
  "(let P = test_ports halving_compress [''a.pdf''];
        cfg = NewCompressionConfigWithLicense 50 [];
        w = world0 fs_ab
    in RetryAttempts (Processing (test_config True 2 0)) = 0 \<and>
       retry_loop P 0 ''a.pdf'' ''a.pdf.tmp'' cfg 0 (None, None) w = ((None, None), w) \<and>
       worker_job exact_ops P (test_config True 2 0) cfg ''a.pdf'' w
         = Inl NilPointerDereference \<and>
       ProcessPDFs_Execute exact_ops P [] (test_config True 2 0) w
         = Inl NilPointerDereference \<and>
       worker_job exact_ops P (test_config True 2 (- 1)) cfg ''a.pdf'' w
         = Inl NilPointerDereference)"
proof -
  let ?P = "test_ports halving_compress [''a.pdf'']"
  let ?cfg = "NewCompressionConfigWithLicense 50 []"
  have r: "resolve_output exact_ops ?P (test_config True 2 n) ''a.pdf'' = Inr ''a.pdf.tmp''" for n
    by (simp add: resolve_output_def test_config_def)
  have g: "fileRepo_GetFileInfo ?P ''a.pdf''
             = Inr \<lparr>Path = ''a.pdf'', Size = 1000, ModifiedTime = 0, Pages = 0\<rparr>"
    by (simp add: test_ports_def)
  have z: "RetryAttempts (Processing (test_config True 2 0)) = 0"
          "RetryAttempts (Processing (test_config True 2 (- 1))) \<le> 0"
    by (simp_all add: test_config_def)
  have loop: "retry_loop ?P 0 ''a.pdf'' ''a.pdf.tmp'' ?cfg 0 (None, None) (world0 fs_ab)
                = ((None, None), world0 fs_ab)"
    by (simp add: retry_loop_done)
  have job0: "worker_job exact_ops ?P (test_config True 2 0) ?cfg ''a.pdf'' (world0 fs_ab)
                = Inl NilPointerDereference"
    using z(1) by (intro worker_job_without_attempts(2) [OF _ r g]) simp
  have job1: "worker_job exact_ops ?P (test_config True 2 (- 1)) ?cfg ''a.pdf'' (world0 fs_ab)
                = Inl NilPointerDereference"
    by (rule worker_job_without_attempts(2) [OF z(2) r g])
  have run: "ProcessPDFs_Execute exact_ops ?P [] (test_config True 2 0) (world0 fs_ab)
                = Inl NilPointerDereference"
    using job0
    by (simp add: ProcessPDFs_Execute_def Let_def test_ports_def test_config_def)
  show ?thesis
    unfolding Let_def using z(1) loop job0 job1 run by simp
qed

subsection \<open>The file inventory\<close>

lemma visit_simps:
  "visit p d (Some err) acc = (None, acc)"
  "visit p (Some (DirEntry n r ds)) None acc = (None, acc)"
  "visit p (Some (FileEntry n)) None acc
     = (None, acc @ map fst (filter pdf_entry [(p, n)]))"
  by (simp_all add: visit_def pdf_entry_def)

lemma walk_visit:
  "walkDir join visit p d acc
     = (None, acc @ map fst (filter pdf_entry (file_entries join p d)))"
  "walkDirEntries join visit p ds acc
     = (None, acc @ map fst (filter pdf_entry
                  (concat (map (\<lambda>d. file_entries join (join p (Name d)) d) ds))))"
proof (induction join "visit :: path list walk_fn" p d acc
         and join "visit :: path list walk_fn" p ds acc
       rule: walkDir_walkDirEntries.induct)
  case (1 join p n acc)
  show ?case by (simp add: visit_simps)
next
  case (2 join p n readErr dirs acc)
  show ?case
  proof (cases readErr)
    case None
    then show ?thesis using 2 by (simp add: visit_simps)
  next
    case (Some rerr)
    then show ?thesis using 2 by (simp add: visit_simps)
  qed
next
  case (3 join p acc)
  show ?case by simp
next
  case (4 join p d1 ds acc)
  then show ?case by simp
qed


lemma ext_scan_suffix: "\<exists>pre. rev xs @ suf = pre @ ext_scan xs suf"
proof (induction xs arbitrary: suf)
  case Nil
  show ?case by simp
next
  case (Cons c before)
  from Cons [of "c # suf"] show ?case by auto
qed

lemma Ext_suffix: "\<exists>pre. n = pre @ Ext n"
  using ext_scan_suffix [of "rev n" "[]"] by (simp add: Ext_def)

lemma ascii_lower_fixed [simp]:
  "ascii_lower CHR ''.'' = CHR ''.''" "ascii_lower CHR ''/'' = CHR ''/''"
  "ascii_lower CHR ''p'' = CHR ''p''" "ascii_lower CHR ''d'' = CHR ''d''"
  "ascii_lower CHR ''f'' = CHR ''f''"
  by (simp_all add: ascii_lower_def less_eq_char_def)

lemma ascii_lower_dot: "ascii_lower c = CHR ''.'' \<Longrightarrow> c = CHR ''.''"
proof (cases "CHR ''A'' \<le> c \<and> c \<le> CHR ''Z''")
  case True
  assume a: "ascii_lower c = CHR ''.''"
  have "65 \<le> (of_char c :: nat)" "(of_char c :: nat) \<le> 90"
    using True by (simp_all add: less_eq_char_def)
  then have "(of_char c + 32) mod 256 = (of_char c + 32 :: nat)"
    by simp
  then have "(of_char (ascii_lower c) :: nat) = of_char c + 32"
    using True by (simp add: ascii_lower_def)
  with a \<open>65 \<le> of_char c\<close> show ?thesis by simp
next
  case False
  assume "ascii_lower c = CHR ''.''"
  with False show ?thesis by (auto simp add: ascii_lower_def split: if_splits)
qed

lemma ascii_lower_letter:
  assumes "ascii_lower c = x" and "x \<noteq> CHR ''.''" and "x \<noteq> CHR ''/''"
  shows "c \<noteq> CHR ''.''" and "c \<noteq> CHR ''/''"
  using assms by auto

lemma has_pdf_suffix_iff: "EqualFold (Ext n) ''.pdf'' \<longleftrightarrow> has_pdf_suffix n"
proof
  assume "EqualFold (Ext n) ''.pdf''"
  then have low: "map ascii_lower (Ext n) = ''.pdf''"
    by (simp add: EqualFold_def)
  then have len: "length (Ext n) = 4"
    using length_map [of ascii_lower "Ext n"] by simp
  obtain pre where pre: "n = pre @ Ext n"
    using Ext_suffix by blast
  then have "length n = length pre + 4"
    using len by (metis length_append)
  then have "drop (length n - 4) n = Ext n" "4 \<le> length n"
    using pre by (metis add_diff_cancel_right' append_eq_conv_conj, simp)
  then show "has_pdf_suffix n"
    using low by (simp add: has_pdf_suffix_def)
next
  assume h: "has_pdf_suffix n"
  define pre where "pre = take (length n - 4) n"
  define suf where "suf = drop (length n - 4) n"
  have n: "n = pre @ suf"
    by (simp add: pre_def suf_def)
  have low: "map ascii_lower suf = ''.pdf''" and "length suf = 4"
    using h by (simp_all add: has_pdf_suffix_def suf_def)
  then obtain a b c d where suf: "suf = [a, b, c, d]"
    by (auto simp add: length_Suc_conv numeral_eq_Suc)
  have l: "ascii_lower a = CHR ''.''" "ascii_lower b = CHR ''p''"
      "ascii_lower c = CHR ''d''" "ascii_lower d = CHR ''f''"
    using low suf by simp_all
  have a: "a = CHR ''.''"
    using l(1) by (rule ascii_lower_dot)
  have nb: "b \<noteq> CHR ''.''" "b \<noteq> CHR ''/''"
    using ascii_lower_letter [OF l(2)] by simp_all
  have nc: "c \<noteq> CHR ''.''" "c \<noteq> CHR ''/''"
    using ascii_lower_letter [OF l(3)] by simp_all
  have nd: "d \<noteq> CHR ''.''" "d \<noteq> CHR ''/''"
    using ascii_lower_letter [OF l(4)] by simp_all
  have "Ext n = suf"
    using a nb nc nd by (simp add: Ext_def n suf)
  then show "EqualFold (Ext n) ''.pdf''"
    using low by (simp add: EqualFold_def)
qed


lemma pdf_entry_iff: "pdf_entry e \<longleftrightarrow> has_pdf_suffix (snd e)"
  by (simp add: pdf_entry_def has_pdf_suffix_iff)

lemma ListPDFFiles_eq:
  "ListPDFFiles join info directory
     = Inr (sort (map fst (filter pdf_entry (inventory_entries join info directory))))"
  by (cases info)
     (simp_all add: ListPDFFiles_def WalkDir_def inventory_entries_def walk_visit visit_simps)


lemma sort_empty_iff: "sort (map f xs) = [] \<longleftrightarrow> xs = []"
  using length_sort [of id "map f xs"] by (cases xs) auto

lemma set_found:
  "set (sort (map fst (filter (\<lambda>e. Q (snd e)) xs))) = {p. \<exists>n. (p, n) \<in> set xs \<and> Q n}"
  by (auto simp add: image_iff)


text \<open>
  Claim C9. For every root directory, whatever can be read below it, \<open>ListPDFFiles\<close> returns
  a list and no error: the list is sorted in the order of strings, and holds the paths of
  the entries, at any depth, that are no directories and whose name ends in \<open>.pdf\<close> (in any
  case). A root that cannot be read and a directory whose listing fails do not end the
  scan: the entries that were read are still visited. With no such entry the list is empty.
\<close>

theorem ListPDFFiles_inventory:
  "(\<exists>files. ListPDFFiles join info directory = Inr files \<and>
      sorted files \<and>
      files = sort (map fst (filter (\<lambda>e. has_pdf_suffix (snd e))
                               (inventory_entries join info directory))) \<and>
      set files = {p. \<exists>n. (p, n) \<in> set (inventory_entries join info directory) \<and>
                          has_pdf_suffix n} \<and>
      (files = [] \<longleftrightarrow>
         filter (\<lambda>e. has_pdf_suffix (snd e)) (inventory_entries join info directory) = []))"
proof -
  let ?found = "filter (\<lambda>e. has_pdf_suffix (snd e)) (inventory_entries join info directory)"
  have "pdf_entry = (\<lambda>e. has_pdf_suffix (snd e))"
    by (rule ext) (simp add: pdf_entry_iff)
  then have same: "filter pdf_entry (inventory_entries join info directory) = ?found"
    by simp
  have eq: "ListPDFFiles join info directory = Inr (sort (map fst ?found))"
    by (simp only: ListPDFFiles_eq same)
  have srt: "sorted (sort (map fst ?found))"
    by (rule sorted_sort)
  have st: "set (sort (map fst ?found))
          = {p. \<exists>n. (p, n) \<in> set (inventory_entries join info directory) \<and> has_pdf_suffix n}"
    by (rule set_found)
  have em: "sort (map fst ?found) = [] \<longleftrightarrow> ?found = []"
    by (rule sort_empty_iff)
  show ?thesis
    using eq srt st em by blast
qed


theorem ListPDFFiles_inventory_witness:
  "ListPDFFiles join_slash (Inr docs_tree) ''docs''
     = Inr [''docs/Report.Pdf'', ''docs/a.pdf'', ''docs/a/z.PDF''] \<and>
   ''docs/Report.Pdf'' < ''docs/a.pdf'' \<and> ''docs/a.pdf'' < ''docs/a/z.PDF'' \<and>
   ListPDFFiles join_slash (Inl (OsError ''lstat docs'')) ''docs'' = Inr []"
proof -
  have found: "filter (\<lambda>e. has_pdf_suffix (snd e))
                 (inventory_entries join_slash (Inr docs_tree) ''docs'')
               = [(''docs/Report.Pdf'', ''Report.Pdf''), (''docs/a/z.PDF'', ''z.PDF''),
                  (''docs/a.pdf'', ''a.pdf'')]"
    by code_simp
  have o1: "''docs/Report.Pdf'' < ''docs/a.pdf''"
    by (simp add: less_char_def)
  have o2: "''docs/a.pdf'' < ''docs/a/z.PDF''"
    by (simp add: less_char_def)
  have sorted: "sort [''docs/Report.Pdf'', ''docs/a/z.PDF'', ''docs/a.pdf'']
          = [''docs/Report.Pdf'', ''docs/a.pdf'', ''docs/a/z.PDF'']"
    by code_simp
  have none: "filter (\<lambda>e. has_pdf_suffix (snd e))
                (inventory_entries join_slash (Inl (OsError ''lstat docs'')) ''docs'') = []"
    by (simp add: inventory_entries_def)
  obtain files where
    "ListPDFFiles join_slash (Inr docs_tree) ''docs'' = Inr files"
    "files = sort (map fst (filter (\<lambda>e. has_pdf_suffix (snd e))
                               (inventory_entries join_slash (Inr docs_tree) ''docs'')))"
    using ListPDFFiles_inventory [of join_slash "Inr docs_tree" "''docs''"] by blast
  then have one: "ListPDFFiles join_slash (Inr docs_tree) ''docs''
     = Inr [''docs/Report.Pdf'', ''docs/a.pdf'', ''docs/a/z.PDF'']"
    by (simp only: found sorted list.map fst_conv)
  obtain none_files where
    "ListPDFFiles join_slash (Inl (OsError ''lstat docs'')) ''docs'' = Inr none_files"
    "none_files = [] \<longleftrightarrow>
       filter (\<lambda>e. has_pdf_suffix (snd e))
         (inventory_entries join_slash (Inl (OsError ''lstat docs'')) ''docs'') = []"
    using ListPDFFiles_inventory [of join_slash "Inl (OsError ''lstat docs'')" "''docs''"]
    by blast
  then have two: "ListPDFFiles join_slash (Inl (OsError ''lstat docs'')) ''docs'' = Inr []"
    using none by simp
  show ?thesis
    using one two o1 o2 by (simp only: simp_thms)
qed

subsection \<open>The batch run\<close>

lemma run_pool_length:
  "run_pool F P config cfg workers picks files w = Inr (results, w') \<Longrightarrow>
     length results = length files"
proof (induction F P config cfg workers picks files w arbitrary: results w'
       rule: run_pool.induct)
  case (1 F P config cfg workers picks w)
  then show ?case by simp
next
  case (2 F P config cfg workers picks j js w)
  define i where "i = (case picks of [] \<Rightarrow> 0 | p # _ \<Rightarrow> p mod (min (max 1 workers) (length (j # js))))"
  have i: "i < length (j # js)"
  proof (cases picks)
    case Nil
    then show ?thesis by (simp add: i_def)
  next
    case (Cons p ps)
    define m where "m = min (max 1 workers) (length (j # js))"
    have "0 < m" and "m \<le> length (j # js)"
      by (simp_all add: m_def)
    moreover have "i = p mod m"
      using Cons by (simp add: i_def m_def)
    ultimately show ?thesis
      using mod_less_divisor [of m p] by linarith
  qed
  from "2.prems" obtain r w1 rs where
    job: "worker_job F P config cfg ((j # js) ! i) w = Inr (r, w1)"
    and rest: "run_pool F P config cfg workers (tl picks)
                 (take i (j # js) @ drop (Suc i) (j # js)) w1 = Inr (rs, w')"
    and res: "results = r # rs"
    by (auto simp add: Let_def i_def split: sum.splits prod.splits)
  have "length rs = length (take i (j # js) @ drop (Suc i) (j # js))"
    using "2.IH" [OF refl i_def job refl rest] .
  then show ?case
    using i res by simp
qed


lemma SetCurrentFile_counts [simp]:
  "ProcessedFiles (SetCurrentFile p sz st) = ProcessedFiles st"
  "SuccessfulFiles (SetCurrentFile p sz st) = SuccessfulFiles st"
  "FailedFiles (SetCurrentFile p sz st) = FailedFiles st"
  "TotalFiles (SetCurrentFile p sz st) = TotalFiles st"
  "Phase (SetCurrentFile p sz st) = Phase st"
  by (simp_all add: SetCurrentFile_def)

lemma AddResult_sum:
  "SuccessfulFiles (AddResult F since r st) + FailedFiles (AddResult F since r st)
     = SuccessfulFiles st + FailedFiles st + 1"
  by (cases "succeeded r") (simp_all add: AddResult_success AddResult_failure)

lemma aggregate_counts:
  "(\<forall>st \<in> set (snd (aggregate F clock k rs ps)).
       ProcessedFiles st - (SuccessfulFiles st + FailedFiles st)
         = ProcessedFiles ps - (SuccessfulFiles ps + FailedFiles ps) \<and>
       ProcessedFiles st \<le> ProcessedFiles ps + int (length rs) \<and>
       TotalFiles st = TotalFiles ps \<and> Phase st = Phase ps) \<and>
   ProcessedFiles (fst (aggregate F clock k rs ps))
     - (SuccessfulFiles (fst (aggregate F clock k rs ps))
        + FailedFiles (fst (aggregate F clock k rs ps)))
     = ProcessedFiles ps - (SuccessfulFiles ps + FailedFiles ps) \<and>
   ProcessedFiles (fst (aggregate F clock k rs ps)) = ProcessedFiles ps + int (length rs) \<and>
   TotalFiles (fst (aggregate F clock k rs ps)) = TotalFiles ps \<and>
   Phase (fst (aggregate F clock k rs ps)) = Phase ps"
proof (induction rs arbitrary: k ps)
  case Nil
  show ?case by simp
next
  case (Cons r rs)
  let ?st = "SetCurrentFile (CurrentFile r) (OriginalSize r) (AddResult F (clock k) r ps)"
  have step: "ProcessedFiles ?st = ProcessedFiles ps + 1"
      "SuccessfulFiles ?st + FailedFiles ?st = SuccessfulFiles ps + FailedFiles ps + 1"
      "TotalFiles ?st = TotalFiles ps" "Phase ?st = Phase ps"
    using AddResult_sum [of F "clock k" r ps] by (simp_all add: AddResult_common)
  show ?case
    using Cons [of "Suc k" ?st] step
    by (auto simp add: Let_def split_beta)
qed

lemma aggregate_consistent:
  assumes "ProcessedFiles ps = 0" and "SuccessfulFiles ps = 0" and "FailedFiles ps = 0"
    and "int (length rs) \<le> TotalFiles ps"
  shows "(\<forall>st \<in> set (snd (aggregate F clock k rs ps)). counts_consistent st) \<and>
         counts_consistent (fst (aggregate F clock k rs ps)) \<and>
         ProcessedFiles (fst (aggregate F clock k rs ps)) = int (length rs)"
  using aggregate_counts [of F clock k rs ps] assms
  by (auto simp add: counts_consistent_def)


lemma counts_consistent_updates [simp]:
  "counts_consistent (SetPhase ph msg st) = counts_consistent st"
  "counts_consistent (Fail since err st) = counts_consistent st"
  "counts_consistent (Complete F since st) = counts_consistent st"
  by (simp_all add: counts_consistent_def SetPhase_def Fail_def Complete_def)

lemma status_fields [simp]:
  "Phase (Fail since err st) = PhaseFailed"
  "Phase (Complete F since st) = PhaseCompleted"
  "Phase (SetPhase ph msg st) = ph"
  "ProcessedFiles (Complete F since st) = ProcessedFiles st"
  "TotalFiles (Complete F since st) = TotalFiles st"
  "ProcessedFiles (SetPhase ph msg st) = ProcessedFiles st"
  "SuccessfulFiles (SetPhase ph msg st) = SuccessfulFiles st"
  "FailedFiles (SetPhase ph msg st) = FailedFiles st"
  "TotalFiles (SetPhase ph msg st) = TotalFiles st"
  "ProcessedFiles (NewProcessingStatus F n) = 0"
  "SuccessfulFiles (NewProcessingStatus F n) = 0"
  "FailedFiles (NewProcessingStatus F n) = 0"
  "TotalFiles (NewProcessingStatus F n) = n"
  by (simp_all add: Fail_def Complete_def SetPhase_def NewProcessingStatus_def)

lemma counts_consistent_new:
  "0 \<le> n \<Longrightarrow> counts_consistent ((NewProcessingStatus F 0)\<lparr>TotalFiles := n\<rparr>)"
  "counts_consistent (NewProcessingStatus F 0)"
  by (simp_all add: counts_consistent_def NewProcessingStatus_def)

lemma run_failed_consistent:
  assumes "counts_consistent st" and "\<forall>s \<in> set reps. counts_consistent s"
  shows "(\<forall>s \<in> set (reported (run_failed P err st reps w)). counts_consistent s) \<and>
         counts_consistent (final_status (run_failed P err st reps w)) \<and>
         Phase (final_status (run_failed P err st reps w)) = PhaseFailed \<and>
         returned (run_failed P err st reps w) = Some err \<and>
         workers_started (run_failed P err st reps w) = 0"
  using assms by (simp add: run_failed_def Let_def)

lemma Execute_pool:
  assumes "fileRepo_FileExists P (SourceDirectory (Scanner config))"
    and "ReplaceOriginal (Scanner config) \<or>
         fileRepo_CreateDirectory P (TargetDirectory (Scanner config)) = None"
    and "fileRepo_ListPDFFiles P (SourceDirectory (Scanner config)) = Inr files"
    and "files \<noteq> []"
    and "run_pool F P config
           (NewCompressionConfigWithLicense (AppLevel (Compression config))
              (AppUniPDFLicenseKey (Compression config)))
           (nat (if ParallelWorkers (Processing config) \<le> 0 then 1
                 else ParallelWorkers (Processing config)))
           picks files w = Inr (results, w1)"
  shows "ProcessPDFs_Execute F P picks config w =
     (let status0 = SetPhase PhaseInitializing ''Initializing...'' (NewProcessingStatus F 0);
          status1 = SetPhase PhaseScanning ''Scanning PDF files...'' status0;
          status3 = SetPhase PhaseCompressing ''Compressing PDF files...''
                      (status1\<lparr>TotalFiles := int (length files)\<rparr>);
          agg = aggregate F (time_Since P) 0 results status3;
          status5 = Complete F (time_Since P (length results)) (fst agg)
      in Inr \<lparr>returned = None, final_status = status5,
              reported = [status0, status1, status3] @ snd agg @ [status5],
              workers_started = nat (if ParallelWorkers (Processing config) \<le> 0 then 1
                                     else ParallelWorkers (Processing config)),
              final_world = w1\<rparr>)"
  using assms by (auto simp add: ProcessPDFs_Execute_def Let_def split_beta)

lemma Execute_consistent:
  assumes run: "ProcessPDFs_Execute F P picks config w = Inr out"
  shows "(\<forall>st \<in> set (reported out). counts_consistent st) \<and>
         counts_consistent (final_status out) \<and>
         (Phase (final_status out) = PhaseCompleted \<longrightarrow>
            ProcessedFiles (final_status out) = TotalFiles (final_status out))"
proof -
  let ?src = "SourceDirectory (Scanner config)"
  let ?st0 = "SetPhase PhaseInitializing ''Initializing...'' (NewProcessingStatus F 0)"
  let ?st1 = "SetPhase PhaseScanning ''Scanning PDF files...'' ?st0"
  let ?good = "\<lambda>out. (\<forall>st \<in> set (reported out). counts_consistent st) \<and>
         counts_consistent (final_status out) \<and>
         (Phase (final_status out) = PhaseCompleted \<longrightarrow>
            ProcessedFiles (final_status out) = TotalFiles (final_status out))"
  have c0: "counts_consistent ?st0" and c1: "counts_consistent ?st1"
    by (simp_all add: counts_consistent_new)
  have failed: "?good (run_failed P err st reps w)"
    if "counts_consistent st" and "\<forall>s \<in> set reps. counts_consistent s" for err st reps
    using run_failed_consistent [OF that, of P err w] by simp
  show ?thesis
  proof (cases "fileRepo_FileExists P ?src")
    case False
    then have "out = run_failed P (SourceDirMissing ?src) ?st0 [?st0] w"
      using run by (simp add: ProcessPDFs_Execute_def Let_def)
    then show ?thesis
      using failed [of ?st0 "[?st0]"] c0 by simp
  next
    case exists: True
    show ?thesis
    proof (cases "if \<not> ReplaceOriginal (Scanner config)
                  then fileRepo_CreateDirectory P (TargetDirectory (Scanner config))
                  else None")
      case (Some err)
      then have "out = run_failed P (TargetDirCreateFailed err) ?st0 [?st0] w"
        using run exists by (simp add: ProcessPDFs_Execute_def Let_def)
      then show ?thesis
        using failed [of ?st0 "[?st0]"] c0 by simp
    next
      case created: None
      show ?thesis
      proof (cases "fileRepo_ListPDFFiles P ?src")
        case (Inl err)
        then have "out = run_failed P (ListFilesFailed err) ?st1 ([?st0] @ [?st1]) w"
          using run exists created by (simp add: ProcessPDFs_Execute_def Let_def)
        then show ?thesis
          using failed [of ?st1 "[?st0] @ [?st1]"] c0 c1 by simp
      next
        case (Inr files)
        show ?thesis
        proof (cases "files = []")
          case True
          then have "out = \<lparr>returned = None, final_status = Complete F (time_Since P 0) ?st1,
                             reported = ([?st0] @ [?st1]) @ [Complete F (time_Since P 0) ?st1],
                             workers_started = 0, final_world = w\<rparr>"
            using run exists created Inr by (simp add: ProcessPDFs_Execute_def Let_def)
          then show ?thesis
            using c0 c1 by simp
        next
          case False
          let ?st2 = "?st1\<lparr>TotalFiles := int (length files)\<rparr>"
          let ?st3 = "SetPhase PhaseCompressing ''Compressing PDF files...'' ?st2"
          let ?cfg = "NewCompressionConfigWithLicense (AppLevel (Compression config))
                        (AppUniPDFLicenseKey (Compression config))"
          let ?workers = "if ParallelWorkers (Processing config) \<le> 0 then 1
                          else ParallelWorkers (Processing config)"
          have c3: "counts_consistent ?st3"
            by (simp add: counts_consistent_def)
          obtain results w1 where
            pool: "run_pool F P config ?cfg (nat ?workers) picks files w = Inr (results, w1)"
            using run exists created Inr False
            by (auto simp add: ProcessPDFs_Execute_def Let_def split: sum.splits)
          let ?agg = "aggregate F (time_Since P) 0 results ?st3"
          let ?st5 = "Complete F (time_Since P (length results)) (fst ?agg)"
          have out: "out = \<lparr>returned = None, final_status = ?st5,
                             reported = ([?st0] @ [?st1]) @ [?st3] @ snd ?agg @ [?st5],
                             workers_started = nat ?workers, final_world = w1\<rparr>"
            using run exists created Inr False pool
            by (simp add: ProcessPDFs_Execute_def Let_def split_beta)
          have len: "length results = length files"
            using run_pool_length [OF pool] .
          have agg: "(\<forall>st \<in> set (snd ?agg). counts_consistent st) \<and>
                     counts_consistent (fst ?agg) \<and>
                     ProcessedFiles (fst ?agg) = int (length results)"
            by (rule aggregate_consistent)
               (simp_all add: len)
          have tot: "TotalFiles (fst ?agg) = int (length files)"
            using aggregate_counts [of F "time_Since P" 0 results ?st3]
            by simp
          have "ProcessedFiles ?st5 = TotalFiles ?st5"
            using agg tot len by simp
          then show ?thesis
            using out agg c0 c1 c3 by simp
        qed
      qed
    qed
  qed
qed


lemma call_Compress_good:
  assumes "returns_result P"
  shows "snd (fst (call_Compress P inputFile outputFile cfg w)) = None \<longrightarrow>
         fst (fst (call_Compress P inputFile outputFile cfg w)) \<noteq> None"
  using assms by (simp add: returns_result_def call_Compress_def split_beta)

lemma retry_loop_good:
  assumes "returns_result P"
    and "attempt < n \<or> (snd re = None \<longrightarrow> fst re \<noteq> None)"
  shows "snd (fst (retry_loop P n inputFile outputFile cfg attempt re w)) = None \<longrightarrow>
         fst (fst (retry_loop P n inputFile outputFile cfg attempt re w)) \<noteq> None"
  using assms
proof (induction P n inputFile outputFile cfg attempt re w rule: retry_loop.induct)
  case (1 P n inputFile outputFile cfg attempt re w)
  show ?case
  proof (cases "attempt < n")
    case False
    then show ?thesis
      using "1.prems"(2) by (simp add: retry_loop_done)
  next
    case True
    obtain re' w1 where c: "call_Compress P inputFile outputFile cfg w = (re', w1)"
      by (cases "call_Compress P inputFile outputFile cfg w")
    have good: "snd re' = None \<longrightarrow> fst re' \<noteq> None"
      using call_Compress_good [OF "1.prems"(1), of inputFile outputFile cfg w] c by simp
    show ?thesis
    proof (cases "snd re' = None")
      case None: True
      then show ?thesis
        using True c good by (simp add: retry_loop_step)
    next
      case False
      let ?w2 = "if attempt < n - 1 then time_Sleep (time_Second * 2) w1 else w1"
      have "snd (fst (retry_loop P n inputFile outputFile cfg (attempt + 1) re' ?w2)) = None \<longrightarrow>
            fst (fst (retry_loop P n inputFile outputFile cfg (attempt + 1) re' ?w2)) \<noteq> None"
        using "1.IH" [OF True refl c [symmetric] False refl "1.prems"(1)] good by blast
      moreover obtain e where "snd re' = Some e"
        using False by blast
      ultimately show ?thesis
        using True c by (simp add: retry_loop_step)
    qed
  qed
qed

lemma worker_job_returns:
  assumes "returns_result P" and "1 \<le> RetryAttempts (Processing config)"
  shows "\<exists>r w'. worker_job F P config cfg inputFile w = Inr (r, w')"
proof (cases "resolve_output F P config inputFile")
  case (Inl failed)
  then show ?thesis by (simp add: worker_job_def)
next
  case (Inr outputFile)
  show ?thesis
  proof (cases "fileRepo_GetFileInfo P inputFile")
    case (Inl err)
    then show ?thesis using Inr by (simp add: worker_job_def)
  next
    case info: (Inr fileInfo)
    let ?run = "retry_loop P (RetryAttempts (Processing config)) inputFile outputFile cfg 0
                  (None, None) w"
    have good: "snd (fst ?run) = None \<longrightarrow> fst (fst ?run) \<noteq> None"
      using assms by (intro retry_loop_good) simp_all
    obtain result err w1 where run: "?run = ((result, err), w1)"
      by (cases ?run) auto
    show ?thesis
    proof (cases err)
      case (Some e)
      then show ?thesis
        using Inr info run by (simp add: worker_job_def)
    next
      case None
      then obtain r where "result = Some r"
        using good run by auto
      then show ?thesis
        using Inr info run None
        by (auto simp add: worker_job_def Let_def split: prod.splits option.splits)
    qed
  qed
qed

lemma run_pool_returns:
  assumes "returns_result P" and "1 \<le> RetryAttempts (Processing config)"
  shows "\<exists>rs w'. run_pool F P config cfg workers picks files w = Inr (rs, w')"
  using assms
proof (induction F P config cfg workers picks files w rule: run_pool.induct)
  case (1 F P config cfg workers picks w)
  show ?case by simp
next
  case (2 F P config cfg workers picks j js w)
  define i where "i = (case picks of [] \<Rightarrow> 0 | p # _ \<Rightarrow> p mod (min (max 1 workers) (length (j # js))))"
  obtain r w1 where job: "worker_job F P config cfg ((j # js) ! i) w = Inr (r, w1)"
    using worker_job_returns [OF "2.prems"] by blast
  obtain rs w2 where "run_pool F P config cfg workers (tl picks)
                 (take i (j # js) @ drop (Suc i) (j # js)) w1 = Inr (rs, w2)"
    using "2.IH" [OF refl i_def job refl "2.prems"] by blast
  then show ?case
    using job by (simp add: Let_def i_def [symmetric])
qed

lemma Execute_returns:
  assumes "returns_result P" and "1 \<le> RetryAttempts (Processing config)"
  shows "\<exists>out. ProcessPDFs_Execute F P picks config w = Inr out"
proof -
  let ?cfg = "NewCompressionConfigWithLicense (AppLevel (Compression config))
                (AppUniPDFLicenseKey (Compression config))"
  have "\<exists>rs w'. run_pool F P config ?cfg workers picks files w = Inr (rs, w')" for workers files
    using run_pool_returns [OF assms] .
  then show ?thesis
    by (simp add: ProcessPDFs_Execute_def Let_def split_beta
          split: option.splits sum.splits) (metis old.sum.distinct(1))
qed


text \<open>
  Claim C6. Whatever results are added to a new status, the number of processed files is the
  number of successes plus the number of failures, at every report; with no more results
  than the total of the status, the processed files never exceed the total. In a batch run
  this holds of every status reported: the run adds one result for each file of the
  inventory. A run that completes has processed exactly its total, which is the number of
  successes plus the number of failures. A run returns whenever at least one attempt is
  configured and the compressor returns a result when it returns no error.
\<close>

theorem progress_counts_consistent:
  "(let run = aggregate F clock k rs (NewProcessingStatus F n)
    in (\<forall>st \<in> set (snd run). ProcessedFiles st = SuccessfulFiles st + FailedFiles st) \<and>
       ProcessedFiles (fst run) = SuccessfulFiles (fst run) + FailedFiles (fst run) \<and>
       (int (length rs) \<le> n \<longrightarrow>
          (\<forall>st \<in> set (snd run). counts_consistent st) \<and> counts_consistent (fst run))) \<and>
   (\<forall>out. ProcessPDFs_Execute F P picks config w = Inr out \<longrightarrow>
      (\<forall>st \<in> set (reported out). counts_consistent st) \<and>
      counts_consistent (final_status out) \<and>
      (Phase (final_status out) = PhaseCompleted \<longrightarrow>
         ProcessedFiles (final_status out)
           = SuccessfulFiles (final_status out) + FailedFiles (final_status out) \<and>
         ProcessedFiles (final_status out) = TotalFiles (final_status out))) \<and>
   (returns_result P \<and> 1 \<le> RetryAttempts (Processing config) \<longrightarrow>
      (\<exists>out. ProcessPDFs_Execute F P picks config w = Inr out))"
proof -
  let ?run = "aggregate F clock k rs (NewProcessingStatus F n)"
  have sums: "(\<forall>st \<in> set (snd ?run).
                 ProcessedFiles st = SuccessfulFiles st + FailedFiles st) \<and>
              ProcessedFiles (fst ?run) = SuccessfulFiles (fst ?run) + FailedFiles (fst ?run)"
    using aggregate_counts [of F clock k rs "NewProcessingStatus F n"] by simp
  have bound: "(\<forall>st \<in> set (snd ?run). counts_consistent st) \<and> counts_consistent (fst ?run)"
    if "int (length rs) \<le> n"
    using aggregate_consistent [of "NewProcessingStatus F n" rs F clock k] that by simp
  have runs: "(\<forall>st \<in> set (reported out). counts_consistent st) \<and>
      counts_consistent (final_status out) \<and>
      (Phase (final_status out) = PhaseCompleted \<longrightarrow>
         ProcessedFiles (final_status out)
           = SuccessfulFiles (final_status out) + FailedFiles (final_status out) \<and>
         ProcessedFiles (final_status out) = TotalFiles (final_status out))"
    if "ProcessPDFs_Execute F P picks config w = Inr out" for out
    using Execute_consistent [OF that] by (auto simp add: counts_consistent_def)
  have total: "\<exists>out. ProcessPDFs_Execute F P picks config w = Inr out"
    if "returns_result P \<and> 1 \<le> RetryAttempts (Processing config)"
    using Execute_returns that by blast
  show ?thesis
    unfolding Let_def using sums bound runs total by blast
qed

lemma flaky_returns_result: "returns_result (test_ports flaky_compress files)"
  by (simp add: returns_result_def test_ports_def flaky_compress_def failing_compress_def
        halving_compress_def)

theorem progress_counts_consistent_witness:
  "(let P = test_ports flaky_compress [''in/a.pdf'', ''in/b.pdf''];
        run = ProcessPDFs_Execute exact_ops P [] (test_config False 2 1) (world0 fs_ab)
    in returns_result P \<and> 1 \<le> RetryAttempts (Processing (test_config False 2 1)) \<and>
       map_sum id (\<lambda>out. Phase (final_status out)) run = Inr PhaseCompleted \<and>
       map_sum id (\<lambda>out. map ProcessedFiles (reported out)) run = Inr [0, 0, 0, 1, 2, 2] \<and>
       map_sum id (\<lambda>out. map TotalFiles (reported out)) run = Inr [0, 0, 2, 2, 2, 2] \<and>
       map_sum id (\<lambda>out. (TotalFiles (final_status out), ProcessedFiles (final_status out),
                          SuccessfulFiles (final_status out), FailedFiles (final_status out)))
         run = Inr (2, 2, 1, 1))"
proof -
  let ?P = "test_ports flaky_compress [''in/a.pdf'', ''in/b.pdf'']"
  let ?config = "test_config False 2 1"
  let ?run = "ProcessPDFs_Execute exact_ops ?P [] ?config (world0 fs_ab)"
  have one: "1 \<le> RetryAttempts (Processing ?config)"
    by (simp add: test_config_def)
  have pool: "run_pool exact_ops ?P ?config
           (NewCompressionConfigWithLicense (AppLevel (Compression ?config))
              (AppUniPDFLicenseKey (Compression ?config)))
           (nat (if ParallelWorkers (Processing ?config) \<le> 0 then 1
                 else ParallelWorkers (Processing ?config)))
           [] [''in/a.pdf'', ''in/b.pdf''] (world0 fs_ab)
        = Inr ([(zero_result exact_ops)\<lparr>CurrentFile := ''in/a.pdf'', OriginalSize := 1000,
              Error := Some (CompressorError ''!'')\<rparr>,
           (zero_result exact_ops)\<lparr>CurrentFile := ''in/b.pdf'', OriginalSize := 1000,
              CompressedSize := 500, CompressionRatio := 50, SavedSpace := 500,
              Success := True\<rparr>],
          \<lparr>w_fs = fs_ab(''out/b.pdf'' \<mapsto> ''NEW''),
           w_events = [EvCompress ''in/a.pdf'' ''out/a.pdf'',
                       EvCompress ''in/b.pdf'' ''out/b.pdf'']\<rparr>)"
    by (simp add: worker_job_def resolve_output_def retry_loop_step retry_loop_done
          call_Compress_def compress_calls_def test_ports_def test_config_def world0_def
          flaky_compress_def failing_compress_def halving_compress_def
          CalculateCompressionRatio_def zero_result_def exact_ops_def float64_of_int64_def
          word_sless_alt Let_def)
  have pre: "fileRepo_FileExists ?P (SourceDirectory (Scanner ?config))"
    "ReplaceOriginal (Scanner ?config) \<or>
       fileRepo_CreateDirectory ?P (TargetDirectory (Scanner ?config)) = None"
    "fileRepo_ListPDFFiles ?P (SourceDirectory (Scanner ?config)) = Inr [''in/a.pdf'', ''in/b.pdf'']"
    "[''in/a.pdf'', ''in/b.pdf''] \<noteq> []"
    by (simp_all add: test_ports_def)
  note run = Execute_pool [OF pre pool]
  have val: "map_sum id (\<lambda>out. (Phase (final_status out), map ProcessedFiles (reported out),
                map TotalFiles (reported out), SuccessfulFiles (final_status out),
                FailedFiles (final_status out))) ?run
             = Inr (PhaseCompleted, [0, 0, 0, 1, 2, 2], [0, 0, 2, 2, 2, 2], 1, 1)"
    unfolding run
    by (simp add: Let_def split_beta AddResult_common AddResult_success AddResult_failure
          succeeded_def zero_result_def Complete_def)
  note inst = progress_counts_consistent [of exact_ops "\<lambda>_. 0" 0 "[]" 0 ?P "[]"
            ?config "world0 fs_ab"]
  obtain out where out: "?run = Inr out"
    using inst flaky_returns_result one by blast
  then have "Phase (final_status out) = PhaseCompleted \<longrightarrow>
         ProcessedFiles (final_status out)
           = SuccessfulFiles (final_status out) + FailedFiles (final_status out) \<and>
         ProcessedFiles (final_status out) = TotalFiles (final_status out)"
    using inst by blast
  then show ?thesis
    unfolding Let_def using val out flaky_returns_result one by simp
qed



text \<open>
  Claim C1, as amended. When the inventory of the source directory returns no file, no
  worker is started, the phase of compression is never entered and the world is left as it
  is. \<open>ProcessPDFsUseCase.Execute\<close> then completes: it returns no error and its last status
  has the phase \<open>Completed\<close>, is complete and carries no error.
  \<open>CompressDirectoryUseCase.Execute\<close> returns the error \<open>ErrNoFilesFound\<close>.
\<close>

theorem empty_inventory_completes_without_workers:
  "(fileRepo_FileExists P (SourceDirectory (Scanner config)) \<and>
    (ReplaceOriginal (Scanner config) \<or>
     fileRepo_CreateDirectory P (TargetDirectory (Scanner config)) = None) \<and>
    fileRepo_ListPDFFiles P (SourceDirectory (Scanner config)) = Inr [] \<longrightarrow>
      (\<exists>out. ProcessPDFs_Execute F P picks config w = Inr out \<and>
         returned out = None \<and> workers_started out = 0 \<and> final_world out = w \<and>
         map Phase (reported out) = [PhaseInitializing, PhaseScanning, PhaseCompleted] \<and>
         Phase (final_status out) = PhaseCompleted \<and> IsComplete (final_status out) \<and>
         StatusError (final_status out) = None \<and>
         TotalFiles (final_status out) = 0 \<and> ProcessedFiles (final_status out) = 0)) \<and>
   (fileRepo_FileExists P inputDir \<and> fileRepo_CreateDirectory P outputDir = None \<and>
    fileRepo_ListPDFFiles P inputDir = Inr [] \<longrightarrow>
      CompressDirectory_Execute F P inputDir outputDir level w
        = Inr (Inl ErrNoFilesFound, w))"
proof -
  have a: "\<exists>out. ProcessPDFs_Execute F P picks config w = Inr out \<and>
         returned out = None \<and> workers_started out = 0 \<and> final_world out = w \<and>
         map Phase (reported out) = [PhaseInitializing, PhaseScanning, PhaseCompleted] \<and>
         Phase (final_status out) = PhaseCompleted \<and> IsComplete (final_status out) \<and>
         StatusError (final_status out) = None \<and>
         TotalFiles (final_status out) = 0 \<and> ProcessedFiles (final_status out) = 0"
    if "fileRepo_FileExists P (SourceDirectory (Scanner config))"
      and "ReplaceOriginal (Scanner config) \<or>
           fileRepo_CreateDirectory P (TargetDirectory (Scanner config)) = None"
      and "fileRepo_ListPDFFiles P (SourceDirectory (Scanner config)) = Inr []"
    using that
    by (auto simp add: ProcessPDFs_Execute_def Let_def SetPhase_def Complete_def
          NewProcessingStatus_def)
  have b: "CompressDirectory_Execute F P inputDir outputDir level w
             = Inr (Inl ErrNoFilesFound, w)"
    if "fileRepo_FileExists P inputDir" and "fileRepo_CreateDirectory P outputDir = None"
      and "fileRepo_ListPDFFiles P inputDir = Inr []"
    using that by (simp add: CompressDirectory_Execute_def)
  show ?thesis
    using a b by blast
qed

theorem empty_inventory_completes_without_workers_witness:
  "(let P = test_ports halving_compress [];
        config = test_config False 2 3;
        run = ProcessPDFs_Execute exact_ops P [] config (world0 fs_ab)
    in fileRepo_FileExists P (SourceDirectory (Scanner config)) \<and>
       fileRepo_CreateDirectory P (TargetDirectory (Scanner config)) = None \<and>
       fileRepo_ListPDFFiles P (SourceDirectory (Scanner config)) = Inr [] \<and>
       map_sum id workers_started run = Inr 0 \<and>
       map_sum id (\<lambda>out. map Phase (reported out)) run
         = Inr [PhaseInitializing, PhaseScanning, PhaseCompleted] \<and>
       map_sum id final_world run = Inr (world0 fs_ab) \<and>
       fileRepo_FileExists P ''in'' \<and> fileRepo_CreateDirectory P ''out'' = None \<and>
       fileRepo_ListPDFFiles P ''in'' = Inr [] \<and>
       CompressDirectory_Execute exact_ops P ''in'' ''out'' 50 (world0 fs_ab)
         = Inr (Inl ErrNoFilesFound, world0 fs_ab))"
proof -
  let ?P = "test_ports halving_compress []"
  let ?config = "test_config False 2 3"
  have pre: "fileRepo_FileExists ?P (SourceDirectory (Scanner ?config))"
    "fileRepo_CreateDirectory ?P (TargetDirectory (Scanner ?config)) = None"
    "fileRepo_ListPDFFiles ?P (SourceDirectory (Scanner ?config)) = Inr []"
    "fileRepo_FileExists ?P ''in''" "fileRepo_CreateDirectory ?P ''out'' = None"
    "fileRepo_ListPDFFiles ?P ''in'' = Inr []"
    by (simp_all add: test_ports_def)
  note inst = empty_inventory_completes_without_workers
                [of ?P ?config exact_ops "[]" "world0 fs_ab" "''in''" "''out''" 50]
  have h1: "fileRepo_FileExists ?P (SourceDirectory (Scanner ?config)) \<and>
      (ReplaceOriginal (Scanner ?config) \<or>
       fileRepo_CreateDirectory ?P (TargetDirectory (Scanner ?config)) = None) \<and>
      fileRepo_ListPDFFiles ?P (SourceDirectory (Scanner ?config)) = Inr []"
    using pre(1-3) by simp
  have h2: "fileRepo_FileExists ?P ''in'' \<and> fileRepo_CreateDirectory ?P ''out'' = None \<and>
      fileRepo_ListPDFFiles ?P ''in'' = Inr []"
    using pre(4-6) by simp
  obtain out where "ProcessPDFs_Execute exact_ops ?P [] ?config (world0 fs_ab) = Inr out"
    "workers_started out = 0" "final_world out = world0 fs_ab"
    "map Phase (reported out) = [PhaseInitializing, PhaseScanning, PhaseCompleted]"
    using inst [THEN conjunct1, THEN mp, OF h1] by (elim exE conjE)
  moreover have "CompressDirectory_Execute exact_ops ?P ''in'' ''out'' 50 (world0 fs_ab)
         = Inr (Inl ErrNoFilesFound, world0 fs_ab)"
    using inst [THEN conjunct2, THEN mp, OF h2] .
  ultimately show ?thesis
    unfolding Let_def using pre by simp
qed

text \<open>
  The claim as stated fails: a run of \<open>ProcessPDFsUseCase.Execute\<close> on an empty inventory
  returns nil and ends in the phase \<open>Completed\<close>, not \<open>Failed\<close>.
\<close>

theorem empty_inventory_not_failed_counterexample:
  "fileRepo_ListPDFFiles (test_ports halving_compress []) ''in'' = Inr [] \<and>
   map_sum id returned
     (ProcessPDFs_Execute exact_ops (test_ports halving_compress []) []
        (test_config False 2 3) (world0 fs_ab)) = Inr None \<and>
   map_sum id (Phase \<circ> final_status)
     (ProcessPDFs_Execute exact_ops (test_ports halving_compress []) []
        (test_config False 2 3) (world0 fs_ab)) = Inr PhaseCompleted \<and>
   map_sum id (StatusError \<circ> final_status)
     (ProcessPDFs_Execute exact_ops (test_ports halving_compress []) []
        (test_config False 2 3) (world0 fs_ab)) = Inr None \<and>
   PhaseCompleted \<noteq> PhaseFailed"
  by (simp add: ProcessPDFs_Execute_def Let_def test_ports_def test_config_def
        SetPhase_def Complete_def NewProcessingStatus_def)

end
